(* ===== verification/Prelude.thy ===== *)
theory Prelude
  imports Complex_Main "HOL-Library.AList" "HOL-Library.Sublist"
begin

text \<open>
  Shared vocabulary of the development: the exceptions of the modelled program, results that
  carry either an exception or a value, the collections of facts the component theories extend,
  and generic lemmas on lists and association lists.

  A Python \<open>dict\<close> with string keys is an association list in insertion order: \<open>AList.update\<close>
  replaces the value of a present key in place and appends a new key at the end, which is what
  \<open>d[k] = v\<close> does.
\<close>

section \<open>Collections of facts\<close>

named_theorems py_simps \<open>evaluation of the operations on Python values\<close>
named_theorems monad_simps \<open>evaluation of the state-and-exception combinators\<close>
named_theorems frame_simps \<open>fields of the state an operation leaves alone\<close>

section \<open>Exceptions and results\<close>

text \<open>
  One constructor per exception class the code raises, catches or lets escape. The string is the
  message the interpreter or the code gives; for \<open>KeyError\<close> it is the missing key. An
  \<open>ApiException\<close> of the Kubernetes client carries status, reason, body and its text.
\<close>

datatype py_exn =
    KeyError string
  | IndexError string
  | TypeError string
  | AttributeError string
  | ValueError string
  | JSONDecodeError
  | OSError string
  | VaultUnavailableError string
  | ApiException int string string string
  | OtherError string

type_synonym 'a result = "py_exn + 'a"

definition rbind :: "'a result \<Rightarrow> ('a \<Rightarrow> 'b result) \<Rightarrow> 'b result" where
  "rbind m f = (case m of Inl e \<Rightarrow> Inl e | Inr x \<Rightarrow> f x)"

lemma rbind_simps [simp, py_simps]:
  "rbind (Inl e) f = Inl e"
  "rbind (Inr x) f = f x"
  by (simp_all add: rbind_def)

lemma rbind_assoc: "rbind (rbind m f) g = rbind m (\<lambda>x. rbind (f x) g)"
  by (cases m) simp_all

lemma rbind_eq_Inr: "rbind m f = Inr y \<longleftrightarrow> (\<exists>x. m = Inr x \<and> f x = Inr y)"
  by (cases m) simp_all

text \<open>Applying a function that may raise to every element, first exception wins.\<close>

fun rmap :: "('a \<Rightarrow> 'b result) \<Rightarrow> 'a list \<Rightarrow> 'b list result" where
  "rmap f [] = Inr []"
| "rmap f (x # xs) = rbind (f x) (\<lambda>y. rbind (rmap f xs) (\<lambda>ys. Inr (y # ys)))"

lemma rmap_total: "(\<And>x. x \<in> set xs \<Longrightarrow> f x = Inr (g x)) \<Longrightarrow> rmap f xs = Inr (map g xs)"
  by (induction xs) auto

lemma rmap_length: "rmap f xs = Inr ys \<Longrightarrow> length ys = length xs"
  by (induction xs arbitrary: ys) (auto simp: rbind_eq_Inr)

section \<open>Association lists\<close>

lemma map_of_update [simp]: "map_of (AList.update k v d) = (map_of d)(k \<mapsto> v)"
  by (rule update_conv')

lemma distinct_keys_update [simp]:
  "distinct (map fst d) \<Longrightarrow> distinct (map fst (AList.update k v d))"
  by (rule distinct_update)

lemma keys_update: "set (map fst (AList.update k v d)) = insert k (set (map fst d))"
  by (induction d) auto

text \<open>\<open>d.update(e)\<close>, and the display \<open>{**d, **e}\<close>: the entries of \<open>e\<close> in order.\<close>

definition alist_merge :: "('k \<times> 'v) list \<Rightarrow> ('k \<times> 'v) list \<Rightarrow> ('k \<times> 'v) list" where
  "alist_merge d e = fold (\<lambda>(k, v). AList.update k v) e d"

lemma alist_merge_Nil [simp]: "alist_merge d [] = d"
  by (simp add: alist_merge_def)

lemma alist_merge_Cons [simp]:
  "alist_merge d ((k, v) # e) = alist_merge (AList.update k v d) e"
  by (simp add: alist_merge_def)

lemma map_of_alist_merge:
  "distinct (map fst e) \<Longrightarrow> map_of (alist_merge d e) = map_of d ++ map_of e"
proof (induction e arbitrary: d)
  case Nil
  then show ?case by simp
next
  case (Cons p e)
  obtain k v where p: "p = (k, v)" by (cases p)
  from Cons.prems p have "k \<notin> dom (map_of e)" by (simp add: dom_map_of_conv_image_fst)
  then have none: "map_of e k = None" by (simp add: domIff)
  show ?case
  proof
    fix x
    show "map_of (alist_merge d (p # e)) x = (map_of d ++ map_of (p # e)) x"
      using Cons none p by (auto simp: map_add_def split: option.splits)
  qed
qed

lemma distinct_alist_merge [simp]:
  "distinct (map fst d) \<Longrightarrow> distinct (map fst (alist_merge d e))"
  by (induction e arbitrary: d) auto

lemma alist_merge_empty: "distinct (map fst e) \<Longrightarrow> alist_merge [] e = e"
proof -
  have "distinct (map fst (d @ e)) \<Longrightarrow> alist_merge d e = d @ e" for d
  proof (induction e arbitrary: d)
    case Nil
    then show ?case by simp
  next
    case (Cons p e)
    obtain k v where p: "p = (k, v)" by (cases p)
    have upd: "k \<notin> set (map fst d) \<Longrightarrow> AList.update k v d = d @ [(k, v)]"
      by (induction d) auto
    from Cons.prems p have "alist_merge (d @ [(k, v)]) e = (d @ [(k, v)]) @ e"
      by (intro Cons.IH) simp
    with Cons.prems p upd show ?case by simp
  qed
  from this [of "[]"] show "distinct (map fst e) \<Longrightarrow> alist_merge [] e = e" by simp
qed

lemma map_of_filter_key:
  "map_of (filter (\<lambda>(k, v). P k) d) k = (if P k then map_of d k else None)"
  by (induction d) auto

lemma map_of_filter_val:
  "distinct (map fst d) \<Longrightarrow> map_of (filter (\<lambda>(k, v). P v) d) k =
     (case map_of d k of None \<Rightarrow> None | Some v \<Rightarrow> if P v then Some v else None)"
  by (induction d) (force simp: dom_map_of_conv_image_fst domIff split: option.splits)+

section \<open>Lists\<close>

text \<open>\<open>sep.join(xs)\<close>.\<close>

fun join :: "'a list \<Rightarrow> 'a list list \<Rightarrow> 'a list" where
  "join sep [] = []"
| "join sep [x] = x"
| "join sep (x # y # xs) = x @ sep @ join sep (y # xs)"

lemma join_Cons: "xs \<noteq> [] \<Longrightarrow> join sep (x # xs) = x @ sep @ join sep xs"
  by (cases xs) auto

lemma takeWhile_dropWhile_hd: "dropWhile P xs = y # ys \<Longrightarrow> \<not> P y"
  by (metis hd_dropWhile list.distinct(1) list.sel(1))

lemma sorted_dropWhile_filter:
  fixes xs :: "'a::linorder list"
  shows "sorted xs \<Longrightarrow> dropWhile (\<lambda>x. x \<le> c) xs = filter (\<lambda>x. c < x) xs"
proof (induction xs)
  case Nil
  then show ?case by simp
next
  case (Cons x xs)
  show ?case
  proof (cases "x \<le> c")
    case True
    with Cons show ?thesis by auto
  next
    case False
    with Cons.prems have "\<forall>y\<in>set xs. c < y" by auto
    with False show ?thesis by (auto simp: filter_id_conv)
  qed
qed

lemma rev_dropWhile_suffix: "rev (dropWhile P (rev xs)) @ rev (takeWhile P (rev xs)) = xs"
  by (metis rev_append rev_rev_ident takeWhile_dropWhile_id)

end
