(* ===== verification/PyVal.thy ===== *)
theory PyVal
  imports Prelude
begin

text \<open>
  The Python values the program reads from YAML and JSON and passes between its modules, with the
  operations of the language the sources apply to them: truth value, numeric value, \<open>.get\<close>,
  \<open>[...]\<close>, \<open>in\<close>, \<open>or\<close>, \<open>str\<close> and \<open>repr\<close>. Every operation raises where Python raises.

  Dictionaries have string keys (JSON always, and every configuration file of the repository).
  A float is its exact rational value, so arithmetic on time stamps is exact; its printed form is
  a parameter (\<open>float.__repr__\<close> is C code of the interpreter). Characters are the code points
  below 256.
\<close>

datatype pyval =
    PNone
  | PBool bool
  | PInt int
  | PFloat rat
  | PStr string
  | PList "pyval list"
  | PDict "(string \<times> pyval) list"

type_synonym pydict = "(string \<times> pyval) list"

text \<open>\<open>bool(v)\<close>, the value of \<open>if v\<close> and of \<open>not v\<close>.\<close>

fun py_truthy :: "pyval \<Rightarrow> bool" where
  "py_truthy PNone = False"
| "py_truthy (PBool b) = b"
| "py_truthy (PInt i) = (i \<noteq> 0)"
| "py_truthy (PFloat q) = (q \<noteq> 0)"
| "py_truthy (PStr s) = (s \<noteq> [])"
| "py_truthy (PList xs) = (xs \<noteq> [])"
| "py_truthy (PDict d) = (d \<noteq> [])"

fun py_type_name :: "pyval \<Rightarrow> string" where
  "py_type_name PNone = ''NoneType''"
| "py_type_name (PBool b) = ''bool''"
| "py_type_name (PInt i) = ''int''"
| "py_type_name (PFloat q) = ''float''"
| "py_type_name (PStr s) = ''str''"
| "py_type_name (PList xs) = ''list''"
| "py_type_name (PDict d) = ''dict''"

text \<open>The number a value is in arithmetic and comparisons; \<open>True\<close> is 1 there.\<close>

fun py_num :: "pyval \<Rightarrow> rat option" where
  "py_num (PBool b) = Some (if b then 1 else 0)"
| "py_num (PInt i) = Some (of_int i)"
| "py_num (PFloat q) = Some q"
| "py_num _ = None"

definition num_or_raise :: "string \<Rightarrow> pyval \<Rightarrow> rat result" where
  "num_or_raise op v = (case py_num v of
     None \<Rightarrow> Inl (TypeError (op @ '' not supported for '' @ py_type_name v))
   | Some q \<Rightarrow> Inr q)"

text \<open>\<open>a or b\<close>.\<close>

definition py_or :: "pyval \<Rightarrow> pyval \<Rightarrow> pyval" where
  "py_or a b = (if py_truthy a then a else b)"

definition squoted :: "string \<Rightarrow> string" where
  "squoted s = [CHR 0x27] @ s @ [CHR 0x27]"

definition attr_error :: "pyval \<Rightarrow> string \<Rightarrow> py_exn" where
  "attr_error v name =
     AttributeError (squoted (py_type_name v) @ '' object has no attribute '' @ squoted name)"

text \<open>\<open>v.get(k, dflt)\<close>: only dictionaries have \<open>get\<close>.\<close>

fun py_get_or :: "pyval \<Rightarrow> string \<Rightarrow> pyval \<Rightarrow> pyval result" where
  "py_get_or (PDict d) k dflt = Inr (case map_of d k of None \<Rightarrow> dflt | Some v \<Rightarrow> v)"
| "py_get_or v k dflt = Inl (attr_error v ''get'')"

abbreviation py_get :: "pyval \<Rightarrow> string \<Rightarrow> pyval result" where
  "py_get v k \<equiv> py_get_or v k PNone"

definition py_hashable :: "pyval \<Rightarrow> bool" where
  "py_hashable k = (case k of PList _ \<Rightarrow> False | PDict _ \<Rightarrow> False | _ \<Rightarrow> True)"

definition unhashable :: "pyval \<Rightarrow> py_exn" where
  "unhashable k = TypeError (''unhashable type: '' @ py_type_name k)"

text \<open>\<open>v.get(k, dflt)\<close> with a key that is itself a value read from a file or a request.\<close>

fun py_get_key :: "pyval \<Rightarrow> pyval \<Rightarrow> pyval \<Rightarrow> pyval result" where
  "py_get_key (PDict d) k dflt =
     (case k of
        PStr s \<Rightarrow> Inr (case map_of d s of None \<Rightarrow> dflt | Some v \<Rightarrow> v)
      | _ \<Rightarrow> if py_hashable k then Inr dflt else Inl (unhashable k))"
| "py_get_key v k dflt = Inl (attr_error v ''get'')"

text \<open>\<open>v["k"]\<close>.\<close>

fun py_item :: "pyval \<Rightarrow> string \<Rightarrow> pyval result" where
  "py_item (PDict d) k = (case map_of d k of None \<Rightarrow> Inl (KeyError k) | Some v \<Rightarrow> Inr v)"
| "py_item v k = Inl (TypeError (py_type_name v @ '' is not subscriptable with a str''))"

text \<open>\<open>s in v\<close> for a string \<open>s\<close>: a key, an element, or a substring.\<close>

fun py_in :: "string \<Rightarrow> pyval \<Rightarrow> bool result" where
  "py_in s (PDict d) = Inr (s \<in> set (map fst d))"
| "py_in s (PList xs) = Inr (PStr s \<in> set xs)"
| "py_in s (PStr t) = Inr (sublist s t)"
| "py_in s v = Inl (TypeError (''argument of type '' @ py_type_name v @ '' is not iterable''))"

text \<open>
  \<open>==\<close> between two values of which one is not a container: numbers compare by value whatever
  their type.
\<close>

definition py_eq_scalar :: "pyval \<Rightarrow> pyval \<Rightarrow> bool" where
  "py_eq_scalar a b =
     (case (py_num a, py_num b) of
        (Some x, Some y) \<Rightarrow> x = y
      | (None, None) \<Rightarrow> a = b
      | _ \<Rightarrow> False)"

text \<open>\<open>k in v\<close> for a value \<open>k\<close>.\<close>

definition py_in_val :: "pyval \<Rightarrow> pyval \<Rightarrow> bool result" where
  "py_in_val k v =
     (case k of
        PStr s \<Rightarrow> py_in s v
      | _ \<Rightarrow>
          (case v of
             PDict d \<Rightarrow> if py_hashable k then Inr False else Inl (unhashable k)
           | PList xs \<Rightarrow> Inr (list_ex (py_eq_scalar k) xs)
           | _ \<Rightarrow> Inl (TypeError (''in not supported between '' @ py_type_name k @ '' and '' @ py_type_name v))))"

text \<open>The items \<open>for x in v\<close> visits: the keys of a dictionary, the characters of a string.\<close>

fun py_iter :: "pyval \<Rightarrow> pyval list result" where
  "py_iter (PList xs) = Inr xs"
| "py_iter (PDict d) = Inr (map (\<lambda>(k, v). PStr k) d)"
| "py_iter (PStr s) = Inr (map (\<lambda>c. PStr [c]) s)"
| "py_iter v = Inl (TypeError (py_type_name v @ '' object is not iterable''))"

definition py_is_dict :: "pyval \<Rightarrow> bool" where
  "py_is_dict v = (case v of PDict _ \<Rightarrow> True | _ \<Rightarrow> False)"

text \<open>\<open>k in v\<close> and \<open>v[k]\<close> for a configuration dictionary held as an association list.\<close>

definition has_key :: "pydict \<Rightarrow> string \<Rightarrow> bool" where
  "has_key d k \<longleftrightarrow> k \<in> set (map fst d)"

definition dget :: "pydict \<Rightarrow> string \<Rightarrow> pyval" where
  "dget d k = (case map_of d k of None \<Rightarrow> PNone | Some v \<Rightarrow> v)"

lemma has_key_map_of: "has_key d k \<longleftrightarrow> map_of d k \<noteq> None"
  by (auto simp: has_key_def map_of_eq_None_iff)

lemma py_get_dget [simp]: "py_get (PDict d) k = Inr (dget d k)"
  by (simp add: dget_def)

lemma dget_update [simp]: "dget (AList.update k v d) k' = (if k' = k then v else dget d k')"
  by (simp add: dget_def)

lemma has_key_update [simp]: "has_key (AList.update k v d) k' \<longleftrightarrow> k' = k \<or> has_key d k'"
  by (auto simp: has_key_map_of)

section \<open>Printing integers\<close>

text \<open>\<open>str(n)\<close> for a natural number, least significant digit last.\<close>

definition digit_char :: "nat \<Rightarrow> char" where
  "digit_char d = char_of (48 + d)"

fun nat_text :: "nat \<Rightarrow> string" where
  "nat_text n = (if n < 10 then [digit_char n] else nat_text (n div 10) @ [digit_char (n mod 10)])"

declare nat_text.simps [simp del]

definition int_text :: "int \<Rightarrow> string" where
  "int_text i = (if i < 0 then CHR ''-'' # nat_text (nat (- i)) else nat_text (nat i))"

definition is_digit :: "char \<Rightarrow> bool" where
  "is_digit c \<longleftrightarrow> 48 \<le> (of_char c :: nat) \<and> (of_char c :: nat) \<le> 57"

definition digit_val :: "char \<Rightarrow> nat" where
  "digit_val c = of_char c - 48"

definition nat_val :: "string \<Rightarrow> nat" where
  "nat_val s = foldl (\<lambda>n c. 10 * n + digit_val c) 0 s"

lemma digit_char_props:
  assumes "d < 10"
  shows "is_digit (digit_char d)" "digit_val (digit_char d) = d"
  using assms by (simp_all add: digit_char_def is_digit_def digit_val_def)

lemma nat_val_append [simp]: "nat_val (s @ [c]) = 10 * nat_val s + digit_val c"
  by (simp add: nat_val_def)

lemma nat_text_nonempty [simp]: "nat_text n \<noteq> []"
  by (subst nat_text.simps) simp

lemma nat_text_digits: "list_all is_digit (nat_text n)"
proof (induction n rule: nat_text.induct)
  case (1 n)
  then show ?case
    by (subst nat_text.simps) (auto simp: digit_char_props)
qed

lemma nat_val_nat_text [simp]: "nat_val (nat_text n) = n"
proof (induction n rule: nat_text.induct)
  case (1 n)
  show ?case
  proof (cases "n < 10")
    case True
    then show ?thesis
      by (subst nat_text.simps) (simp add: nat_val_def digit_char_props)
  next
    case False
    then show ?thesis
      using 1 by (subst nat_text.simps) (simp add: digit_char_props)
  qed
qed

lemma nat_text_inject [simp]: "nat_text m = nat_text n \<longleftrightarrow> m = n"
  by (metis nat_val_nat_text)

lemma nat_text_no_lead_zero: "hd (nat_text n) = CHR ''0'' \<Longrightarrow> n = 0"
proof (induction n rule: nat_text.induct)
  case (1 n)
  show ?case
  proof (cases "n < 10")
    case True
    with "1.prems" have "digit_char n = CHR ''0''"
      by (simp add: nat_text.simps [of n])
    with True show ?thesis
      using digit_char_props(2) [of n] by (simp add: digit_val_def)
  next
    case False
    with "1.prems" have "hd (nat_text (n div 10)) = CHR ''0''"
      by (simp add: nat_text.simps [of n])
    with False 1 have "n div 10 = 0" by simp
    with False show ?thesis by simp
  qed
qed

section \<open>\<open>str\<close> and \<open>repr\<close>\<close>

definition hex_digit :: "nat \<Rightarrow> char" where
  "hex_digit d = (if d < 10 then char_of (48 + d) else char_of (87 + d))"

definition hex2 :: "nat \<Rightarrow> string" where
  "hex2 n = [hex_digit (n div 16 mod 16), hex_digit (n mod 16)]"

text \<open>\<open>repr\<close> of a string: double quotes exactly when it holds a single quote and no double one.\<close>

definition repr_char :: "char \<Rightarrow> char \<Rightarrow> string" where
  "repr_char q c =
     (let n = (of_char c :: nat) in
      if c = q \<or> c = CHR 0x5C then [CHR 0x5C, c]
      else if n = 10 then [CHR 0x5C, CHR ''n'']
      else if n = 13 then [CHR 0x5C, CHR ''r'']
      else if n = 9 then [CHR 0x5C, CHR ''t'']
      else if n < 32 \<or> (127 \<le> n \<and> n \<le> 160) \<or> n = 173 then [CHR 0x5C, CHR ''x''] @ hex2 n
      else [c])"

definition repr_str :: "string \<Rightarrow> string" where
  "repr_str s =
     (let q = (if CHR 0x27 \<in> set s \<and> CHR 0x22 \<notin> set s then CHR 0x22 else CHR 0x27)
      in [q] @ concat (map (repr_char q) s) @ [q])"

fun py_repr :: "(rat \<Rightarrow> string) \<Rightarrow> pyval \<Rightarrow> string" where
  "py_repr fr PNone = ''None''"
| "py_repr fr (PBool b) = (if b then ''True'' else ''False'')"
| "py_repr fr (PInt i) = int_text i"
| "py_repr fr (PFloat q) = fr q"
| "py_repr fr (PStr s) = repr_str s"
| "py_repr fr (PList xs) = ''['' @ join '', '' (map (py_repr fr) xs) @ '']''"
| "py_repr fr (PDict d) =
     ''{'' @ join '', '' (map (\<lambda>kv. repr_str (fst kv) @ '': '' @ py_repr fr (snd kv)) d) @ ''}''"

fun py_str :: "(rat \<Rightarrow> string) \<Rightarrow> pyval \<Rightarrow> string" where
  "py_str fr (PStr s) = s"
| "py_str fr v = py_repr fr v"

text \<open>\<open>str(e)\<close> of an exception, as the f-strings of the code print it.\<close>

fun exn_text :: "py_exn \<Rightarrow> string" where
  "exn_text (KeyError k) = repr_str k"
| "exn_text (IndexError m) = m"
| "exn_text (TypeError m) = m"
| "exn_text (AttributeError m) = m"
| "exn_text (ValueError m) = m"
| "exn_text JSONDecodeError = ''invalid JSON''"
| "exn_text (OSError m) = m"
| "exn_text (VaultUnavailableError m) = m"
| "exn_text (ApiException st reason body t) = t"
| "exn_text (OtherError m) = m"

section \<open>Text\<close>

text \<open>\<open>str.isspace\<close> on the code points below 256, and \<open>s.strip()\<close>.\<close>

definition is_space :: "char \<Rightarrow> bool" where
  "is_space c \<longleftrightarrow> (let n = (of_char c :: nat) in
     (9 \<le> n \<and> n \<le> 13) \<or> (28 \<le> n \<and> n \<le> 32) \<or> n = 133 \<or> n = 160)"

definition strip_right :: "(char \<Rightarrow> bool) \<Rightarrow> string \<Rightarrow> string" where
  "strip_right P s = rev (dropWhile P (rev s))"

definition strip :: "string \<Rightarrow> string" where
  "strip s = strip_right is_space (dropWhile is_space s)"

definition startswith :: "string \<Rightarrow> string \<Rightarrow> bool" where
  "startswith s p \<longleftrightarrow> prefix p s"

definition endswith :: "string \<Rightarrow> string \<Rightarrow> bool" where
  "endswith s p \<longleftrightarrow> suffix p s"

lemma strip_right_id: "s = [] \<or> \<not> P (last s) \<Longrightarrow> strip_right P s = s"
  by (cases s rule: rev_cases) (auto simp: strip_right_def)

lemma strip_id:
  "s \<noteq> [] \<Longrightarrow> \<not> is_space (hd s) \<Longrightarrow> \<not> is_space (last s) \<Longrightarrow> strip s = s"
  by (cases s) (auto simp: strip_def strip_right_id)

lemma strip_right_empty: "strip_right P s = [] \<longleftrightarrow> list_all P s"
  by (auto simp: strip_right_def list_all_iff)

text \<open>
  \<open>for line in f\<close> on a file opened as text: every one of the three line endings is read as a
  line feed, and a last line without one is still a line. The lines are given without the ending.
\<close>

fun univ_nl :: "string \<Rightarrow> string" where
  "univ_nl [] = []"
| "univ_nl [c] = [if c = CHR 0x0D then CHR 0x0A else c]"
| "univ_nl (c # d # cs) =
     (if c = CHR 0x0D then
        (if d = CHR 0x0A then CHR 0x0A # univ_nl cs else CHR 0x0A # univ_nl (d # cs))
      else c # univ_nl (d # cs))"

fun split_acc :: "string \<Rightarrow> string \<Rightarrow> string list" where
  "split_acc acc [] = (if acc = [] then [] else [rev acc])"
| "split_acc acc (c # cs) =
     (if c = CHR 0x0A then rev acc # split_acc [] cs else split_acc (c # acc) cs)"

definition text_lines :: "string \<Rightarrow> string list" where
  "text_lines s = split_acc [] (univ_nl s)"

lemma univ_nl_Cons: "c \<noteq> CHR 0x0D \<Longrightarrow> univ_nl (c # s) = c # univ_nl s"
  by (cases s) auto

lemma univ_nl_append: "CHR 0x0D \<notin> set a \<Longrightarrow> univ_nl (a @ s) = a @ univ_nl s"
  by (induction a) (auto simp: univ_nl_Cons)

lemma split_acc_plain: "CHR 0x0A \<notin> set a \<Longrightarrow> split_acc acc (a @ s) = split_acc (rev a @ acc) s"
  by (induction a arbitrary: acc) auto

lemma split_acc_line:
  "CHR 0x0A \<notin> set a \<Longrightarrow> split_acc [] (a @ CHR 0x0A # s) = a # split_acc [] s"
  by (simp add: split_acc_plain)

lemma text_lines_Nil [simp]: "text_lines [] = []"
  by (simp add: text_lines_def)

section \<open>\<open>int(v)\<close>\<close>

text \<open>\<open>int(s)\<close>: surrounding white space, a sign, digits with single underscores between them.\<close>

fun digits_us :: "bool \<Rightarrow> string \<Rightarrow> nat \<Rightarrow> nat option" where
  "digits_us prev [] acc = (if prev then Some acc else None)"
| "digits_us prev (c # cs) acc =
     (if is_digit c then digits_us True cs (10 * acc + digit_val c)
      else if c = CHR ''_'' \<and> prev then digits_us False cs acc
      else None)"

definition int_of_text :: "string \<Rightarrow> int option" where
  "int_of_text s =
     (let t = strip s in
      if t \<noteq> [] \<and> hd t = CHR ''-'' then map_option (\<lambda>n. - int n) (digits_us False (tl t) 0)
      else if t \<noteq> [] \<and> hd t = CHR ''+'' then map_option int (digits_us False (tl t) 0)
      else map_option int (digits_us False t 0))"

definition py_int :: "pyval \<Rightarrow> int result" where
  "py_int v =
     (case v of
        PInt i \<Rightarrow> Inr i
      | PBool b \<Rightarrow> Inr (if b then 1 else 0)
      | PFloat q \<Rightarrow> Inr (if q < 0 then - \<lfloor>- q\<rfloor> else \<lfloor>q\<rfloor>)
      | PStr s \<Rightarrow> (case int_of_text s of
          None \<Rightarrow> Inl (ValueError (''invalid literal for int() with base 10: '' @ repr_str s))
        | Some i \<Rightarrow> Inr i)
      | v \<Rightarrow> Inl (TypeError (''int() argument must be a string, a bytes-like object or a real number, not ''
          @ squoted (py_type_name v))))"

end
