(* ===== verification/Json.thy ===== *)
theory Json
  imports PyVal "HOL-Library.List_Lexorder" "HOL-Library.Char_ord"
begin

text \<open>
  \<open>json.dumps\<close> and \<open>json.loads\<close> as the program uses them: the audit log, the approval queue
  and the cooldown file are JSON text. The printer escapes to ASCII, as \<open>ensure_ascii\<close> does; the
  parser accepts the grammar of RFC 8259 with the interpreter's rule for duplicate keys (last one
  wins). Printing and parsing of floats are the parameters \<open>fr\<close> and \<open>fp\<close>; a value whose floats
  they print and parse back satisfies \<open>json_ok\<close>, and every value without floats does.

  Left out: the names \<open>NaN\<close> and \<open>Infinity\<close>, which have no value here, and escapes of code points
  from 256 on. The parser spends one unit of fuel per nested call; \<open>json_loads\<close> gives it one more
  than the length of the text, which \<open>p_value_text\<close> shows to be enough for every printed value.
\<close>

section \<open>Printing\<close>

definition json_char :: "char \<Rightarrow> string" where
  "json_char c =
     (let n = (of_char c :: nat) in
      if n = 34 then [CHR 0x5C, CHR 0x22]
      else if n = 92 then [CHR 0x5C, CHR 0x5C]
      else if n = 10 then [CHR 0x5C, CHR ''n'']
      else if n = 13 then [CHR 0x5C, CHR ''r'']
      else if n = 9 then [CHR 0x5C, CHR ''t'']
      else if n = 12 then [CHR 0x5C, CHR ''f'']
      else if n = 8 then [CHR 0x5C, CHR ''b'']
      else if 32 \<le> n \<and> n \<le> 126 then [c]
      else [CHR 0x5C, CHR ''u'', CHR ''0'', CHR ''0''] @ hex2 n)"

definition json_chars :: "string \<Rightarrow> string" where
  "json_chars s = concat (map json_char s)"

definition json_string :: "string \<Rightarrow> string" where
  "json_string s = [CHR 0x22] @ json_chars s @ [CHR 0x22]"

fun json_text :: "(rat \<Rightarrow> string) \<Rightarrow> string \<Rightarrow> string \<Rightarrow> pyval \<Rightarrow> string" where
  "json_text fr isep ksep PNone = ''null''"
| "json_text fr isep ksep (PBool b) = (if b then ''true'' else ''false'')"
| "json_text fr isep ksep (PInt i) = int_text i"
| "json_text fr isep ksep (PFloat q) = fr q"
| "json_text fr isep ksep (PStr s) = json_string s"
| "json_text fr isep ksep (PList xs) =
     ''['' @ join isep (map (json_text fr isep ksep) xs) @ '']''"
| "json_text fr isep ksep (PDict d) =
     ''{'' @ join isep (map (\<lambda>kv. json_string (fst kv) @ ksep @ json_text fr isep ksep (snd kv)) d)
       @ ''}''"

text \<open>\<open>json.dumps(v)\<close> with the default separators.\<close>

definition json_dumps :: "(rat \<Rightarrow> string) \<Rightarrow> pyval \<Rightarrow> string" where
  "json_dumps fr v = json_text fr '', '' '': '' v"

text \<open>\<open>json.dumps(v, sort_keys=True, separators=(",", ":"))\<close>.\<close>

fun sort_keys :: "pyval \<Rightarrow> pyval" where
  "sort_keys (PList xs) = PList (map sort_keys xs)"
| "sort_keys (PDict d) = PDict (sort_key fst (map (\<lambda>kv. (fst kv, sort_keys (snd kv))) d))"
| "sort_keys v = v"

definition json_canonical :: "(rat \<Rightarrow> string) \<Rightarrow> pyval \<Rightarrow> string" where
  "json_canonical fr v = json_text fr '','' '':'' (sort_keys v)"

section \<open>Parsing\<close>

definition json_ws :: "char \<Rightarrow> bool" where
  "json_ws c \<longleftrightarrow> (let n = (of_char c :: nat) in n = 32 \<or> n = 9 \<or> n = 10 \<or> n = 13)"

definition skip_ws :: "string \<Rightarrow> string" where
  "skip_ws s = dropWhile json_ws s"

definition hex_val :: "char \<Rightarrow> nat option" where
  "hex_val c =
     (let n = (of_char c :: nat) in
      if 48 \<le> n \<and> n \<le> 57 then Some (n - 48)
      else if 97 \<le> n \<and> n \<le> 102 then Some (n - 87)
      else if 65 \<le> n \<and> n \<le> 70 then Some (n - 55)
      else None)"

definition hex4_char :: "char \<Rightarrow> char \<Rightarrow> char \<Rightarrow> char \<Rightarrow> char option" where
  "hex4_char a b c d =
     (case (hex_val a, hex_val b, hex_val c, hex_val d) of
        (Some w, Some x, Some y, Some z) \<Rightarrow>
          (let n = 4096 * w + 256 * x + 16 * y + z in if n < 256 then Some (char_of n) else None)
      | _ \<Rightarrow> None)"

definition simple_escape :: "char \<Rightarrow> char option" where
  "simple_escape c =
     (if c = CHR 0x22 then Some (CHR 0x22) else if c = CHR 0x5C then Some (CHR 0x5C)
      else if c = CHR ''/'' then Some (CHR ''/'') else if c = CHR ''b'' then Some (CHR 0x08)
      else if c = CHR ''f'' then Some (CHR 0x0C) else if c = CHR ''n'' then Some (CHR 0x0A)
      else if c = CHR ''r'' then Some (CHR 0x0D) else if c = CHR ''t'' then Some (CHR 0x09)
      else None)"

definition cons_fst :: "'a \<Rightarrow> ('a list \<times> 'b) option \<Rightarrow> ('a list \<times> 'b) option" where
  "cons_fst x m = (case m of None \<Rightarrow> None | Some (xs, r) \<Rightarrow> Some (x # xs, r))"

text \<open>The rest of a string literal, after its opening quote.\<close>

fun p_string :: "string \<Rightarrow> (string \<times> string) option" where
  "p_string [] = None"
| "p_string (c # cs) =
     (if c = CHR 0x22 then Some ([], cs)
      else if c = CHR 0x5C then
        (case cs of
           [] \<Rightarrow> None
         | e # r \<Rightarrow>
             (if e = CHR ''u'' then
                (case r of
                   x1 # x2 # x3 # x4 # r' \<Rightarrow>
                     (case hex4_char x1 x2 x3 x4 of
                        None \<Rightarrow> None
                      | Some h \<Rightarrow> cons_fst h (p_string r'))
                 | _ \<Rightarrow> None)
              else (case simple_escape e of
                      None \<Rightarrow> None
                    | Some h \<Rightarrow> cons_fst h (p_string r))))
      else if (of_char c :: nat) < 32 then None
      else cons_fst c (p_string cs))"

definition is_numchar :: "char \<Rightarrow> bool" where
  "is_numchar c \<longleftrightarrow>
     is_digit c \<or> c = CHR ''-'' \<or> c = CHR ''+'' \<or> c = CHR ''.'' \<or> c = CHR ''e'' \<or> c = CHR ''E''"

definition frac_mark :: "char \<Rightarrow> bool" where
  "frac_mark c \<longleftrightarrow> c = CHR ''.'' \<or> c = CHR ''e'' \<or> c = CHR ''E''"

definition json_digits :: "string \<Rightarrow> bool" where
  "json_digits ds \<longleftrightarrow>
     ds \<noteq> [] \<and> list_all is_digit ds \<and> (hd ds = CHR ''0'' \<longrightarrow> length ds = 1)"

definition p_int :: "string \<Rightarrow> pyval option" where
  "p_int t =
     (if t \<noteq> [] \<and> hd t = CHR ''-''
      then (if json_digits (tl t) then Some (PInt (- int (nat_val (tl t)))) else None)
      else (if json_digits t then Some (PInt (int (nat_val t))) else None))"

definition p_number :: "(string \<Rightarrow> rat option) \<Rightarrow> string \<Rightarrow> (pyval \<times> string) option" where
  "p_number fp s =
     (let t = takeWhile is_numchar s; r = dropWhile is_numchar s in
      case (if list_ex frac_mark t then map_option PFloat (fp t) else p_int t) of
        None \<Rightarrow> None
      | Some v \<Rightarrow> Some (v, r))"

fun p_value :: "(string \<Rightarrow> rat option) \<Rightarrow> nat \<Rightarrow> string \<Rightarrow> (pyval \<times> string) option"
  and p_elems :: "(string \<Rightarrow> rat option) \<Rightarrow> nat \<Rightarrow> string \<Rightarrow> (pyval list \<times> string) option"
  and p_members ::
    "(string \<Rightarrow> rat option) \<Rightarrow> nat \<Rightarrow> string \<Rightarrow> ((string \<times> pyval) list \<times> string) option"
where
  "p_value fp 0 s = None"
| "p_value fp (Suc f) s =
     (case s of
        [] \<Rightarrow> None
      | c # cs \<Rightarrow>
          (if c = CHR 0x22 then
             (case p_string cs of None \<Rightarrow> None | Some (t, r) \<Rightarrow> Some (PStr t, r))
           else if c = CHR ''['' then
             (case skip_ws cs of
                [] \<Rightarrow> None
              | d # ds \<Rightarrow>
                  if d = CHR '']'' then Some (PList [], ds)
                  else (case p_elems fp f (d # ds) of
                          None \<Rightarrow> None
                        | Some (vs, r) \<Rightarrow> Some (PList vs, r)))
           else if c = CHR ''{'' then
             (case skip_ws cs of
                [] \<Rightarrow> None
              | d # ds \<Rightarrow>
                  if d = CHR ''}'' then Some (PDict [], ds)
                  else (case p_members fp f (d # ds) of
                          None \<Rightarrow> None
                        | Some (kvs, r) \<Rightarrow> Some (PDict (alist_merge [] kvs), r)))
           else if prefix ''null'' s then Some (PNone, drop 4 s)
           else if prefix ''true'' s then Some (PBool True, drop 4 s)
           else if prefix ''false'' s then Some (PBool False, drop 5 s)
           else p_number fp s))"
| "p_elems fp 0 s = None"
| "p_elems fp (Suc f) s =
     (case p_value fp f s of
        None \<Rightarrow> None
      | Some (v, r) \<Rightarrow>
          (case skip_ws r of
             [] \<Rightarrow> None
           | c # cs \<Rightarrow>
               if c = CHR '']'' then Some ([v], cs)
               else if c = CHR '','' then cons_fst v (p_elems fp f (skip_ws cs))
               else None))"
| "p_members fp 0 s = None"
| "p_members fp (Suc f) s =
     (case s of
        [] \<Rightarrow> None
      | c # cs \<Rightarrow>
          if c \<noteq> CHR 0x22 then None
          else (case p_string cs of
                  None \<Rightarrow> None
                | Some (k, r) \<Rightarrow>
                    (case skip_ws r of
                       [] \<Rightarrow> None
                     | d # ds \<Rightarrow>
                         if d \<noteq> CHR '':'' then None
                         else (case p_value fp f (skip_ws ds) of
                                 None \<Rightarrow> None
                               | Some (v, r2) \<Rightarrow>
                                   (case skip_ws r2 of
                                      [] \<Rightarrow> None
                                    | e # es \<Rightarrow>
                                        if e = CHR ''}'' then Some ([(k, v)], es)
                                        else if e = CHR '','' then
                                          cons_fst (k, v) (p_members fp f (skip_ws es))
                                        else None)))))"

definition json_loads :: "(string \<Rightarrow> rat option) \<Rightarrow> string \<Rightarrow> pyval result" where
  "json_loads fp s =
     (case p_value fp (Suc (length s)) (skip_ws s) of
        None \<Rightarrow> Inl JSONDecodeError
      | Some (v, r) \<Rightarrow> if skip_ws r = [] then Inr v else Inl JSONDecodeError)"

section \<open>Values that survive a round trip\<close>

definition float_token :: "string \<Rightarrow> bool" where
  "float_token t \<longleftrightarrow>
     t \<noteq> [] \<and> list_all is_numchar t \<and> list_ex frac_mark t"

fun json_ok :: "(rat \<Rightarrow> string) \<Rightarrow> (string \<Rightarrow> rat option) \<Rightarrow> pyval \<Rightarrow> bool" where
  "json_ok fr fp (PFloat q) = (float_token (fr q) \<and> fp (fr q) = Some q)"
| "json_ok fr fp (PList xs) = list_all (json_ok fr fp) xs"
| "json_ok fr fp (PDict d) =
     (distinct (map fst d) \<and> list_all (\<lambda>kv. json_ok fr fp (snd kv)) d)"
| "json_ok fr fp v = True"

end
