(* ===== verification/JsonLaws.thy ===== *)
theory JsonLaws
  imports Json
begin

text \<open>
  Printing a value and parsing it back gives the value, whatever of the two separator styles is
  used and whatever text follows; the printed text is one line of printable ASCII. The locale
  \<open>line_codec\<close> is what the files of the program rely on: one record per line, each line parsed
  back on its own.
\<close>

section \<open>Characters\<close>

lemma char_eq_code: "c = d \<longleftrightarrow> (of_char c :: nat) = of_char d"
  by simp

lemma of_char_bound: "(of_char c :: nat) < 256"
  by simp

lemma hex_val_hex_digit: "d < 16 \<Longrightarrow> hex_val (hex_digit d) = Some d"
  by (auto simp: hex_val_def hex_digit_def Let_def)

lemma hex4_hex2:
  "hex4_char (CHR ''0'') (CHR ''0'') (hex_digit (of_char c div 16 mod 16)) (hex_digit (of_char c mod 16))
     = Some c"
proof -
  have "(of_char c :: nat) div 16 < 16" using of_char_bound [of c] by linarith
  then have "(of_char c :: nat) div 16 mod 16 = of_char c div 16" by simp
  moreover have "hex_val (CHR ''0'') = Some 0" by (simp add: hex_val_def)
  ultimately show ?thesis
    using of_char_bound [of c] \<open>of_char c div 16 < 16\<close>
    by (simp add: hex4_char_def hex_val_hex_digit Let_def)
qed

lemma p_string_char: "p_string (json_char c @ s) = cons_fst c (p_string s)"
proof -
  consider "c = CHR 0x22" | "c = CHR 0x5C" | "c = CHR 0x0A" | "c = CHR 0x0D" | "c = CHR 0x09"
    | "c = CHR 0x0C" | "c = CHR 0x08"
    | "32 \<le> (of_char c :: nat)" "(of_char c :: nat) \<le> 126" "c \<noteq> CHR 0x22" "c \<noteq> CHR 0x5C"
    | "\<not> (32 \<le> (of_char c :: nat) \<and> (of_char c :: nat) \<le> 126)"
      "c \<notin> {CHR 0x0A, CHR 0x0D, CHR 0x09, CHR 0x0C, CHR 0x08}"
    by fastforce
  then show ?thesis
  proof cases
    case 8
    then have "(of_char c :: nat) \<notin> {34, 92, 10, 13, 9, 12, 8}"
      by (auto simp: char_eq_code [of c])
    with 8 show ?thesis by (auto simp: json_char_def Let_def)
  next
    case 9
    then have n: "(of_char c :: nat) \<notin> {34, 92, 10, 13, 9, 12, 8}"
      by (auto simp: char_eq_code [of c])
    have "json_char c = [CHR 0x5C, CHR ''u'', CHR ''0'', CHR ''0''] @ hex2 (of_char c)"
      using n 9 by (simp add: json_char_def Let_def del: One_nat_def)
    then show ?thesis by (simp add: hex2_def hex4_hex2)
  qed (simp_all add: json_char_def simple_escape_def)
qed

lemma p_string_chars: "p_string (json_chars t @ CHR 0x22 # s) = Some (t, s)"
  by (induction t) (simp_all add: json_chars_def p_string_char cons_fst_def)

lemma hex_digit_printable:
  "d < 16 \<Longrightarrow> 32 \<le> (of_char (hex_digit d) :: nat) \<and> (of_char (hex_digit d) :: nat) \<le> 126"
  by (auto simp: hex_digit_def)

definition printable :: "char \<Rightarrow> bool" where
  "printable c \<longleftrightarrow> 32 \<le> (of_char c :: nat) \<and> (of_char c :: nat) \<le> 126"

lemma printable_simps [simp]:
  "printable (CHR ''['')" "printable (CHR '']'')" "printable (CHR ''{'')" "printable (CHR ''}'')"
  "printable (CHR '','')" "printable (CHR '':'')" "printable (CHR '' '')" "printable (CHR 0x22)"
  by (simp_all add: printable_def)

lemma json_char_printable: "list_all printable (json_char c)"
  using hex_digit_printable
  by (auto simp: json_char_def Let_def printable_def hex2_def)

lemma json_string_printable: "list_all printable (json_string s)"
  using json_char_printable
  by (induction s) (auto simp: json_string_def json_chars_def printable_def list_all_iff)

section \<open>Numbers\<close>

definition num_stop :: "string \<Rightarrow> bool" where
  "num_stop r \<longleftrightarrow> r = [] \<or> \<not> is_numchar (hd r)"

lemma takeWhile_stop:
  "list_all is_numchar t \<Longrightarrow> num_stop r \<Longrightarrow>
     takeWhile is_numchar (t @ r) = t \<and> dropWhile is_numchar (t @ r) = r"
  by (cases r) (auto simp: num_stop_def list_all_iff takeWhile_append2 dropWhile_append2)

lemma digit_numchar: "is_digit c \<Longrightarrow> is_numchar c \<and> \<not> frac_mark c \<and> c \<noteq> CHR ''-''"
  by (auto simp: is_numchar_def frac_mark_def is_digit_def)

lemma nat_text_hd_digit: "is_digit (hd (nat_text n))"
  using nat_text_digits [of n] by (cases "nat_text n") (auto simp: nat_text_nonempty)

lemma nat_text_json: "json_digits (nat_text n)"
proof (cases "hd (nat_text n) = CHR ''0''")
  case True
  then have "n = 0" by (rule nat_text_no_lead_zero)
  then have "length (nat_text n) = 1" by (subst nat_text.simps) simp
  then show ?thesis by (simp add: json_digits_def nat_text_digits)
next
  case False
  then show ?thesis by (simp add: json_digits_def nat_text_digits)
qed

lemma int_text_chars: "list_all is_numchar (int_text i) \<and> \<not> list_ex frac_mark (int_text i)"
proof -
  have d: "list_all is_numchar (nat_text n) \<and> \<not> list_ex frac_mark (nat_text n)" for n
    using nat_text_digits [of n] digit_numchar by (auto simp: list_all_iff list_ex_iff)
  show ?thesis
    using d by (simp add: int_text_def is_numchar_def frac_mark_def)
qed

lemma int_text_nonempty [simp]: "int_text i \<noteq> []"
  by (simp add: int_text_def)

lemma p_int_text: "p_int (int_text i) = Some (PInt i)"
proof (cases "i < 0")
  case True
  then show ?thesis by (simp add: p_int_def int_text_def nat_text_json)
next
  case False
  moreover have "hd (nat_text (nat i)) \<noteq> CHR ''-''"
    using nat_text_hd_digit digit_numchar by blast
  ultimately show ?thesis by (simp add: p_int_def int_text_def nat_text_json)
qed

lemma p_number_int: "num_stop r \<Longrightarrow> p_number fp (int_text i @ r) = Some (PInt i, r)"
  using int_text_chars [of i]
  by (simp add: p_number_def takeWhile_stop Let_def p_int_text)

lemma p_number_float:
  "float_token (fr q) \<Longrightarrow> fp (fr q) = Some q \<Longrightarrow> num_stop r \<Longrightarrow>
     p_number fp (fr q @ r) = Some (PFloat q, r)"
  by (simp add: p_number_def takeWhile_stop Let_def float_token_def)

lemma numchar_class:
  "is_numchar c \<Longrightarrow> c \<notin> {CHR 0x22, CHR ''['', CHR ''{'', CHR ''n'', CHR ''t'', CHR ''f''}"
  by (auto simp: is_numchar_def is_digit_def)

lemma p_value_number:
  assumes "s \<noteq> []" "is_numchar (hd s)"
  shows "p_value fp (Suc f) s = p_number fp s"
proof -
  obtain c cs where s: "s = c # cs" using assms(1) by (cases s) auto
  have "c \<notin> {CHR 0x22, CHR ''['', CHR ''{'', CHR ''n'', CHR ''t'', CHR ''f''}"
    using assms(2) s numchar_class by simp
  then have "c \<noteq> CHR 0x22" "c \<noteq> CHR ''[''" "c \<noteq> CHR ''{''"
    "CHR ''n'' \<noteq> c" "CHR ''t'' \<noteq> c" "CHR ''f'' \<noteq> c"
    by auto
  then show ?thesis by (simp add: s)
qed

section \<open>Values\<close>

definition json_seps :: "string \<Rightarrow> string \<Rightarrow> bool" where
  "json_seps isep ksep \<longleftrightarrow>
     (isep = '','' \<or> isep = '', '') \<and> (ksep = '':'' \<or> ksep = '': '')"

lemma int_text_hd: "is_numchar (hd (int_text i))"
  using int_text_chars [of i] by (cases "int_text i") auto

lemma numchar_hd: "is_numchar c \<Longrightarrow> \<not> json_ws c \<and> c \<noteq> CHR '']'' \<and> c \<noteq> CHR ''}''"
  by (auto simp: is_numchar_def is_digit_def json_ws_def)

lemma json_text_hd:
  assumes "json_ok fr fp v"
  shows "json_text fr is ks v \<noteq> []"
    and "\<not> json_ws (hd (json_text fr is ks v))"
    and "hd (json_text fr is ks v) \<noteq> CHR '']''"
    and "hd (json_text fr is ks v) \<noteq> CHR ''}''"
proof -
  have fl: "float_token t \<Longrightarrow> is_numchar (hd t) \<and> t \<noteq> []" for t
    by (cases t) (auto simp: float_token_def)
  have "json_text fr is ks v \<noteq> [] \<and> \<not> json_ws (hd (json_text fr is ks v))
      \<and> hd (json_text fr is ks v) \<noteq> CHR '']'' \<and> hd (json_text fr is ks v) \<noteq> CHR ''}''"
  proof (cases v)
    case (PInt i)
    then show ?thesis using int_text_hd [of i] numchar_hd by simp
  next
    case (PFloat q)
    then show ?thesis using assms fl numchar_hd by simp
  qed (simp_all add: json_ws_def json_string_def)
  then show "json_text fr is ks v \<noteq> []" "\<not> json_ws (hd (json_text fr is ks v))"
    "hd (json_text fr is ks v) \<noteq> CHR '']''" "hd (json_text fr is ks v) \<noteq> CHR ''}''"
    by auto
qed

lemma skip_ws_id: "s \<noteq> [] \<Longrightarrow> \<not> json_ws (hd s) \<Longrightarrow> skip_ws s = s"
  by (cases s) (auto simp: skip_ws_def)

lemma skip_ws_text:
  "json_ok fr fp v \<Longrightarrow> skip_ws (json_text fr is ks v @ r) = json_text fr is ks v @ r"
  using json_text_hd(1,2) [of fr fp v "is" ks] by (intro skip_ws_id) auto

lemma skip_ws_space: "skip_ws (CHR '' '' # s) = skip_ws s"
  by (simp add: skip_ws_def json_ws_def)

lemma p_elems_text:
  assumes seps: "json_seps is ks"
    and ok: "\<And>x. x \<in> set xs \<Longrightarrow> json_ok fr fp x"
    and IH: "\<And>x f r. x \<in> set xs \<Longrightarrow> num_stop r \<Longrightarrow> length (json_text fr is ks x) < f \<Longrightarrow>
               p_value fp f (json_text fr is ks x @ r) = Some (x, r)"
    and "xs \<noteq> []" and "Suc (length (join is (map (json_text fr is ks) xs))) < f"
  shows "p_elems fp f (join is (map (json_text fr is ks) xs) @ CHR '']'' # r) = Some (xs, r)"
  using \<open>xs \<noteq> []\<close> assms(2,3,5)
proof (induction xs arbitrary: f rule: list_nonempty_induct)
  case (single x)
  then obtain f' where f: "f = Suc f'" by (cases f) auto
  have "p_value fp f' (json_text fr is ks x @ CHR '']'' # r) = Some (x, CHR '']'' # r)"
    using single f by (intro single) (auto simp: num_stop_def is_numchar_def is_digit_def)
  then show ?case by (simp add: f skip_ws_def json_ws_def)
next
  case (cons x xs)
  then obtain f' where f: "f = Suc f'" by (cases f) auto
  let ?t = "json_text fr is ks" and ?rest = "join is (map (json_text fr is ks) xs) @ CHR '']'' # r"
  have len: "length (?t x) \<ge> 1"
    using json_text_hd(1) [of fr fp x "is" ks] cons.prems(1) by (cases "?t x") auto
  have eq: "join is (map ?t (x # xs)) @ CHR '']'' # r = ?t x @ is @ ?rest"
    using cons.hyps(1) by (simp add: join_Cons)
  have l: "length (join is (map ?t (x # xs))) = length (?t x) + length is + length (join is (map ?t xs))"
    using cons.hyps(1) by (simp add: join_Cons)
  have sep: "\<exists>tl. is @ ?rest = CHR '','' # tl \<and> skip_ws tl = ?rest"
  proof -
    obtain y ys where xs: "xs = y # ys" using cons.hyps(1) by (cases xs) auto
    have "\<exists>r'. ?rest = ?t y @ r'" by (cases ys) (auto simp: xs)
    then have "skip_ws ?rest = ?rest"
      using skip_ws_text [of fr fp y "is" ks] cons.prems(1) xs by auto
    then show ?thesis using seps by (auto simp: json_seps_def skip_ws_space)
  qed
  then obtain tl' where tl': "is @ ?rest = CHR '','' # tl'" "skip_ws tl' = ?rest" by blast
  have "p_value fp f' (?t x @ CHR '','' # tl') = Some (x, CHR '','' # tl')"
    using cons.prems(3) f l by (intro cons.prems(2)) (auto simp: num_stop_def is_numchar_def is_digit_def)
  moreover have "p_elems fp f' ?rest = Some (xs, r)"
    using cons.prems f l len by (intro cons.IH) auto
  ultimately show ?case
    unfolding eq tl'(1) by (simp add: f skip_ws_def [of "CHR '','' # _"] json_ws_def tl'(2) cons_fst_def)
qed

lemma json_string_Cons: "json_string k = CHR 0x22 # json_chars k @ [CHR 0x22]"
  by (simp add: json_string_def)

lemma p_members_text:
  fixes fr :: "rat \<Rightarrow> string" and "is" ks :: string
  defines "mt \<equiv> \<lambda>kv. json_string (fst kv) @ ks @ json_text fr is ks (snd kv)"
  assumes seps: "json_seps is ks"
    and ok: "\<And>kv. kv \<in> set d \<Longrightarrow> json_ok fr fp (snd kv)"
    and IH: "\<And>kv f r. kv \<in> set d \<Longrightarrow> num_stop r \<Longrightarrow> length (json_text fr is ks (snd kv)) < f \<Longrightarrow>
               p_value fp f (json_text fr is ks (snd kv) @ r) = Some (snd kv, r)"
    and "d \<noteq> []" and "Suc (length (join is (map mt d))) < f"
  shows "p_members fp f (join is (map mt d) @ CHR ''}'' # r) = Some (d, r)"
proof -
  have one: "p_members fp (Suc f') (mt kv @ c # r') =
      (if c = CHR ''}'' then Some ([kv], r')
       else if c = CHR '','' then cons_fst kv (p_members fp f' (skip_ws r')) else None)"
    if "kv \<in> set d" "length (mt kv) < Suc f'" "c = CHR ''}'' \<or> c = CHR '',''" for kv f' c r'
  proof -
    obtain k v where kv: "kv = (k, v)" by (cases kv)
    have sk: "skip_ws (ks @ json_text fr is ks v @ c # r') = ks @ json_text fr is ks v @ c # r'"
      using seps by (auto simp: json_seps_def skip_ws_def json_ws_def)
    have "\<exists>r2. ks @ json_text fr is ks v @ c # r' = CHR '':'' # r2
        \<and> skip_ws r2 = json_text fr is ks v @ c # r'"
      using seps skip_ws_text [of fr fp v "is" ks "c # r'"] ok that(1) kv
      by (auto simp: json_seps_def skip_ws_space)
    then obtain r2 where r2: "ks @ json_text fr is ks v @ c # r' = CHR '':'' # r2"
      "skip_ws r2 = json_text fr is ks v @ c # r'" by blast
    have pv: "p_value fp f' (json_text fr is ks v @ c # r') = Some (v, c # r')"
      using that kv IH [of kv "c # r'" f']
      by (auto simp: num_stop_def is_numchar_def is_digit_def mt_def json_string_def)
    have "skip_ws (c # r') = c # r'"
      using that(3) by (auto simp: skip_ws_def json_ws_def)
    then show ?thesis
      using sk pv by (simp add: mt_def kv json_string_Cons p_string_chars r2)
  qed
  show ?thesis
    using \<open>d \<noteq> []\<close> one ok assms(6)
  proof (induction d arbitrary: f rule: list_nonempty_induct)
    case (single kv)
    then obtain f' where f: "f = Suc f'" by (cases f) auto
    with single show ?case by simp
  next
    case (cons kv d)
    then obtain f' where f: "f = Suc f'" by (cases f) auto
    let ?rest = "join is (map mt d) @ CHR ''}'' # r"
    have eq: "join is (map mt (kv # d)) @ CHR ''}'' # r = mt kv @ is @ ?rest"
      and l: "length (join is (map mt (kv # d))) = length (mt kv) + length is + length (join is (map mt d))"
      using cons.hyps(1) by (simp_all add: join_Cons)
    have "\<exists>s. ?rest = CHR 0x22 # s"
    proof -
      obtain y ys where "d = y # ys" using cons.hyps(1) by (cases d) auto
      then show ?thesis by (cases ys) (auto simp: mt_def json_string_Cons)
    qed
    then have "skip_ws ?rest = ?rest" by (auto simp: skip_ws_def json_ws_def)
    then obtain tl' where tl': "is @ ?rest = CHR '','' # tl'" "skip_ws tl' = ?rest"
      using seps by (auto simp: json_seps_def skip_ws_space)
    have "p_members fp f' ?rest = Some (d, r)"
      using cons.prems f l by (intro cons.IH) (auto simp: mt_def json_string_Cons)
    then show ?case
      unfolding eq tl'(1) using cons.prems(1) [of kv f' "CHR '',''" tl'] cons.prems(3) f l
      by (simp add: tl'(2) cons_fst_def)
  qed
qed

theorem p_value_text:
  assumes "json_ok fr fp v" "json_seps is ks" "num_stop r" "length (json_text fr is ks v) < f"
  shows "p_value fp f (json_text fr is ks v @ r) = Some (v, r)"
  using assms
proof (induction v arbitrary: f r)
  case (PInt i)
  then obtain f' where "f = Suc f'" by (cases f) auto
  with PInt show ?case using int_text_hd [of i] by (simp add: p_value_number p_number_int del: p_value.simps)
next
  case (PFloat q)
  then obtain f' where "f = Suc f'" by (cases f) auto
  moreover have "is_numchar (hd (fr q)) \<and> fr q \<noteq> []"
    using PFloat by (cases "fr q") (auto simp: float_token_def)
  ultimately show ?case using PFloat by (simp add: p_value_number p_number_float del: p_value.simps)
next
  case (PStr s)
  then obtain f' where "f = Suc f'" by (cases f) auto
  then show ?case by (simp add: json_string_Cons p_string_chars)
next
  case (PList xs)
  then obtain f' where f: "f = Suc f'" by (cases f) auto
  show ?case
  proof (cases "xs = []")
    case True
    then show ?thesis by (simp add: f skip_ws_def json_ws_def)
  next
    case False
    let ?b = "join is (map (json_text fr is ks) xs) @ CHR '']'' # r"
    obtain x ys where xs: "xs = x # ys" using False by (cases xs) auto
    have "\<exists>r'. ?b = json_text fr is ks x @ r'" by (cases ys) (auto simp: xs)
    then obtain r' where r': "?b = json_text fr is ks x @ r'" by blast
    have okx: "json_ok fr fp x" using PList.prems xs by simp
    have "skip_ws ?b = ?b" "?b \<noteq> []" "hd ?b \<noteq> CHR '']''"
      unfolding r' using skip_ws_text [OF okx] json_text_hd [OF okx, of "is" ks] by auto
    moreover have "p_elems fp f' ?b = Some (xs, r)"
      using PList False f by (intro p_elems_text) (auto simp: list_all_iff)
    ultimately show ?thesis by (cases ?b) (auto simp: f)
  qed
next
  case (PDict d)
  then obtain f' where f: "f = Suc f'" by (cases f) auto
  show ?case
  proof (cases "d = []")
    case True
    then show ?thesis by (simp add: f skip_ws_def json_ws_def)
  next
    case False
    let ?mt = "\<lambda>kv. json_string (fst kv) @ ks @ json_text fr is ks (snd kv)"
    let ?b = "join is (map ?mt d) @ CHR ''}'' # r"
    obtain x ys where d: "d = x # ys" using False by (cases d) auto
    have "\<exists>r'. ?b = CHR 0x22 # r'" by (cases ys) (auto simp: d json_string_Cons)
    then have "skip_ws ?b = ?b" "?b \<noteq> []" "hd ?b \<noteq> CHR ''}''"
      by (auto simp: skip_ws_def json_ws_def)
    moreover have "p_members fp f' ?b = Some (d, r)"
    proof (rule p_members_text)
      fix kv f r
      assume "kv \<in> set d" "num_stop r" "length (json_text fr is ks (snd kv)) < f"
      then show "p_value fp f (json_text fr is ks (snd kv) @ r) = Some (snd kv, r)"
        using PDict by (intro PDict.IH [of kv]) (auto simp: list_all_iff snds.simps)
    qed (use PDict False f in \<open>auto simp: list_all_iff\<close>)
    ultimately show ?thesis
      using PDict.prems(1) by (cases ?b) (auto simp: f alist_merge_empty)
  qed
qed (case_tac f; auto)+

section \<open>Texts\<close>

lemma json_loads_text:
  assumes "json_ok fr fp v" "json_seps is ks"
  shows "json_loads fp (json_text fr is ks v) = Inr v"
proof -
  let ?t = "json_text fr is ks v"
  have "skip_ws ?t = ?t" using skip_ws_text [OF assms(1), of "is" ks "[]"] by simp
  moreover have "p_value fp (Suc (length ?t)) (?t @ []) = Some (v, [])"
    using assms by (intro p_value_text) (auto simp: num_stop_def)
  ultimately show ?thesis by (simp add: json_loads_def skip_ws_def del: p_value.simps)
qed

theorem json_loads_dumps: "json_ok fr fp v \<Longrightarrow> json_loads fp (json_dumps fr v) = Inr v"
  unfolding json_dumps_def by (rule json_loads_text) (simp_all add: json_seps_def)

text \<open>A line break after the value does not matter: \<open>json.loads(line)\<close> on an unstripped line.\<close>

lemma json_loads_dumps_nl:
  assumes "json_ok fr fp v"
  shows "json_loads fp (json_dumps fr v @ [CHR 0x0A]) = Inr v"
proof -
  let ?t = "json_dumps fr v"
  have "skip_ws (?t @ [CHR 0x0A]) = ?t @ [CHR 0x0A]"
    unfolding json_dumps_def by (rule skip_ws_text [OF assms])
  moreover have "p_value fp (Suc (length (?t @ [CHR 0x0A]))) (?t @ [CHR 0x0A]) = Some (v, [CHR 0x0A])"
    unfolding json_dumps_def using assms
    by (intro p_value_text) (auto simp: num_stop_def json_seps_def is_numchar_def is_digit_def)
  ultimately show ?thesis by (simp add: json_loads_def skip_ws_def json_ws_def del: p_value.simps)
qed

lemma join_all:
  "list_all P sep \<Longrightarrow> (\<And>x. x \<in> set xs \<Longrightarrow> list_all P x) \<Longrightarrow> list_all P (join sep xs)"
  by (induction sep xs rule: join.induct) auto

lemma json_text_printable:
  "json_ok fr fp v \<Longrightarrow> json_seps is ks \<Longrightarrow> list_all printable (json_text fr is ks v)"
proof (induction v)
  case (PInt i)
  have "list_all printable t" if "list_all is_numchar t" for t
    using that by (auto simp: list_all_iff is_numchar_def is_digit_def printable_def)
  with int_text_chars [of i] show ?case by simp
next
  case (PFloat q)
  have "list_all printable t" if "list_all is_numchar t" for t
    using that by (auto simp: list_all_iff is_numchar_def is_digit_def printable_def)
  with PFloat show ?case by (simp add: float_token_def)
next
  case (PList xs)
  have "list_all printable (join is (map (json_text fr is ks) xs))"
    using PList by (intro join_all) (auto simp: json_seps_def list_all_iff)
  then show ?case by simp
next
  case (PDict d)
  have "list_all printable
      (join is (map (\<lambda>kv. json_string (fst kv) @ ks @ json_text fr is ks (snd kv)) d))"
  proof (rule join_all)
    fix x
    assume "x \<in> set (map (\<lambda>kv. json_string (fst kv) @ ks @ json_text fr is ks (snd kv)) d)"
    then obtain kv where kv: "kv \<in> set d" "x = json_string (fst kv) @ ks @ json_text fr is ks (snd kv)"
      by auto
    then have "list_all printable (json_text fr is ks (snd kv))"
      using PDict by (intro PDict.IH [of kv]) (auto simp: list_all_iff snds.simps)
    then show "list_all printable x"
      using kv json_string_printable PDict.prems(2) by (auto simp: json_seps_def)
  qed (use PDict.prems in \<open>auto simp: json_seps_def\<close>)
  then show ?case by simp
qed (simp_all add: json_string_printable, simp_all add: printable_def)

lemma json_text_last:
  assumes "json_ok fr fp v"
  shows "\<not> is_space (last (json_text fr is ks v))"
proof -
  have nc: "is_numchar c \<Longrightarrow> \<not> is_space c" for c
    by (auto simp: is_numchar_def is_digit_def is_space_def Let_def)
  have tok: "t \<noteq> [] \<Longrightarrow> list_all is_numchar t \<Longrightarrow> \<not> is_space (last t)" for t
    using nc by (cases t rule: rev_cases) auto
  show ?thesis
    using assms tok [OF int_text_nonempty] int_text_chars tok
    by (cases v) (auto simp: is_space_def json_string_def float_token_def)
qed

lemma json_text_first_not_space:
  assumes "json_ok fr fp v"
  shows "\<not> is_space (hd (json_text fr is ks v))"
proof -
  have nc: "is_numchar c \<Longrightarrow> \<not> is_space c" for c
    by (auto simp: is_numchar_def is_digit_def is_space_def Let_def)
  have tok: "t \<noteq> [] \<Longrightarrow> list_all is_numchar t \<Longrightarrow> \<not> is_space (hd t)" for t
    using nc by (cases t) auto
  show ?thesis
    using assms tok [OF int_text_nonempty] int_text_chars tok
    by (cases v) (auto simp: is_space_def json_string_def float_token_def)
qed

section \<open>Canonical texts\<close>

lemma json_ok_sort_keys: "json_ok fr fp v \<Longrightarrow> json_ok fr fp (sort_keys v)"
proof (induction v)
  case (PDict d)
  let ?m = "map (\<lambda>kv. (fst kv, sort_keys (snd kv))) d"
  have "distinct (map fst ?m)" using PDict by (simp add: o_def)
  then have "distinct (map fst (sort_key fst ?m))" by (simp only: distinct_map distinct_sort set_sort)
  moreover have "json_ok fr fp (snd x)" if "x \<in> set (sort_key fst ?m)" for x
    using that PDict by (auto simp: list_all_iff snds.simps)
  ultimately show ?case by (simp add: list_all_iff)
qed (auto simp: list_all_iff)

lemma json_loads_canonical:
  "json_ok fr fp v \<Longrightarrow> json_loads fp (json_canonical fr v) = Inr (sort_keys v)"
  unfolding json_canonical_def
  by (rule json_loads_text) (simp_all add: json_ok_sort_keys json_seps_def)

text \<open>Two entries with the same canonical text are the same entry up to the order of keys.\<close>

lemma json_canonical_inj:
  assumes "json_ok fr fp v" "json_ok fr fp w" "json_canonical fr v = json_canonical fr w"
  shows "sort_keys v = sort_keys w"
  using json_loads_canonical [OF assms(1)] json_loads_canonical [OF assms(2)] assms(3) by simp

lemma map_of_sort_key:
  assumes "distinct (map fst d)"
  shows "map_of (sort_key fst d) = map_of d"
proof -
  have "distinct (map fst (sort_key fst d))" using assms by (simp add: distinct_map)
  then show ?thesis using assms by (simp add: map_of_inject_set)
qed

section \<open>Files of one record per line\<close>

locale line_codec =
  fixes dumps :: "pyval \<Rightarrow> string"
    and loads :: "string \<Rightarrow> pyval result"
    and ok :: "pyval \<Rightarrow> bool"
  assumes loads_dumps: "ok v \<Longrightarrow> loads (dumps v) = Inr v"
    and dumps_one_line: "ok v \<Longrightarrow> CHR 0x0A \<notin> set (dumps v) \<and> CHR 0x0D \<notin> set (dumps v)"
    and dumps_solid: "ok v \<Longrightarrow> dumps v \<noteq> [] \<and> \<not> is_space (hd (dumps v)) \<and> \<not> is_space (last (dumps v))"
begin

lemma strip_dumps: "ok v \<Longrightarrow> strip (dumps v) = dumps v"
  using dumps_solid by (simp add: strip_id)

lemma univ_nl_record: "ok v \<Longrightarrow> univ_nl (dumps v @ CHR 0x0A # s) = dumps v @ CHR 0x0A # univ_nl s"
  using dumps_one_line [of v] by (simp add: univ_nl_append univ_nl_Cons)

lemma text_lines_record:
  "ok v \<Longrightarrow> text_lines (dumps v @ CHR 0x0A # s) = dumps v # text_lines s"
  using dumps_one_line [of v] by (simp add: text_lines_def univ_nl_record split_acc_line)

lemma text_lines_records:
  "list_all ok vs \<Longrightarrow>
     text_lines (concat (map (\<lambda>v. dumps v @ [CHR 0x0A]) vs) @ s) = map dumps vs @ text_lines s"
  by (induction vs) (simp_all add: text_lines_record)

lemma loads_records:
  "list_all ok vs \<Longrightarrow>
     map loads (text_lines (concat (map (\<lambda>v. dumps v @ [CHR 0x0A]) vs))) = map Inr vs"
  using text_lines_records [of vs "[]"] loads_dumps by (simp add: list_all_iff)

lemma dumps_inj: "ok v \<Longrightarrow> ok w \<Longrightarrow> dumps v = dumps w \<Longrightarrow> v = w"
  using loads_dumps by (metis sum.inject(2))

end

interpretation jl: line_codec "json_dumps fr" "json_loads fp" "json_ok fr fp"
  for fr :: "rat \<Rightarrow> string" and fp :: "string \<Rightarrow> rat option"
proof
  fix v
  assume ok: "json_ok fr fp v"
  then show "json_loads fp (json_dumps fr v) = Inr v" by (rule json_loads_dumps)
  have "list_all printable (json_dumps fr v)"
    unfolding json_dumps_def using ok by (rule json_text_printable) (simp add: json_seps_def)
  then show "CHR 0x0A \<notin> set (json_dumps fr v) \<and> CHR 0x0D \<notin> set (json_dumps fr v)"
    by (auto simp: list_all_iff printable_def)
  show "json_dumps fr v \<noteq> [] \<and> \<not> is_space (hd (json_dumps fr v)) \<and> \<not> is_space (last (json_dumps fr v))"
    unfolding json_dumps_def
    using json_text_hd(1) [OF ok] json_text_first_not_space [OF ok] json_text_last [OF ok] by blast
qed

end
