(* ===== verification/Files.thy ===== *)
theory Files
  imports JsonLaws
begin

text \<open>
  What reading a file at a path gives, the two ways the configuration files are loaded, and the
  write-to-a-temporary-file-and-rename pattern the cooldown tracker and the approval queue use to
  persist their state. The pattern is an interface: \<open>atomic_save\<close> says what a state file may look
  like when the process dies in the middle of a save.
\<close>

datatype file_read = Missing | Unreadable string | Contents string

text \<open>The text of the \<open>FileNotFoundError\<close> that opening a missing path raises.\<close>

definition missing_text :: "string \<Rightarrow> string" where
  "missing_text p = ''[Errno 2] No such file or directory: '' @ squoted p"

text \<open>
  \<open>yaml.safe_load\<close> is third-party code: a function from text to a value, \<open>None\<close> for a
  \<open>YAMLError\<close>. This is the loader of \<open>RateLimiter\<close> and \<open>AuditShipper\<close>: every failure, and an
  empty file, is the empty configuration.
\<close>

definition load_yaml_or_empty :: "(string \<Rightarrow> pyval option) \<Rightarrow> file_read \<Rightarrow> pyval" where
  "load_yaml_or_empty yaml fr =
     (case fr of
        Missing \<Rightarrow> PDict []
      | Unreadable _ \<Rightarrow> PDict []
      | Contents s \<Rightarrow> (case yaml s of None \<Rightarrow> PDict [] | Some v \<Rightarrow> py_or v (PDict [])))"

lemma load_yaml_or_empty_cases:
  "load_yaml_or_empty yaml fr = PDict [] \<or>
     (\<exists>s v. fr = Contents s \<and> yaml s = Some v \<and> py_truthy v \<and> load_yaml_or_empty yaml fr = v)"
  by (auto simp: load_yaml_or_empty_def py_or_def split: file_read.split option.split)

section \<open>Saving by rename\<close>

type_synonym files = "string \<rightharpoonup> string"

text \<open>
  The file-system calls of a save, in order: \<open>open(tmp, "w")\<close> truncates, every \<open>write\<close> appends
  a piece, \<open>os.replace\<close> moves the temporary file over the target in one step.
\<close>

datatype fsop = OpenTrunc string | AppendTo string string | Replace string string

fun fs_apply :: "fsop \<Rightarrow> files \<Rightarrow> files" where
  "fs_apply (OpenTrunc p) fs = fs(p \<mapsto> [])"
| "fs_apply (AppendTo p s) fs = fs(p \<mapsto> (case fs p of None \<Rightarrow> s | Some t \<Rightarrow> t @ s))"
| "fs_apply (Replace p q) fs =
     (case fs p of None \<Rightarrow> fs | Some t \<Rightarrow> fs(q \<mapsto> t, p := None))"

definition fs_run :: "fsop list \<Rightarrow> files \<Rightarrow> files" where
  "fs_run ops fs = fold fs_apply ops fs"

definition save_ops :: "string \<Rightarrow> string list \<Rightarrow> fsop list" where
  "save_ops target pieces =
     OpenTrunc (target @ ''.tmp'') # map (AppendTo (target @ ''.tmp'')) pieces
       @ [Replace (target @ ''.tmp'') target]"

lemma fs_run_append: "fs_run (xs @ ys) fs = fs_run ys (fs_run xs fs)"
  by (simp add: fs_run_def)

lemma fs_run_appends:
  "fs p = Some t \<Longrightarrow> fs_run (map (AppendTo p) ss) fs = fs(p \<mapsto> t @ concat ss)"
proof (induction ss arbitrary: fs t)
  case Nil
  then show ?case by (simp add: fs_run_def map_upd_triv)
next
  case (Cons s ss)
  then show ?case by (auto simp: fs_run_def)
qed

lemma tmp_other: "target @ ''.tmp'' \<noteq> target"
  by simp

lemma save_complete: "fs_run (save_ops target pieces) fs target = Some (concat pieces)"
  by (simp add: save_ops_def fs_run_append fs_run_appends fs_run_def [of "[_]"]
      fs_run_def [of "_ # _"] flip: fs_run_def)

lemma save_crash:
  assumes "n \<le> length (save_ops target pieces)"
  shows "fs_run (take n (save_ops target pieces)) fs target \<in> {fs target, Some (concat pieces)}"
proof (cases "n = length (save_ops target pieces)")
  case True
  then show ?thesis by (simp add: save_complete)
next
  case False
  let ?pre = "OpenTrunc (target @ ''.tmp'') # map (AppendTo (target @ ''.tmp'')) pieces"
  have ops: "save_ops target pieces = ?pre @ [Replace (target @ ''.tmp'') target]"
    by (simp add: save_ops_def)
  have "n \<le> length ?pre" using False assms by (simp add: ops)
  then have "take n (save_ops target pieces) = take n ?pre"
    unfolding ops by (simp only: take_append) (cases n; simp)
  moreover have "fs_run ops fs target = fs target"
    if "\<forall>x\<in>set ops. \<exists>s. x = OpenTrunc (target @ ''.tmp'') \<or> x = AppendTo (target @ ''.tmp'') s" for ops
    using that by (induction ops arbitrary: fs) (auto simp: fs_run_def)
  moreover have "\<forall>x\<in>set (take n ?pre). \<exists>s. x = OpenTrunc (target @ ''.tmp'') \<or> x = AppendTo (target @ ''.tmp'') s"
    using set_take_subset [of n ?pre] by auto
  ultimately show ?thesis by simp
qed

lemma save_keeps_others:
  "p \<noteq> target \<Longrightarrow> p \<noteq> target @ ''.tmp'' \<Longrightarrow> fs_run (save_ops target pieces) fs p = fs p"
proof -
  assume p: "p \<noteq> target" "p \<noteq> target @ ''.tmp''"
  have "fs_run ops fs p = fs p"
    if "\<forall>x\<in>set ops. \<exists>s. x \<in> {OpenTrunc (target @ ''.tmp''), AppendTo (target @ ''.tmp'') s,
          Replace (target @ ''.tmp'') target}" for ops
    using that p by (induction ops arbitrary: fs) (auto simp: fs_run_def split: option.splits)
  then show ?thesis by (auto simp: save_ops_def)
qed

end
