(* ===== verification/RateLimit.thy ===== *)
theory RateLimit
  imports Files
begin

text \<open>
  \<open>src/ratelimit.py\<close>: the in-memory sliding-window limiter of \<open>/webhook\<close>. The state is the parsed
  configuration and, per key, the accepted time stamps still held, oldest first. \<open>rl_check\<close> is
  \<open>RateLimiter.check\<close>; the reading of \<open>time.time()\<close> is its argument \<open>now\<close>. The locale
  \<open>window_limiter\<close> states what the callers rely on.
\<close>

record rate_limiter =
  rl_config :: pyval
  rl_hits :: "string \<rightharpoonup> rat list"

definition DEFAULT_REQUESTS_PER_MINUTE :: int where
  "DEFAULT_REQUESTS_PER_MINUTE = 60"

definition WINDOW_SECONDS :: rat where
  "WINDOW_SECONDS = 60"

definition rl_load_config :: "(string \<Rightarrow> pyval option) \<Rightarrow> file_read \<Rightarrow> pyval" where
  "rl_load_config yaml fr = load_yaml_or_empty yaml fr"

definition rl_init :: "(string \<Rightarrow> pyval option) \<Rightarrow> file_read \<Rightarrow> rate_limiter" where
  "rl_init yaml fr = \<lparr>rl_config = rl_load_config yaml fr, rl_hits = Map.empty\<rparr>"

definition limit_for_role :: "rate_limiter \<Rightarrow> pyval \<Rightarrow> pyval result" where
  "limit_for_role rl role =
     rbind (py_get (rl_config rl) ''per_role'') (\<lambda>v.
     let per_role = py_or v (PDict []) in
     rbind (if py_truthy role then py_in_val role per_role else Inr False) (\<lambda>listed.
     if listed then
       rbind (case role of
                PStr s \<Rightarrow> py_item per_role s
              | _ \<Rightarrow> Inl (TypeError ''role is not a key''))
         (\<lambda>entry. py_get_or entry ''requests_per_minute'' (PInt DEFAULT_REQUESTS_PER_MINUTE))
     else
       rbind (py_get (rl_config rl) ''default'') (\<lambda>d.
       py_get_or (py_or d (PDict [])) ''requests_per_minute'' (PInt DEFAULT_REQUESTS_PER_MINUTE))))"

definition limit_for_action :: "rate_limiter \<Rightarrow> string \<Rightarrow> pyval result" where
  "limit_for_action rl event_type =
     rbind (py_get (rl_config rl) ''per_action'') (\<lambda>v.
     rbind (py_get (py_or v (PDict [])) event_type) (\<lambda>entry.
     if py_truthy entry then py_get entry ''requests_per_minute'' else Inr PNone))"

definition rl_stored :: "rate_limiter \<Rightarrow> string \<Rightarrow> rat list" where
  "rl_stored rl key = (case rl_hits rl key of None \<Rightarrow> [] | Some hits \<Rightarrow> hits)"

text \<open>\<open>Inr None\<close>: allowed and recorded; \<open>Inr (Some r)\<close>: over the limit, retry in \<open>r\<close> seconds.\<close>

definition rl_check ::
  "string \<Rightarrow> pyval \<Rightarrow> rat \<Rightarrow> rat \<Rightarrow> rate_limiter \<Rightarrow> rat option result \<times> rate_limiter" where
  "rl_check key limit window now rl =
     (if \<not> py_truthy limit then (Inr None, rl)
      else
        case num_or_raise ''<='' limit of
          Inl e \<Rightarrow> (Inl e, rl)
        | Inr l \<Rightarrow>
            if l \<le> 0 then (Inr None, rl)
            else
              let cutoff = now - window;
                  hits = dropWhile (\<lambda>h. h \<le> cutoff) (rl_stored rl key)
              in
                if l \<le> of_nat (length hits)
                then (Inr (Some (max (hd hits + window - now) (1 / 10))),
                      rl\<lparr>rl_hits := (rl_hits rl)(key \<mapsto> hits)\<rparr>)
                else (Inr None, rl\<lparr>rl_hits := (rl_hits rl)(key \<mapsto> hits @ [now])\<rparr>))"

section \<open>The interface\<close>

text \<open>
  What a caller may assume of a limiter with a positive integer limit: the accepted time stamps of
  the window decide, and a refused call leaves them as they were.
\<close>

locale window_limiter =
  fixes check :: "'k \<Rightarrow> int \<Rightarrow> rat \<Rightarrow> 's \<Rightarrow> rat option \<times> 's"
    and held :: "'s \<Rightarrow> 'k \<Rightarrow> rat list"
    and window :: rat
  assumes window_pos: "0 < window"
    and check_held:
      "0 < n \<Longrightarrow> sorted (held s k) \<Longrightarrow> check k n now s = (out, s') \<Longrightarrow>
         held s' k = filter (\<lambda>h. now - window < h) (held s k) @ (if out = None then [now] else [])"
    and check_allows:
      "0 < n \<Longrightarrow> sorted (held s k) \<Longrightarrow> check k n now s = (out, s') \<Longrightarrow>
         out = None \<longleftrightarrow> length (filter (\<lambda>h. now - window < h) (held s k)) < nat n"
    and check_other: "check k n now s = (out, s') \<Longrightarrow> k' \<noteq> k \<Longrightarrow> held s' k' = held s k'"
begin

definition run_step :: "'k \<times> int \<times> rat \<Rightarrow> ('k \<times> rat) list \<times> 's \<Rightarrow> ('k \<times> rat) list \<times> 's" where
  "run_step e st =
     (case (e, st) of ((k, n, t), (acc, s)) \<Rightarrow>
        (case check k n t s of (out, s') \<Rightarrow> (if out = None then acc @ [(k, t)] else acc, s')))"

definition times_of :: "'k \<Rightarrow> ('k \<times> rat) list \<Rightarrow> rat list" where
  "times_of k acc = map snd (filter (\<lambda>(k', t). k' = k) acc)"

definition in_window :: "rat \<Rightarrow> rat list \<Rightarrow> rat list" where
  "in_window t hist = filter (\<lambda>a. t - window < a \<and> a \<le> t) hist"

text \<open>What a run keeps: the held stamps are the accepted ones after some cutoff in the past.\<close>

definition tracks :: "'k \<Rightarrow> int \<Rightarrow> rat \<Rightarrow> ('k \<times> rat) list \<times> 's \<Rightarrow> bool" where
  "tracks k n now st \<longleftrightarrow>
     (case st of (acc, s) \<Rightarrow>
        sorted (times_of k acc) \<and> (\<forall>a \<in> set (times_of k acc). a \<le> now)
        \<and> (\<exists>c. c \<le> now - window \<and> held s k = filter (\<lambda>a. c < a) (times_of k acc))
        \<and> (\<forall>t. int (length (in_window t (times_of k acc))) \<le> n))"

lemma times_of_snoc:
  "times_of k (acc @ [(k', t)]) = times_of k acc @ (if k' = k then [t] else [])"
  by (simp add: times_of_def)

lemma tracks_later:
  assumes "tracks k n now st" "now \<le> now'"
  shows "tracks k n now' st"
proof -
  obtain acc s where st: "st = (acc, s)" by (cases st)
  obtain c where "c \<le> now - window" "held s k = filter (\<lambda>a. c < a) (times_of k acc)"
    using assms(1) by (auto simp: tracks_def st)
  then have "c \<le> now' - window" using assms(2) by simp
  then show ?thesis
    using assms \<open>held s k = _\<close> by (fastforce simp: tracks_def st)
qed

lemma in_window_snoc:
  assumes "\<forall>a \<in> set hist. a \<le> now" "length (filter (\<lambda>h. now - window < h) hist) < nat n"
    and "\<forall>t. int (length (in_window t hist)) \<le> n"
  shows "int (length (in_window t (hist @ [now]))) \<le> n"
proof (cases "t < now")
  case True
  then show ?thesis using assms(3) by (simp add: in_window_def)
next
  case False
  have "filter (\<lambda>a. t - window < a \<and> a \<le> t) hist
      = filter (\<lambda>a. t - window < a) (filter (\<lambda>a. now - window < a) hist)"
    using False assms(1) by (auto intro!: filter_cong)
  then have "length (in_window t hist) \<le> length (filter (\<lambda>h. now - window < h) hist)"
    by (simp add: in_window_def del: filter_filter)
  then show ?thesis using assms(2) by (auto simp: in_window_def)
qed

lemma tracks_step:
  assumes tr: "tracks k n t (acc, s)" and n: "0 < n"
    and "k' = k \<Longrightarrow> m = n"
  shows "tracks k n t (run_step (k', m, t) (acc, s))"
proof -
  obtain out s' where ch: "check k' m t s = (out, s')" by (cases "check k' m t s")
  have rs: "run_step (k', m, t) (acc, s) = (if out = None then acc @ [(k', t)] else acc, s')"
    by (simp add: run_step_def ch)
  let ?hist = "times_of k acc"
  from tr obtain c where c: "c \<le> t - window" "held s k = filter (\<lambda>a. c < a) ?hist"
    and hist: "sorted ?hist" "\<forall>a \<in> set ?hist. a \<le> t" "\<forall>u. int (length (in_window u ?hist)) \<le> n"
    by (auto simp: tracks_def)
  have kept: "filter (\<lambda>h. t - window < h) (held s k) = filter (\<lambda>h. t - window < h) ?hist"
    using c by (auto intro!: filter_cong)
  show ?thesis
  proof (cases "k' = k")
    case False
    then have "held s' k = held s k" using check_other [OF ch, of k] by simp
    then show ?thesis
      unfolding rs using tr False by (auto simp: tracks_def times_of_snoc)
  next
    case True
    have so: "sorted (held s k)" using c(2) hist(1) by (simp add: sorted_wrt_filter)
    have ch': "check k n t s = (out, s')" using ch True assms(3) by simp
    have held': "held s' k = filter (\<lambda>h. t - window < h) ?hist @ (if out = None then [t] else [])"
      using check_held [OF n so ch'] kept by simp
    show ?thesis
    proof (cases "out = None")
      case out: True
      then have "length (filter (\<lambda>h. t - window < h) ?hist) < nat n"
        using check_allows [OF n so ch'] kept by simp
      then have "\<forall>u. int (length (in_window u (?hist @ [t]))) \<le> n"
        using in_window_snoc hist by blast
      then show ?thesis
        unfolding rs using True out held' hist window_pos
        by (auto simp: tracks_def times_of_snoc sorted_append
            intro!: exI [of _ "t - window"])
    next
      case out: False
      then show ?thesis
        unfolding rs using True held' hist
        by (auto simp: tracks_def intro!: exI [of _ "t - window"])
    qed
  qed
qed

lemma tracks_run:
  assumes "tracks k n now st" "0 < n" "sorted (now # map (\<lambda>(k, n, t). t) es)"
    and "\<forall>(k', m, t) \<in> set es. k' = k \<longrightarrow> m = n"
  shows "\<exists>now'. tracks k n now' (fold run_step es st)"
  using assms
proof (induction es arbitrary: now st)
  case Nil
  then show ?case by auto
next
  case (Cons e es)
  obtain k' m t where e: "e = (k', m, t)" by (cases e)
  obtain acc s where st: "st = (acc, s)" by (cases st)
  have "tracks k n t (acc, s)"
    using Cons.prems(1,3) st e by (auto intro: tracks_later)
  then have "tracks k n t (run_step e st)"
    unfolding st e using Cons.prems(2,4) e by (intro tracks_step) auto
  then show ?case using Cons.prems e by (auto intro!: Cons.IH [of t])
qed

theorem run_window_bound:
  assumes "held s k = []" "0 < n" "sorted (map (\<lambda>(k, n, t). t) es)"
    and "\<forall>(k', m, t) \<in> set es. k' = k \<longrightarrow> m = n"
  shows "int (length (in_window u (times_of k (fst (fold run_step es ([], s)))))) \<le> n"
proof (cases es)
  case Nil
  then show ?thesis using assms(2) by (simp add: times_of_def in_window_def)
next
  case (Cons e es')
  obtain k' m t where e: "e = (k', m, t)" by (cases e)
  have "tracks k n t ([], s)"
    using assms(1,2) by (auto simp: tracks_def times_of_def in_window_def)
  then obtain now' where "tracks k n now' (fold run_step es ([], s))"
    using tracks_run [of k n t "([], s)" es] assms Cons e by auto
  then show ?thesis by (auto simp: tracks_def split: prod.splits)
qed

end

section \<open>The implementation\<close>

definition rl_check_int :: "string \<Rightarrow> int \<Rightarrow> rat \<Rightarrow> rate_limiter \<Rightarrow> rat option \<times> rate_limiter" where
  "rl_check_int key n now rl =
     (case rl_check key (PInt n) WINDOW_SECONDS now rl of
        (Inr out, rl') \<Rightarrow> (out, rl')
      | (Inl e, rl') \<Rightarrow> (Some 0, rl'))"

lemma rl_check_PInt:
  assumes "0 < n"
  shows "rl_check key (PInt n) window now rl =
    (let hits = dropWhile (\<lambda>h. h \<le> now - window) (rl_stored rl key) in
       if nat n \<le> length hits
       then (Inr (Some (max (hd hits + window - now) (1 / 10))),
             rl\<lparr>rl_hits := (rl_hits rl)(key \<mapsto> hits)\<rparr>)
       else (Inr None, rl\<lparr>rl_hits := (rl_hits rl)(key \<mapsto> hits @ [now])\<rparr>))"
proof -
  have "rat_of_int n \<le> of_nat m \<longleftrightarrow> nat n \<le> m" for m
    by (metis nat_le_iff of_int_le_iff of_int_of_nat_eq)
  then show ?thesis using assms by (simp add: rl_check_def num_or_raise_def Let_def)
qed

lemma rl_stored_upd [simp]:
  "rl_stored (rl\<lparr>rl_hits := (rl_hits rl)(key \<mapsto> hits)\<rparr>) k = (if k = key then hits else rl_stored rl k)"
  by (simp add: rl_stored_def)

lemma rl_check_other:
  "rl_check key limit window now rl = (out, rl') \<Longrightarrow> k \<noteq> key \<Longrightarrow> rl_stored rl' k = rl_stored rl k"
  by (auto simp: rl_check_def Let_def split: if_splits sum.splits)

interpretation wl: window_limiter rl_check_int rl_stored WINDOW_SECONDS
proof
  show "0 < WINDOW_SECONDS" by (simp add: WINDOW_SECONDS_def)
next
  fix n s k now out s'
  assume "0 < n" "sorted (rl_stored s k)" "rl_check_int k n now s = (out, s')"
  then show "rl_stored s' k
      = filter (\<lambda>h. now - WINDOW_SECONDS < h) (rl_stored s k) @ (if out = None then [now] else [])"
    "(out = None) = (length (filter (\<lambda>h. now - WINDOW_SECONDS < h) (rl_stored s k)) < nat n)"
    by (auto simp: rl_check_int_def rl_check_PInt Let_def sorted_dropWhile_filter split: if_splits)
next
  fix k n now s out s' k'
  assume "rl_check_int k n now s = (out, s')" "k' \<noteq> k"
  then show "rl_stored s' k' = rl_stored s k'"
    by (auto simp: rl_check_int_def split: prod.splits sum.splits dest: rl_check_other)
qed

text \<open>A run of \<open>check\<close> calls, collecting the calls that were allowed.\<close>

fun rl_run_step ::
  "string \<times> int \<times> rat \<Rightarrow> (string \<times> rat) list \<times> rate_limiter \<Rightarrow> (string \<times> rat) list \<times> rate_limiter"
where
  "rl_run_step (k, n, t) (acc, rl) =
     (case rl_check k (PInt n) WINDOW_SECONDS t rl of
        (Inr None, rl') \<Rightarrow> (acc @ [(k, t)], rl')
      | (_, rl') \<Rightarrow> (acc, rl'))"

definition rl_run ::
  "(string \<times> int \<times> rat) list \<Rightarrow> rate_limiter \<Rightarrow> (string \<times> rat) list" where
  "rl_run es rl = fst (fold rl_run_step es ([], rl))"

lemma rl_run_step_wl: "rl_run_step e st = wl.run_step e st"
  by (cases e; cases st)
    (auto simp: wl.run_step_def rl_check_int_def split: prod.splits sum.splits option.splits)

lemma window_count:
  "length (wl.in_window u (wl.times_of k xs))
     = length (filter (\<lambda>(k', a). k' = k \<and> u - WINDOW_SECONDS < a \<and> a \<le> u) xs)"
  by (induction xs) (auto simp: wl.in_window_def wl.times_of_def)

text \<open>
  C8. The sliding window is respected: in any run of calls at non-decreasing times, over any
  interleaving of keys, the calls allowed for a key in any 60-second window never exceed the limit
  the key is checked with.
\<close>

theorem rate_limit_window_bound:
  assumes "rl_stored rl k = []" "0 < n" "sorted (map (\<lambda>(k, n, t). t) es)"
    and "\<forall>(k', m, t) \<in> set es. k' = k \<longrightarrow> m = n"
  shows "int (length (filter (\<lambda>(k', a). k' = k \<and> u - WINDOW_SECONDS < a \<and> a \<le> u)
           (rl_run es rl))) \<le> n"
proof -
  have "fold rl_run_step es ([], rl) = fold wl.run_step es ([], rl)"
    by (rule fold_cong) (simp_all add: rl_run_step_wl fun_eq_iff)
  then show ?thesis
    using wl.run_window_bound [OF assms, of u] by (simp add: rl_run_def window_count)
qed

theorem rate_limit_window_bound_witness:
  "length (filter (\<lambda>(k', a). k' = ''caller:a'' \<and> 70 - WINDOW_SECONDS < a \<and> a \<le> 70)
     (rl_run [(''caller:a'', 2, 10), (''caller:b'', 1, 11), (''caller:a'', 2, 12), (''caller:a'', 2, 13)]
       \<lparr>rl_config = PDict [], rl_hits = Map.empty\<rparr>)) \<le> 2"
  using rate_limit_window_bound
    [of "\<lparr>rl_config = PDict [], rl_hits = Map.empty\<rparr>" "''caller:a''" 2
      "[(''caller:a'', 2, 10), (''caller:b'', 1, 11), (''caller:a'', 2, 12), (''caller:a'', 2, 13)]" 70]
  by (simp add: rl_stored_def)

text \<open>
  C21. The wait a refused caller is told is right: with no other call on the key, a retry once it
  has passed is allowed, and unless it is the floor of a tenth of a second an earlier retry is
  refused again.
\<close>

theorem rate_limit_retry_after:
  assumes "sorted (rl_stored rl k)" "0 < n" "length (rl_stored rl k) \<le> nat n" "now \<le> t"
    and refused: "rl_check k (PInt n) WINDOW_SECONDS now rl = (Inr (Some r), rl')"
  shows "(now + r \<le> t \<longrightarrow> fst (rl_check k (PInt n) WINDOW_SECONDS t rl') = Inr None)
    \<and> (fst (rl_check k (PInt n) WINDOW_SECONDS t rl') = Inr None \<and> 1 / 10 < r \<longrightarrow> now + r \<le> t)"
proof -
  let ?hits = "dropWhile (\<lambda>h. h \<le> now - WINDOW_SECONDS) (rl_stored rl k)"
  have r: "r = max (hd ?hits + WINDOW_SECONDS - now) (1 / 10)" "nat n \<le> length ?hits"
    and st: "rl_stored rl' k = ?hits"
    using refused assms(2) by (auto simp: rl_check_PInt Let_def split: if_splits)
  have "length ?hits \<le> length (rl_stored rl k)" by (rule length_dropWhile_le)
  then have len: "length ?hits = nat n" using r(2) assms(3) by simp
  then obtain h hs where hits: "?hits = h # hs" using assms(2) by (cases ?hits) auto
  have "length (dropWhile (\<lambda>h. h \<le> t - WINDOW_SECONDS) (h # hs)) < nat n \<longleftrightarrow> h \<le> t - WINDOW_SECONDS"
  proof -
    have "nat n = Suc (length hs)" using len hits by simp
    then show ?thesis by (simp add: less_Suc_eq_le length_dropWhile_le)
  qed
  then have "fst (rl_check k (PInt n) WINDOW_SECONDS t rl') = Inr None \<longleftrightarrow> h \<le> t - WINDOW_SECONDS"
    using assms(2) by (auto simp: rl_check_PInt st hits Let_def simp del: dropWhile.simps)
  then show ?thesis using r(1) by (auto simp: hits)
qed

theorem rate_limit_retry_after_witness:
  "fst (rl_check ''k'' (PInt 1) WINDOW_SECONDS 65 \<lparr>rl_config = PDict [], rl_hits = [''k'' \<mapsto> [5]]\<rparr>)
     = Inr None"
proof -
  let ?rl = "\<lparr>rl_config = PDict [], rl_hits = [''k'' \<mapsto> [5]]\<rparr>"
  have "rl_check ''k'' (PInt 1) WINDOW_SECONDS 10 ?rl = (Inr (Some 55), ?rl)"
    by (simp add: rl_check_PInt rl_stored_def WINDOW_SECONDS_def Let_def)
  from rate_limit_retry_after [OF _ _ _ _ this, of 65] show ?thesis
    by (simp add: rl_stored_def)
qed

end
