(* ===== verification/Shell.thy ===== *)
theory Shell
  imports Json
begin

text \<open>
  The parts of the standard library that stand between a parameter and a command line:
  \<open>str.format\<close> with named fields, \<open>shlex.quote\<close> and \<open>shlex.split\<close>, the latter as the state machine
  of \<open>shlex.shlex\<close> with \<open>posix\<close> and \<open>whitespace_split\<close>.
\<close>

section \<open>\<open>shlex.quote\<close>\<close>

definition shell_safe :: "char \<Rightarrow> bool" where
  "shell_safe c \<longleftrightarrow>
     (let n = (of_char c :: nat) in
      (48 \<le> n \<and> n \<le> 57) \<or> (65 \<le> n \<and> n \<le> 90) \<or> (97 \<le> n \<and> n \<le> 122)
      \<or> c \<in> set ''_@%+=:,./-'')"

definition SQ :: char where "SQ = CHR 0x27"
definition DQ :: char where "DQ = CHR 0x22"
definition BS :: char where "BS = CHR 0x5C"

definition quote_char :: "char \<Rightarrow> string" where
  "quote_char c = (if c = SQ then [SQ, DQ, SQ, DQ, SQ] else [c])"

definition shlex_quote :: "string \<Rightarrow> string" where
  "shlex_quote s =
     (if s = [] then [SQ, SQ]
      else if list_all shell_safe s then s
      else [SQ] @ concat (map quote_char s) @ [SQ])"

section \<open>\<open>shlex.split\<close>\<close>

text \<open>The states of the reader: between words, in a word, in quotes, after a backslash.\<close>

datatype sh_state = ShSpace | ShWord | ShQuote char | ShEscape "char option"

definition sh_white :: "char \<Rightarrow> bool" where
  "sh_white c \<longleftrightarrow> c = CHR '' '' \<or> c = CHR 0x09 \<or> c = CHR 0x0D \<or> c = CHR 0x0A"

text \<open>
  \<open>tok\<close> is the token read so far and \<open>q\<close> whether part of it was quoted; \<open>ShEscape b\<close> remembers the
  quote the backslash stands in.
\<close>

fun sh_split :: "sh_state \<Rightarrow> string \<Rightarrow> bool \<Rightarrow> string \<Rightarrow> string list result" where
  "sh_split st tok q [] =
     (case st of
        ShQuote _ \<Rightarrow> Inl (ValueError ''No closing quotation'')
      | ShEscape _ \<Rightarrow> Inl (ValueError ''No escaped character'')
      | _ \<Rightarrow> Inr (if tok \<noteq> [] \<or> q then [tok] else []))"
| "sh_split ShSpace tok q (c # cs) =
     (if sh_white c then sh_split ShSpace tok q cs
      else if c = BS then sh_split (ShEscape None) tok q cs
      else if c = SQ \<or> c = DQ then sh_split (ShQuote c) tok q cs
      else sh_split ShWord (tok @ [c]) q cs)"
| "sh_split ShWord tok q (c # cs) =
     (if sh_white c then
        (if tok \<noteq> [] \<or> q then rbind (sh_split ShSpace [] False cs) (\<lambda>ws. Inr (tok # ws))
         else sh_split ShSpace [] False cs)
      else if c = SQ \<or> c = DQ then sh_split (ShQuote c) tok q cs
      else if c = BS then sh_split (ShEscape None) tok q cs
      else sh_split ShWord (tok @ [c]) q cs)"
| "sh_split (ShQuote d) tok q (c # cs) =
     (if c = d then sh_split ShWord tok True cs
      else if c = BS \<and> d = DQ then sh_split (ShEscape (Some d)) tok True cs
      else sh_split (ShQuote d) (tok @ [c]) True cs)"
| "sh_split (ShEscape b) tok q (c # cs) =
     (case b of
        None \<Rightarrow> sh_split ShWord (tok @ [c]) q cs
      | Some d \<Rightarrow> sh_split (ShQuote d) (tok @ (if c \<noteq> BS \<and> c \<noteq> d then [BS, c] else [c])) q cs)"

definition shlex_split :: "string \<Rightarrow> string list result" where
  "shlex_split s = sh_split ShSpace [] False s"

section \<open>\<open>str.format\<close> with keyword arguments\<close>

text \<open>
  A named field is replaced by the text \<open>pr\<close> gives for its value. A field with an index, an
  attribute, a conversion or a format specification is left to \<open>other\<close>, which formats the rest of
  the template.
\<close>

definition field_stop :: "char \<Rightarrow> bool" where
  "field_stop c \<longleftrightarrow> c = CHR ''{'' \<or> c = CHR ''}'' \<or> c = CHR ''['' \<or> c = CHR '':'' \<or> c = CHR ''!''"

lemma dropWhile_shorter: "length (dropWhile P xs) < Suc (length xs)"
  by (simp add: less_Suc_eq_le length_dropWhile_le)

function str_format ::
  "(string \<Rightarrow> pydict \<Rightarrow> string result) \<Rightarrow> (pyval \<Rightarrow> string) \<Rightarrow> pydict \<Rightarrow> string \<Rightarrow> string result"
where
  "str_format other pr kw [] = Inr []"
| "str_format other pr kw (c # cs) =
     (if c = CHR ''}'' then
        (case cs of
           d # ds \<Rightarrow>
             (if d = CHR ''}'' then rbind (str_format other pr kw ds) (\<lambda>t. Inr (d # t))
              else Inl (ValueError (''Single '' @ squoted ''}'' @ '' encountered in format string'')))
         | [] \<Rightarrow> Inl (ValueError (''Single '' @ squoted ''}'' @ '' encountered in format string'')))
      else if c = CHR ''{'' then
        (if cs = [] then Inl (ValueError (''Single '' @ squoted ''{'' @ '' encountered in format string''))
         else if hd cs = CHR ''{'' then
           rbind (str_format other pr kw (tl cs)) (\<lambda>t. Inr (hd cs # t))
         else
           let name = takeWhile (\<lambda>x. \<not> field_stop x) cs; r = dropWhile (\<lambda>x. \<not> field_stop x) cs in
           if r = [] then Inl (ValueError (''expected '' @ squoted ''}'' @ '' before end of string''))
           else if hd r = CHR ''{'' then Inl (ValueError (''unexpected '' @ squoted ''{'' @ '' in field name''))
           else if hd r \<noteq> CHR ''}'' \<or> CHR ''.'' \<in> set name then other (c # cs) kw
           else if list_all is_digit name then
             Inl (IndexError (''Replacement index '' @ nat_text (nat_val name)
               @ '' out of range for positional args tuple''))
           else
             (case map_of kw name of
                None \<Rightarrow> Inl (KeyError name)
              | Some v \<Rightarrow> rbind (str_format other pr kw (tl r)) (\<lambda>t. Inr (pr v @ t))))
      else rbind (str_format other pr kw cs) (\<lambda>t. Inr (c # t)))"
  by pat_completeness auto
termination
proof (relation "measure (\<lambda>(other, pr, kw, s). length s)", goal_cases)
  case (4 other pr kw c cs name r x2)
  have "length r \<le> length cs" unfolding 4 by (rule length_dropWhile_le)
  then show ?case by (cases r) auto
next
qed (auto simp: less_Suc_eq_le)

section \<open>Reading back what was quoted\<close>

definition sh_plain :: "char \<Rightarrow> bool" where
  "sh_plain c \<longleftrightarrow> \<not> sh_white c \<and> c \<noteq> SQ \<and> c \<noteq> DQ \<and> c \<noteq> BS"

lemma shell_safe_plain: "shell_safe c \<Longrightarrow> sh_plain c"
  by (auto simp: shell_safe_def sh_plain_def sh_white_def SQ_def DQ_def BS_def Let_def)

lemma sh_consts [simp]: "SQ \<noteq> DQ" "DQ \<noteq> SQ" "SQ \<noteq> BS" "BS \<noteq> SQ" "DQ \<noteq> BS" "BS \<noteq> DQ"
  "\<not> sh_white SQ" "\<not> sh_white DQ" "\<not> sh_white BS"
  by (simp_all add: SQ_def DQ_def BS_def sh_white_def)

lemma sh_start: "\<not> sh_white c \<Longrightarrow> sh_split ShSpace tok q (c # cs) = sh_split ShWord tok q (c # cs)"
  by auto

lemma sh_plain_run:
  "list_all sh_plain s \<Longrightarrow> sh_split ShWord tok q (s @ rest) = sh_split ShWord (tok @ s) q rest"
  by (induction s arbitrary: tok) (auto simp: sh_plain_def)

lemma sh_quoted_run:
  "sh_split (ShQuote SQ) tok True (concat (map quote_char s) @ SQ # rest) = sh_split ShWord (tok @ s) True rest"
  by (induction s arbitrary: tok) (auto simp: quote_char_def)

text \<open>The flag is set by the first character after the opening quote.\<close>

lemma sh_quoted_first:
  "s \<noteq> [] \<Longrightarrow>
     sh_split (ShQuote SQ) tok q (concat (map quote_char s) @ SQ # rest) = sh_split ShWord (tok @ s) True rest"
  by (cases s) (auto simp: quote_char_def sh_quoted_run)

lemma sh_quote_word:
  "sh_split ShWord tok q (shlex_quote s @ rest)
     = sh_split ShWord (tok @ s) (q \<or> s = [] \<or> \<not> list_all shell_safe s) rest"
proof -
  consider "s = []" | "s \<noteq> []" "list_all shell_safe s" | "s \<noteq> []" "\<not> list_all shell_safe s" by blast
  then show ?thesis
  proof cases
    case 1
    then show ?thesis by (simp add: shlex_quote_def)
  next
    case 2
    then have "list_all sh_plain s" by (auto simp: list_all_iff shell_safe_plain)
    then show ?thesis using 2 by (simp add: shlex_quote_def sh_plain_run)
  next
    case 3
    have "sh_split ShWord tok q (shlex_quote s @ rest)
        = sh_split (ShQuote SQ) tok q (concat (map quote_char s) @ SQ # rest)"
      using 3 by (simp add: shlex_quote_def)
    also have "\<dots> = sh_split ShWord (tok @ s) True rest"
      using 3 sh_quoted_first by simp
    finally show ?thesis using 3 by simp
  qed
qed

lemma quote_start: "\<exists>c cs. shlex_quote s = c # cs \<and> \<not> sh_white c"
proof (cases s)
  case Nil
  then show ?thesis by (simp add: shlex_quote_def)
next
  case (Cons c cs)
  then show ?thesis by (auto simp: shlex_quote_def sh_plain_def dest: shell_safe_plain)
qed

text \<open>
  A word of a command template: literal pieces and parameters. \<open>word_text f\<close> replaces every
  parameter by what \<open>f\<close> gives for it.
\<close>

datatype piece = Lit string | Par string

fun piece_text :: "(string \<Rightarrow> string) \<Rightarrow> piece \<Rightarrow> string" where
  "piece_text f (Lit s) = s"
| "piece_text f (Par k) = f k"

definition word_text :: "(string \<Rightarrow> string) \<Rightarrow> piece list \<Rightarrow> string" where
  "word_text f w = concat (map (piece_text f) w)"

fun piece_ok :: "piece \<Rightarrow> bool" where
  "piece_ok (Lit s) = (s \<noteq> [] \<and> list_all sh_plain s)"
| "piece_ok (Par k) = True"

definition word_ok :: "piece list \<Rightarrow> bool" where
  "word_ok w \<longleftrightarrow> w \<noteq> [] \<and> list_all piece_ok w"

lemma sh_word_run:
  "list_all piece_ok w \<Longrightarrow>
     \<exists>q'. sh_split ShWord tok q (word_text (\<lambda>k. shlex_quote (f k)) w @ rest)
            = sh_split ShWord (tok @ word_text f w) q' rest
          \<and> (w \<noteq> [] \<or> tok \<noteq> [] \<or> q \<longrightarrow> tok @ word_text f w \<noteq> [] \<or> q')"
proof (induction w arbitrary: tok q)
  case Nil
  then show ?case by (auto simp: word_text_def)
next
  case (Cons p w)
  have IH: "\<exists>q'. sh_split ShWord t b (word_text (\<lambda>k. shlex_quote (f k)) w @ rest)
      = sh_split ShWord (t @ word_text f w) q' rest
      \<and> (w \<noteq> [] \<or> t \<noteq> [] \<or> b \<longrightarrow> t @ word_text f w \<noteq> [] \<or> q')" for t b
    using Cons by simp
  show ?case
  proof (cases p)
    case (Lit s)
    then show ?thesis
      using Cons.prems IH [of "tok @ s" q] by (auto simp: word_text_def sh_plain_run)
  next
    case (Par k)
    then show ?thesis
      using IH [of "tok @ f k" "q \<or> f k = [] \<or> \<not> list_all shell_safe (f k)"]
      by (auto simp: word_text_def sh_quote_word)
  qed
qed

lemma word_start:
  assumes "word_ok w"
  shows "\<exists>c cs. word_text (\<lambda>k. shlex_quote (f k)) w = c # cs \<and> \<not> sh_white c"
proof -
  obtain p ps where w: "w = p # ps" "piece_ok p" using assms by (cases w) (auto simp: word_ok_def)
  show ?thesis
  proof (cases p)
    case (Lit s)
    then show ?thesis using w by (cases s) (auto simp: word_text_def sh_plain_def)
  next
    case (Par k)
    then show ?thesis using quote_start [of "f k"] w by (auto simp: word_text_def)
  qed
qed

lemma split_word:
  assumes "word_ok w"
  shows "shlex_split (word_text (\<lambda>k. shlex_quote (f k)) w) = Inr [word_text f w]"
    "shlex_split (word_text (\<lambda>k. shlex_quote (f k)) w @ '' '' @ rest)
       = rbind (shlex_split rest) (\<lambda>ws. Inr (word_text f w # ws))"
proof -
  obtain c cs where c: "word_text (\<lambda>k. shlex_quote (f k)) w = c # cs" "\<not> sh_white c"
    using word_start [OF assms] by blast
  have start: "shlex_split (word_text (\<lambda>k. shlex_quote (f k)) w @ r)
      = sh_split ShWord [] False (word_text (\<lambda>k. shlex_quote (f k)) w @ r)" for r
    unfolding shlex_split_def c(1) append_Cons by (rule sh_start [OF c(2)])
  have run: "\<exists>q'. sh_split ShWord [] False (word_text (\<lambda>k. shlex_quote (f k)) w @ r)
      = sh_split ShWord (word_text f w) q' r \<and> (word_text f w \<noteq> [] \<or> q')" for r
    using sh_word_run [of w "[]" False f r] assms by (simp add: word_ok_def)
  from run [of "[]"] show "shlex_split (word_text (\<lambda>k. shlex_quote (f k)) w) = Inr [word_text f w]"
    using start [of "[]"] by auto
  from run [of "'' '' @ rest"]
  show "shlex_split (word_text (\<lambda>k. shlex_quote (f k)) w @ '' '' @ rest)
       = rbind (shlex_split rest) (\<lambda>ws. Inr (word_text f w # ws))"
    unfolding start by (auto simp: shlex_split_def sh_white_def)
qed

theorem split_words:
  "list_all word_ok ws \<Longrightarrow>
     shlex_split (join '' '' (map (word_text (\<lambda>k. shlex_quote (f k))) ws)) = Inr (map (word_text f) ws)"
proof (induction ws)
  case Nil
  then show ?case by (simp add: shlex_split_def)
next
  case (Cons w ws)
  then show ?case
    by (cases "ws = []") (simp_all add: split_word join_Cons del: append_Cons append_Nil)
qed

lemma split_quoted: "shlex_split (join '' '' (map shlex_quote xs)) = Inr xs"
proof -
  have "shlex_split (join '' '' (map (word_text (\<lambda>k. shlex_quote (id k))) (map (\<lambda>x. [Par x]) xs)))
      = Inr (map (word_text id) (map (\<lambda>x. [Par x]) xs))"
    by (rule split_words) (simp add: list_all_iff word_ok_def)
  then show ?thesis by (simp add: comp_def word_text_def)
qed

section \<open>Formatting a template of words\<close>

fun piece_tmpl :: "piece \<Rightarrow> string" where
  "piece_tmpl (Lit s) = s"
| "piece_tmpl (Par k) = ''{'' @ k @ ''}''"

definition no_brace :: "string \<Rightarrow> bool" where
  "no_brace s \<longleftrightarrow> CHR ''{'' \<notin> set s \<and> CHR ''}'' \<notin> set s"

definition plain_name :: "string \<Rightarrow> bool" where
  "plain_name k \<longleftrightarrow> list_all (\<lambda>c. \<not> field_stop c) k \<and> CHR ''.'' \<notin> set k \<and> \<not> list_all is_digit k"

fun piece_formats :: "pydict \<Rightarrow> piece \<Rightarrow> bool" where
  "piece_formats kw (Lit s) = no_brace s"
| "piece_formats kw (Par k) = (plain_name k \<and> has_key kw k)"

lemma format_lit:
  "no_brace s \<Longrightarrow> str_format other pr kw (s @ t) = rbind (str_format other pr kw t) (\<lambda>r. Inr (s @ r))"
  by (induction s) (auto simp: no_brace_def rbind_def split: sum.splits)

lemma format_field:
  assumes "plain_name k" "has_key kw k"
  shows "str_format other pr kw (CHR ''{'' # k @ CHR ''}'' # t)
    = rbind (str_format other pr kw t) (\<lambda>r. Inr (pr (dget kw k) @ r))"
proof -
  have n: "\<forall>c \<in> set k. \<not> field_stop c" using assms(1) by (auto simp: plain_name_def list_all_iff)
  have fs: "field_stop (CHR ''}'')" by (simp add: field_stop_def)
  have tw: "takeWhile (\<lambda>x. \<not> field_stop x) (k @ CHR ''}'' # t) = k"
    "dropWhile (\<lambda>x. \<not> field_stop x) (k @ CHR ''}'' # t) = CHR ''}'' # t"
    using n fs by (simp_all add: takeWhile_append2 dropWhile_append2)
  have k: "k \<noteq> []" using assms(1) by (auto simp: plain_name_def)
  then have hd: "hd (k @ CHR ''}'' # t) \<noteq> CHR ''{''"
    using n by (cases k) (auto simp: field_stop_def)
  show ?thesis
    using assms k hd tw by (auto simp: plain_name_def has_key_map_of dget_def split: option.split)
qed

lemma format_pieces:
  "list_all (piece_formats kw) w \<Longrightarrow>
     str_format other pr kw (concat (map piece_tmpl w) @ t)
       = rbind (str_format other pr kw t) (\<lambda>r. Inr (word_text (\<lambda>k. pr (dget kw k)) w @ r))"
proof (induction w)
  case Nil
  then show ?case by (cases "str_format other pr kw t") (simp_all add: word_text_def)
next
  case (Cons p w)
  then show ?case
    by (cases p) (auto simp: word_text_def format_lit format_field rbind_assoc simp del: str_format.simps)
qed

lemma format_words:
  "list_all (list_all (piece_formats kw)) ws \<Longrightarrow>
     str_format other pr kw (join '' '' (map (\<lambda>w. concat (map piece_tmpl w)) ws))
       = Inr (join '' '' (map (word_text (\<lambda>k. pr (dget kw k))) ws))"
proof (induction ws)
  case Nil
  then show ?case by simp
next
  case (Cons w ws)
  have sp: "str_format other pr kw ('' '' @ t) = rbind (str_format other pr kw t) (\<lambda>r. Inr ('' '' @ r))" for t
    by (rule format_lit) (simp add: no_brace_def)
  show ?case
  proof (cases "ws = []")
    case True
    then show ?thesis using Cons.prems format_pieces [of kw w other pr "[]"] by simp
  next
    case False
    then show ?thesis
      using Cons format_pieces [of kw w other pr] sp
      by (simp add: join_Cons del: str_format.simps append_Cons append_Nil)
  qed
qed

end
