(* ===== verification/World.thy ===== *)
theory World
  imports Files
begin

text \<open>
  What the program talks to, and the state-and-exception monad its stateful functions are written
  in.

  The environment \<open>env\<close> answers every question the code asks the outside: the clock, HTTP
  requests, child processes, the Kubernetes API, configuration files, fresh names. An answer is a
  function of a tick and the question; every question consumes one tick (\<open>tick\<close> of the state), so
  two readings of the clock or two reads of the same file are unrelated unless a hypothesis relates
  them, and a theorem for every \<open>env\<close> covers every behaviour of the outside. Requests that leave
  the process are appended to \<open>trace\<close>.
\<close>

section \<open>Requests and answers\<close>

record http_req =
  hr_method :: pyval
  hr_url :: pyval
  hr_headers :: "(string \<times> pyval) list"
  hr_json :: "pyval option"

text \<open>\<open>HttpFailed\<close> is a \<open>requests.RequestException\<close> with its text.\<close>

datatype http_out = HttpFailed string | HttpResponse int string

text \<open>A finished child process with return code, stdout and stderr; a timeout; another exception.\<close>

datatype proc_out = ProcDone int string string | ProcTimeout string | ProcFailed string

text \<open>
  The steps of sending a mail: connecting to a host and port, \<open>starttls\<close>, \<open>login\<close>, and \<open>sendmail\<close>
  with sender, recipients, the \<open>To\<close> and \<open>Subject\<close> headers and the body. A step succeeds, fails with
  an \<open>SMTPException\<close> or \<open>OSError\<close>, or raises something else.
\<close>

datatype smtp_op =
    SmtpConnect pyval pyval
  | SmtpStartTls
  | SmtpLogin pyval pyval
  | SmtpSend pyval pyval string string string

datatype smtp_out = SmtpOk | SmtpRefused string | SmtpRaised string

text \<open>A message to a syslog host, port and protocol, with its facility.\<close>

datatype effect =
    HttpEffect http_req
  | ProcEffect "string list"
  | KubeEffect string "(string \<times> pyval) list"
  | SmtpEffect smtp_op
  | SyslogEffect pyval pyval pyval int string

text \<open>
  An answer of the Kubernetes client: a value, an \<open>ApiException\<close> with status, reason, body and its
  text (0 and the empty string stand for a missing status, reason or body), another exception.
\<close>

datatype kube_out = KubeOk pyval | KubeApiError int string string string | KubeFailed string

section \<open>The Vault client's configuration and state\<close>

record vault_config =
  va_addr :: "string option"
  va_token :: "string option"
  va_namespace :: "string option"
  va_cache_ttl :: rat
  va_auth_method :: string
  va_role :: "string option"
  va_mount_path :: string
  va_jwt_path :: string
  va_refresh_buffer :: rat

text \<open>\<open>None\<close> as expiry is \<open>float("inf")\<close>.\<close>

record vault_state =
  va_cache :: "(string \<times> (rat \<times> pyval)) list"
  va_k8s_token :: pyval
  va_k8s_expires :: "rat option"

section \<open>The body of a webhook call\<close>

text \<open>The fields of \<open>WebhookPayload\<close>; its optional fields may be \<open>null\<close>.\<close>

record webhook_payload =
  wp_event_type :: string
  wp_controller_override :: "string option"
  wp_parameters :: "pydict option"
  wp_dry_run :: "bool option"
  wp_approval_required :: "bool option"

section \<open>Environment and state\<close>

text \<open>What \<open>datetime.fromisoformat\<close> makes of a text: nothing, a time without a zone, a time.\<close>

datatype iso_stamp = IsoInvalid | IsoNaive | IsoAware rat

record env =
  env_clock :: "nat \<Rightarrow> rat"
  env_http :: "nat \<Rightarrow> http_req \<Rightarrow> http_out"
  env_proc :: "nat \<Rightarrow> string list \<Rightarrow> proc_out"
  env_kube :: "nat \<Rightarrow> effect \<Rightarrow> kube_out"
  env_file :: "nat \<Rightarrow> string \<Rightarrow> file_read"
  env_auth_yaml :: "nat \<Rightarrow> pyval result"
  env_actions_yaml :: "nat \<Rightarrow> pyval result"
  env_controllers_yaml :: "nat \<Rightarrow> pyval result"
  env_tmp_name :: "nat \<Rightarrow> string"
  env_tmp_fault :: "nat \<Rightarrow> string option"
  env_save_fault :: "nat \<Rightarrow> nat option"
  env_uuid :: "nat \<Rightarrow> string"
  env_float_repr :: "rat \<Rightarrow> string"
  env_float_parse :: "string \<Rightarrow> rat option"
  env_format_field :: "string \<Rightarrow> pyval \<Rightarrow> string result"
  env_sha256 :: "string \<Rightarrow> string"
  env_iso_time :: "rat \<Rightarrow> string"
  env_iso_parse :: "string \<Rightarrow> iso_stamp"
  env_stamp :: "rat \<Rightarrow> string"
  env_mtime :: "nat \<Rightarrow> string \<Rightarrow> rat option"
  env_listdir :: "nat \<Rightarrow> string \<Rightarrow> string list option"
  env_remove_fault :: "nat \<Rightarrow> bool"
  env_syslog_fault :: "nat \<Rightarrow> string option"
  env_smtp :: "nat \<Rightarrow> smtp_op \<Rightarrow> smtp_out"
  env_payload :: "pydict \<Rightarrow> pyval + webhook_payload"
  env_vault :: vault_config

text \<open>
  Two of the answers are not the outside's but a library's: \<open>env_payload\<close> is pydantic's validation of
  the keyword arguments of \<open>WebhookPayload\<close> (the left value is the list of errors) and
  \<open>env_sha256\<close> the hash function.
\<close>

record world =
  tick :: nat
  trace :: "effect list"
  tmpfiles :: "(string \<times> string) list"
  vault :: vault_state

section \<open>The monad\<close>

type_synonym ('s, 'a) pym = "'s \<Rightarrow> 'a result \<times> 's"

definition returnM :: "'a \<Rightarrow> ('s, 'a) pym" where
  "returnM x = (\<lambda>s. (Inr x, s))"

definition raiseM :: "py_exn \<Rightarrow> ('s, 'a) pym" where
  "raiseM e = (\<lambda>s. (Inl e, s))"

definition bindM :: "('s, 'a) pym \<Rightarrow> ('a \<Rightarrow> ('s, 'b) pym) \<Rightarrow> ('s, 'b) pym" where
  "bindM m f = (\<lambda>s. case m s of (Inl e, s') \<Rightarrow> (Inl e, s') | (Inr x, s') \<Rightarrow> f x s')"

definition catchM :: "('s, 'a) pym \<Rightarrow> (py_exn \<Rightarrow> ('s, 'a) pym) \<Rightarrow> ('s, 'a) pym" where
  "catchM m h = (\<lambda>s. case m s of (Inl e, s') \<Rightarrow> h e s' | (Inr x, s') \<Rightarrow> (Inr x, s'))"

definition liftM :: "'a result \<Rightarrow> ('s, 'a) pym" where
  "liftM r = (\<lambda>s. (r, s))"

definition getM :: "('s \<Rightarrow> 'a) \<Rightarrow> ('s, 'a) pym" where
  "getM f = (\<lambda>s. (Inr (f s), s))"

definition modifyM :: "('s \<Rightarrow> 's) \<Rightarrow> ('s, unit) pym" where
  "modifyM f = (\<lambda>s. (Inr (), f s))"

text \<open>\<open>try: ... finally: ...\<close> with a clean-up that does not raise.\<close>

definition finallyM :: "('s, 'a) pym \<Rightarrow> ('s \<Rightarrow> 's) \<Rightarrow> ('s, 'a) pym" where
  "finallyM m f = (\<lambda>s. case m s of (r, s') \<Rightarrow> (r, f s'))"

lemma bindM_simps [simp, monad_simps]:
  "bindM (returnM x) f = f x"
  "bindM (raiseM e) f = raiseM e"
  by (simp_all add: bindM_def returnM_def raiseM_def)

lemma run_simps [simp, monad_simps]:
  "returnM x s = (Inr x, s)"
  "raiseM e s = (Inl e, s)"
  "liftM r s = (r, s)"
  "getM g s = (Inr (g s), s)"
  "modifyM h s = (Inr (), h s)"
  by (simp_all add: returnM_def raiseM_def liftM_def getM_def modifyM_def)

lemma bindM_run [monad_simps]:
  "bindM m f s = (case m s of (Inl e, s') \<Rightarrow> (Inl e, s') | (Inr x, s') \<Rightarrow> f x s')"
  by (simp add: bindM_def)

lemma bindM_Inr: "m s = (Inr x, s') \<Longrightarrow> bindM m f s = f x s'"
  by (simp add: bindM_def)

lemma bindM_Inl: "m s = (Inl e, s') \<Longrightarrow> bindM m f s = (Inl e, s')"
  by (simp add: bindM_def)

lemma bindM_liftM [simp, monad_simps]:
  "bindM (liftM (Inr x)) f = f x"
  "bindM (liftM (Inl e)) f = raiseM e"
  by (simp_all add: bindM_def liftM_def raiseM_def)

lemma bindM_getM [simp, monad_simps]: "bindM (getM g) f s = f (g s) s"
  by (simp add: bindM_def)

lemma bindM_modifyM [simp, monad_simps]: "bindM (modifyM h) f s = f () (h s)"
  by (simp add: bindM_def)

lemma bindM_assoc: "bindM (bindM m f) g = bindM m (\<lambda>x. bindM (f x) g)"
  by (auto simp: bindM_def split: prod.splits sum.splits)

lemma bindM_run_Inl:
  "bindM m f w = (Inl e, w') \<Longrightarrow>
     m w = (Inl e, w') \<or> (\<exists>y w1. m w = (Inr y, w1) \<and> f y w1 = (Inl e, w'))"
  by (auto simp: bindM_run split: prod.splits sum.splits)

lemma bindM_run_Inr:
  "bindM m f w = (Inr x, w') \<Longrightarrow> \<exists>y w1. m w = (Inr y, w1) \<and> f y w1 = (Inr x, w')"
  by (auto simp: bindM_run split: prod.splits sum.splits)

section \<open>Relations every run of a program keeps\<close>

text \<open>
  \<open>keeps R m\<close>: whatever \<open>m\<close> returns or raises, its final state is related to its first one by
  \<open>R\<close>. For a reflexive and transitive \<open>R\<close> the combinators keep it when their parts do, so a
  frame property of a handler is proved by following its text.
\<close>

definition keeps :: "('s \<Rightarrow> 's \<Rightarrow> bool) \<Rightarrow> ('s, 'a) pym \<Rightarrow> bool" where
  "keeps R m \<longleftrightarrow> (\<forall>s. R s (snd (m s)))"

locale state_preorder =
  fixes R :: "'s \<Rightarrow> 's \<Rightarrow> bool"
  assumes R_refl: "R s s"
    and R_trans: "R s t \<Longrightarrow> R t u \<Longrightarrow> R s u"
begin

lemma keeps_return: "keeps R (returnM x)"
  by (simp add: keeps_def R_refl)

lemma keeps_raise: "keeps R (raiseM e)"
  by (simp add: keeps_def R_refl)

lemma keeps_lift: "keeps R (liftM r)"
  by (simp add: keeps_def R_refl)

lemma keeps_get: "keeps R (getM f)"
  by (simp add: keeps_def R_refl)

lemma keeps_bind: "keeps R m \<Longrightarrow> (\<And>x. keeps R (f x)) \<Longrightarrow> keeps R (bindM m f)"
  unfolding keeps_def bindM_def
  by (auto split: prod.splits sum.splits) (metis R_trans snd_conv)+

lemma keeps_catch: "keeps R m \<Longrightarrow> (\<And>e. keeps R (h e)) \<Longrightarrow> keeps R (catchM m h)"
  unfolding keeps_def catchM_def
  by (auto split: prod.splits sum.splits) (metis R_trans snd_conv)+

lemma keeps_modify: "(\<And>s. R s (f s)) \<Longrightarrow> keeps R (modifyM f)"
  by (simp add: keeps_def)

lemma keeps_finally: "keeps R m \<Longrightarrow> (\<And>s. R s (f s)) \<Longrightarrow> keeps R (finallyM m f)"
  unfolding keeps_def finallyM_def by (auto split: prod.splits) (metis R_trans snd_conv)

lemma keeps_if: "keeps R m \<Longrightarrow> keeps R n \<Longrightarrow> keeps R (if b then m else n)"
  by simp

lemma keeps_run: "keeps R m \<Longrightarrow> m s = (r, s') \<Longrightarrow> R s s'"
  unfolding keeps_def by (metis snd_conv)

lemmas keeps_rules = keeps_return keeps_raise keeps_lift keeps_get keeps_bind keeps_catch keeps_if

end

text \<open>A case distinction keeps what every branch keeps.\<close>

lemma keeps_prod: "(\<And>a b. keeps R (f a b)) \<Longrightarrow> keeps R (case p of (a, b) \<Rightarrow> f a b)"
  by (cases p) simp

lemma keeps_option:
  "keeps R m \<Longrightarrow> (\<And>x. keeps R (f x)) \<Longrightarrow> keeps R (case p of None \<Rightarrow> m | Some x \<Rightarrow> f x)"
  by (cases p) auto

lemma keeps_sum:
  "(\<And>x. keeps R (f x)) \<Longrightarrow> (\<And>x. keeps R (g x)) \<Longrightarrow> keeps R (case p of Inl x \<Rightarrow> f x | Inr x \<Rightarrow> g x)"
  by (cases p) auto

lemma keeps_list:
  "keeps R m \<Longrightarrow> (\<And>x xs. keeps R (f x xs)) \<Longrightarrow> keeps R (case p of [] \<Rightarrow> m | x # xs \<Rightarrow> f x xs)"
  by (cases p) auto

lemma keeps_file_read:
  "keeps R m \<Longrightarrow> (\<And>e. keeps R (f e)) \<Longrightarrow> (\<And>t. keeps R (g t)) \<Longrightarrow>
     keeps R (case p of Missing \<Rightarrow> m | Unreadable e \<Rightarrow> f e | Contents t \<Rightarrow> g t)"
  by (cases p) auto

lemma keeps_http_out:
  "(\<And>e. keeps R (f e)) \<Longrightarrow> (\<And>n t. keeps R (g n t)) \<Longrightarrow>
     keeps R (case p of HttpFailed e \<Rightarrow> f e | HttpResponse n t \<Rightarrow> g n t)"
  by (cases p) auto

lemma keeps_proc_out:
  "(\<And>n s t. keeps R (f n s t)) \<Longrightarrow> (\<And>e. keeps R (g e)) \<Longrightarrow> (\<And>e. keeps R (h e)) \<Longrightarrow>
     keeps R (case p of ProcDone n s t \<Rightarrow> f n s t | ProcTimeout e \<Rightarrow> g e | ProcFailed e \<Rightarrow> h e)"
  by (cases p) auto

lemma keeps_kube_out:
  "(\<And>v. keeps R (f v)) \<Longrightarrow> (\<And>n s t u. keeps R (g n s t u)) \<Longrightarrow> (\<And>e. keeps R (h e)) \<Longrightarrow>
     keeps R (case p of KubeOk v \<Rightarrow> f v | KubeApiError n s t u \<Rightarrow> g n s t u | KubeFailed e \<Rightarrow> h e)"
  by (cases p) auto

lemma keeps_pyval:
  "keeps R m \<Longrightarrow> (\<And>x. keeps R (f1 x)) \<Longrightarrow> (\<And>x. keeps R (f2 x)) \<Longrightarrow> (\<And>x. keeps R (f3 x)) \<Longrightarrow>
     (\<And>x. keeps R (f4 x)) \<Longrightarrow> (\<And>x. keeps R (f5 x)) \<Longrightarrow> (\<And>x. keeps R (f6 x)) \<Longrightarrow>
     keeps R (case p of PNone \<Rightarrow> m | PBool x \<Rightarrow> f1 x | PInt x \<Rightarrow> f2 x | PFloat x \<Rightarrow> f3 x
       | PStr x \<Rightarrow> f4 x | PList x \<Rightarrow> f5 x | PDict x \<Rightarrow> f6 x)"
  by (cases p) auto

lemma keeps_Let: "(\<And>x. keeps R (f x)) \<Longrightarrow> keeps R (Let v f)"
  by simp

lemma py_exn_case_keeps:
  "(\<And>m. keeps R (f m)) \<Longrightarrow> keeps R (raiseM e :: ('s, 'a) pym) \<Longrightarrow>
     keeps R ((case e of VaultUnavailableError m \<Rightarrow> f m | _ \<Rightarrow> raiseM e) :: ('s, 'a) pym)"
  by (cases e) simp_all

lemmas keeps_cases = keeps_prod keeps_option keeps_sum keeps_list keeps_file_read keeps_http_out
  keeps_proc_out keeps_kube_out keeps_pyval keeps_Let

section \<open>Questions to the environment\<close>

definition next_tick :: "('s world_scheme, nat) pym" where
  "next_tick = (\<lambda>w. (Inr (tick w), w\<lparr>tick := Suc (tick w)\<rparr>))"

definition time_time :: "env \<Rightarrow> ('s world_scheme, rat) pym" where
  "time_time env = bindM next_tick (\<lambda>n. returnM (env_clock env n))"

definition do_http :: "env \<Rightarrow> http_req \<Rightarrow> ('s world_scheme, http_out) pym" where
  "do_http env req =
     bindM next_tick (\<lambda>n.
     bindM (modifyM (\<lambda>w. w\<lparr>trace := trace w @ [HttpEffect req]\<rparr>)) (\<lambda>_.
     returnM (env_http env n req)))"

definition do_proc :: "env \<Rightarrow> string list \<Rightarrow> ('s world_scheme, proc_out) pym" where
  "do_proc env cmd =
     bindM next_tick (\<lambda>n.
     bindM (modifyM (\<lambda>w. w\<lparr>trace := trace w @ [ProcEffect cmd]\<rparr>)) (\<lambda>_.
     returnM (env_proc env n cmd)))"

definition do_smtp :: "env \<Rightarrow> smtp_op \<Rightarrow> ('s world_scheme, unit) pym" where
  "do_smtp env p =
     bindM next_tick (\<lambda>n.
     bindM (modifyM (\<lambda>w. w\<lparr>trace := trace w @ [SmtpEffect p]\<rparr>)) (\<lambda>_.
     case env_smtp env n p of
       SmtpOk \<Rightarrow> returnM ()
     | SmtpRefused m \<Rightarrow> raiseM (OSError m)
     | SmtpRaised m \<Rightarrow> raiseM (OtherError m)))"

text \<open>A temporary file of the program reads as what was written to it; any other path is outside.\<close>

definition read_path :: "env \<Rightarrow> string \<Rightarrow> ('s world_scheme, file_read) pym" where
  "read_path env p =
     bindM next_tick (\<lambda>n.
     bindM (getM (\<lambda>w. map_of (tmpfiles w) p)) (\<lambda>own.
     returnM (case own of Some t \<Rightarrow> Contents t | None \<Rightarrow> env_file env n p)))"

lemma next_tick_run [simp, monad_simps]: "next_tick w = (Inr (tick w), w\<lparr>tick := Suc (tick w)\<rparr>)"
  by (simp add: next_tick_def)

lemma time_time_run [simp, monad_simps]:
  "time_time env w = (Inr (env_clock env (tick w)), w\<lparr>tick := Suc (tick w)\<rparr>)"
  by (simp add: time_time_def bindM_run)

lemma do_http_run [simp, monad_simps]:
  "do_http env req w =
     (Inr (env_http env (tick w) req), w\<lparr>tick := Suc (tick w), trace := trace w @ [HttpEffect req]\<rparr>)"
  by (simp add: do_http_def bindM_run)

lemma do_proc_run [simp, monad_simps]:
  "do_proc env cmd w =
     (Inr (env_proc env (tick w) cmd), w\<lparr>tick := Suc (tick w), trace := trace w @ [ProcEffect cmd]\<rparr>)"
  by (simp add: do_proc_def bindM_run)

lemma read_path_run [simp, monad_simps]:
  "read_path env p w =
     (Inr (case map_of (tmpfiles w) p of Some t \<Rightarrow> Contents t | None \<Rightarrow> env_file env (tick w) p),
      w\<lparr>tick := Suc (tick w)\<rparr>)"
  by (simp add: read_path_def bindM_run)

section \<open>An environment for examples\<close>

text \<open>
  The environment and state the examples start from: the clock counts ticks, no host answers, no
  file exists. An example replaces the answers it is about.
\<close>

definition example_env :: env where
  "example_env =
     \<lparr>env_clock = (\<lambda>n. of_nat n), env_http = (\<lambda>n req. HttpFailed ''unreachable''),
      env_proc = (\<lambda>n cmd. ProcFailed ''not found''), env_kube = (\<lambda>n e. KubeFailed ''no cluster''),
      env_file = (\<lambda>n p. Missing), env_auth_yaml = (\<lambda>n. Inr (PDict [])),
      env_actions_yaml = (\<lambda>n. Inr (PDict [])), env_controllers_yaml = (\<lambda>n. Inr (PDict [])),
      env_tmp_name = (\<lambda>n. ''/tmp/t'' @ nat_text n), env_tmp_fault = (\<lambda>n. None),
      env_save_fault = (\<lambda>n. None), env_uuid = nat_text, env_float_repr = (\<lambda>q. ''1.5''),
      env_float_parse = (\<lambda>s. Some (3 / 2)), env_format_field = (\<lambda>s v. Inl (ValueError s)),
      env_sha256 = (\<lambda>s. s), env_iso_time = (\<lambda>q. ''2026-01-01T00:00:00Z''),
      env_iso_parse = (\<lambda>s. IsoAware 0), env_stamp = (\<lambda>q. ''20260101T000000Z''),
      env_mtime = (\<lambda>n p. Some 0), env_listdir = (\<lambda>n d. Some []), env_remove_fault = (\<lambda>n. False),
      env_syslog_fault = (\<lambda>n. None), env_smtp = (\<lambda>n p. SmtpOk), env_payload = (\<lambda>d. Inl (PList [])),
      env_vault = \<lparr>va_addr = Some ''https://vault:8200'', va_token = Some ''t'', va_namespace = None,
        va_cache_ttl = 300, va_auth_method = ''token'', va_role = None, va_mount_path = ''kubernetes'',
        va_jwt_path = ''/jwt'', va_refresh_buffer = 30\<rparr>\<rparr>"

definition example_world :: world where
  "example_world =
     \<lparr>tick = 0, trace = [], tmpfiles = [],
      vault = \<lparr>va_cache = [], va_k8s_token = PNone, va_k8s_expires = Some 0\<rparr>\<rparr>"

lemmas example_simps = example_env_def example_world_def

end
