(* ===== verification/Vault.thy ===== *)
theory Vault
  imports World
begin

text \<open>
  \<open>src/vault.py\<close>: the read cache, the token of the Kubernetes login and the \<open>vault:path#field\<close>
  references. Exceptions are kept apart as the code does: everything a caller should see is
  \<open>VaultUnavailableError\<close>.
\<close>

definition DEFAULT_CACHE_TTL_SECONDS :: rat where
  "DEFAULT_CACHE_TTL_SECONDS = 300"

definition DEFAULT_TOKEN_REFRESH_BUFFER_SECONDS :: rat where
  "DEFAULT_TOKEN_REFRESH_BUFFER_SECONDS = 30"

definition opt_true :: "string option \<Rightarrow> bool" where
  "opt_true x \<longleftrightarrow> x \<noteq> None \<and> x \<noteq> Some []"

definition lower_char :: "char \<Rightarrow> char" where
  "lower_char c =
     (let n = (of_char c :: nat) in
      if (65 \<le> n \<and> n \<le> 90) \<or> (192 \<le> n \<and> n \<le> 222 \<and> n \<noteq> 215) then char_of (n + 32) else c)"

text \<open>\<open>VaultClient.__init__\<close> as the module calls it: every argument comes from the process environment.\<close>

definition vault_init :: "(string \<rightharpoonup> string) \<Rightarrow> vault_config" where
  "vault_init environ =
     \<lparr>va_addr = environ ''VAULT_ADDR'', va_token = environ ''VAULT_TOKEN'',
      va_namespace = environ ''VAULT_NAMESPACE'', va_cache_ttl = DEFAULT_CACHE_TTL_SECONDS,
      va_auth_method = map lower_char (strip (case environ ''VAULT_AUTH_METHOD'' of
          None \<Rightarrow> ''token'' | Some m \<Rightarrow> m)),
      va_role = environ ''VAULT_K8S_ROLE'',
      va_mount_path = (case environ ''VAULT_K8S_MOUNT_PATH'' of None \<Rightarrow> ''kubernetes'' | Some m \<Rightarrow> m),
      va_jwt_path = (case environ ''VAULT_K8S_JWT_PATH'' of
          None \<Rightarrow> ''/var/run/secrets/kubernetes.io/serviceaccount/token'' | Some p \<Rightarrow> p),
      va_refresh_buffer = DEFAULT_TOKEN_REFRESH_BUFFER_SECONDS\<rparr>"

definition vault_state_init :: vault_state where
  "vault_state_init = \<lparr>va_cache = [], va_k8s_token = PNone, va_k8s_expires = Some 0\<rparr>"

definition is_configured :: "vault_config \<Rightarrow> bool" where
  "is_configured vc =
     (if va_auth_method vc = ''kubernetes'' then opt_true (va_addr vc) \<and> opt_true (va_role vc)
      else opt_true (va_addr vc) \<and> opt_true (va_token vc))"

definition opt_text :: "string option \<Rightarrow> string" where
  "opt_text x = (case x of None \<Rightarrow> ''None'' | Some s \<Rightarrow> s)"

definition strip_slashes_right :: "string \<Rightarrow> string" where
  "strip_slashes_right s = strip_right (\<lambda>c. c = CHR ''/'') s"

definition strip_slashes_left :: "string \<Rightarrow> string" where
  "strip_slashes_left s = dropWhile (\<lambda>c. c = CHR ''/'') s"

definition opt_str :: "string option \<Rightarrow> pyval" where
  "opt_str x = (case x of None \<Rightarrow> PNone | Some s \<Rightarrow> PStr s)"

definition namespace_header :: "vault_config \<Rightarrow> (string \<times> pyval) list" where
  "namespace_header vc =
     (if opt_true (va_namespace vc) then [(''X-Vault-Namespace'', opt_str (va_namespace vc))] else [])"

text \<open>\<open>except (ValueError, KeyError, TypeError)\<close>.\<close>

definition shape_error :: "py_exn \<Rightarrow> bool" where
  "shape_error e = (case e of
     ValueError _ \<Rightarrow> True | JSONDecodeError \<Rightarrow> True | KeyError _ \<Rightarrow> True | TypeError _ \<Rightarrow> True
   | _ \<Rightarrow> False)"

definition or_unavailable :: "string \<Rightarrow> 'a result \<Rightarrow> 'a result" where
  "or_unavailable msg r = (case r of
     Inl e \<Rightarrow> Inl (if shape_error e then VaultUnavailableError (msg @ exn_text e) else e)
   | Inr x \<Rightarrow> Inr x)"

definition login_url :: "vault_config \<Rightarrow> string" where
  "login_url vc =
     strip_slashes_right (opt_text (va_addr vc)) @ ''/v1/auth/''
       @ strip_slashes_left (strip_slashes_right (va_mount_path vc)) @ ''/login''"

definition login_request :: "vault_config \<Rightarrow> string \<Rightarrow> http_req" where
  "login_request vc jwt =
     \<lparr>hr_method = PStr ''POST'', hr_url = PStr (login_url vc), hr_headers = namespace_header vc,
      hr_json = Some (PDict [(''role'', opt_str (va_role vc)), (''jwt'', PStr jwt)])\<rparr>"

definition login_payload :: "env \<Rightarrow> string \<Rightarrow> (pyval \<times> pyval) result" where
  "login_payload env text =
     rbind (json_loads (env_float_parse env) text) (\<lambda>body.
     rbind (py_item body ''auth'') (\<lambda>auth.
     rbind (py_item auth ''client_token'') (\<lambda>client_token.
     rbind (py_item auth ''lease_duration'') (\<lambda>lease_duration.
     Inr (client_token, lease_duration)))))"

definition secret_request :: "vault_config \<Rightarrow> string \<Rightarrow> pyval \<Rightarrow> http_req" where
  "secret_request vc path tok =
     \<lparr>hr_method = PStr ''GET'',
      hr_url = PStr (strip_slashes_right (opt_text (va_addr vc)) @ ''/v1/'' @ strip_slashes_left path),
      hr_headers = (''X-Vault-Token'', tok) # namespace_header vc, hr_json = None\<rparr>"

definition secret_payload :: "env \<Rightarrow> string \<Rightarrow> pyval result" where
  "secret_payload env text =
     rbind (json_loads (env_float_parse env) text) (\<lambda>body.
     rbind (py_item body ''data'') (\<lambda>d. py_item d ''data''))"

definition login_kubernetes :: "env \<Rightarrow> ('s world_scheme, pyval \<times> rat option) pym" where
  "login_kubernetes env =
     (let vc = env_vault env in
     bindM (read_path env (va_jwt_path vc)) (\<lambda>fr.
     bindM (case fr of
              Contents s \<Rightarrow> returnM (strip s)
            | Missing \<Rightarrow> raiseM (VaultUnavailableError
                (''Failed to read Kubernetes service account token from '' @ squoted (va_jwt_path vc)
                  @ '': '' @ missing_text (va_jwt_path vc)))
            | Unreadable e \<Rightarrow> raiseM (VaultUnavailableError
                (''Failed to read Kubernetes service account token from '' @ squoted (va_jwt_path vc)
                  @ '': '' @ e))) (\<lambda>jwt.
     if jwt = [] then
       raiseM (VaultUnavailableError
         (''Kubernetes service account token at '' @ squoted (va_jwt_path vc) @ '' is empty''))
     else
       bindM (do_http env (login_request vc jwt)) (\<lambda>out.
       case out of
         HttpFailed e \<Rightarrow> raiseM (VaultUnavailableError
           (''Failed to reach Vault Kubernetes auth endpoint at '' @ login_url vc @ '': '' @ e))
       | HttpResponse st text \<Rightarrow>
           if st \<noteq> 200 then
             raiseM (VaultUnavailableError
               (''Vault Kubernetes auth login returned '' @ int_text st @ '' for role ''
                 @ squoted (opt_text (va_role vc)) @ '': '' @ take 200 text))
           else
             bindM (liftM (or_unavailable ''Unexpected response shape from Vault Kubernetes auth login: ''
               (login_payload env text))) (\<lambda>(client_token, lease_duration).
             bindM (liftM (num_or_raise ''<='' lease_duration)) (\<lambda>lease.
             if lease \<le> 0 then returnM (client_token, None)
             else
               bindM (time_time env) (\<lambda>now.
               returnM (client_token, Some (now + max (lease - va_refresh_buffer vc) 1)))))))))"

definition ensure_kubernetes_token :: "env \<Rightarrow> ('s world_scheme, pyval) pym" where
  "ensure_kubernetes_token env =
     bindM (getM vault) (\<lambda>v.
     bindM (if py_truthy (va_k8s_token v)
            then bindM (time_time env) (\<lambda>now.
                   returnM (case va_k8s_expires v of None \<Rightarrow> True | Some e \<Rightarrow> now < e))
            else returnM False) (\<lambda>fresh.
     if fresh then returnM (va_k8s_token v)
     else
       bindM (login_kubernetes env) (\<lambda>(tok, expires).
       bindM (modifyM (\<lambda>w. w\<lparr>vault := (vault w)\<lparr>va_k8s_token := tok, va_k8s_expires := expires\<rparr>\<rparr>)) (\<lambda>_.
       returnM tok))))"

definition resolve_token :: "env \<Rightarrow> ('s world_scheme, pyval) pym" where
  "resolve_token env =
     (if va_auth_method (env_vault env) = ''kubernetes'' then ensure_kubernetes_token env
      else returnM (opt_str (va_token (env_vault env))))"

definition fetch_secret :: "env \<Rightarrow> string \<Rightarrow> ('s world_scheme, pyval) pym" where
  "fetch_secret env path =
     (let vc = env_vault env in
     bindM (resolve_token env) (\<lambda>tok.
     bindM (do_http env (secret_request vc path tok)) (\<lambda>out.
     case out of
       HttpFailed e \<Rightarrow> raiseM (VaultUnavailableError
         (''Failed to reach Vault at '' @ opt_text (va_addr vc) @ '': '' @ e))
     | HttpResponse st text \<Rightarrow>
         if st \<noteq> 200 then
           raiseM (VaultUnavailableError
             (''Vault returned '' @ int_text st @ '' for '' @ squoted path @ '': '' @ take 200 text))
         else
           bindM (liftM (or_unavailable (''Unexpected response shape from Vault for '' @ squoted path @ '': '')
             (secret_payload env text))) (\<lambda>data.
           bindM (time_time env) (\<lambda>now.
           bindM (modifyM (\<lambda>w. w\<lparr>vault := (vault w)\<lparr>va_cache :=
                     AList.update path (now, data) (va_cache (vault w))\<rparr>\<rparr>)) (\<lambda>_.
           returnM data))))))"

definition get_secret :: "env \<Rightarrow> string \<Rightarrow> ('s world_scheme, pyval) pym" where
  "get_secret env path =
     (let vc = env_vault env in
      if \<not> is_configured vc then
        raiseM (VaultUnavailableError
          (if va_auth_method vc = ''kubernetes''
           then ''Vault is not configured (VAULT_ADDR/VAULT_K8S_ROLE not set)''
           else ''Vault is not configured (VAULT_ADDR/VAULT_TOKEN not set)''))
      else
        bindM (getM (\<lambda>w. map_of (va_cache (vault w)) path)) (\<lambda>cached.
        case cached of
          None \<Rightarrow> fetch_secret env path
        | Some (fetched_at, data) \<Rightarrow>
            bindM (time_time env) (\<lambda>now.
            if now - fetched_at < va_cache_ttl vc then returnM data else fetch_secret env path)))"

definition invalidate :: "string option \<Rightarrow> ('s world_scheme, unit) pym" where
  "invalidate path =
     modifyM (\<lambda>w. w\<lparr>vault :=
       (case path of
          None \<Rightarrow> (vault w)\<lparr>va_cache := [], va_k8s_token := PNone, va_k8s_expires := Some 0\<rparr>
        | Some p \<Rightarrow> (vault w)\<lparr>va_cache := AList.delete p (va_cache (vault w))\<rparr>)\<rparr>)"

text \<open>\<open>s.partition("#")\<close>: what precedes the first separator and what follows it.\<close>

definition partition_hash :: "string \<Rightarrow> string \<times> string" where
  "partition_hash s = (takeWhile (\<lambda>c. c \<noteq> CHR ''#'') s, drop 1 (dropWhile (\<lambda>c. c \<noteq> CHR ''#'') s))"

definition resolve_vault_ref :: "env \<Rightarrow> pyval \<Rightarrow> string option \<Rightarrow> ('s world_scheme, pyval) pym" where
  "resolve_vault_ref env value default_field =
     (if \<not> py_truthy value then returnM value
      else
        case value of
          PStr s \<Rightarrow>
            if \<not> startswith s ''vault:'' then returnM value
            else
              (case partition_hash (drop 6 s) of (path, field0) \<Rightarrow>
                 let field = (if field0 \<noteq> [] then field0
                              else (case default_field of None \<Rightarrow> [] | Some f \<Rightarrow> f)) in
                 if field = [] then
                   raiseM (VaultUnavailableError
                     (''vault: reference '' @ squoted s @ '' has no field and no default field applies''))
                 else
                   bindM (get_secret env path) (\<lambda>secret.
                   bindM (liftM (py_in field secret)) (\<lambda>present.
                   if \<not> present then
                     raiseM (VaultUnavailableError
                       (''Vault secret at '' @ squoted path @ '' has no field '' @ squoted field))
                   else liftM (py_item secret field))))
        | v \<Rightarrow> raiseM (attr_error v ''startswith''))"


section \<open>What the client leaves alone\<close>

interpretation vcache: state_preorder
  "\<lambda>w w' :: 's world_scheme. va_cache (vault w') = va_cache (vault w)"
  by unfold_locales auto

text \<open>Reading a secret changes the tick, the trace and the client, and extends the trace.\<close>

definition outer_frame :: "'s world_scheme \<Rightarrow> 's world_scheme \<Rightarrow> bool" where
  "outer_frame w w' \<longleftrightarrow>
     tmpfiles w' = tmpfiles w \<and> world.more w' = world.more w \<and> tick w \<le> tick w'
     \<and> prefix (trace w) (trace w')"

interpretation outer: state_preorder outer_frame
  by unfold_locales (auto simp: outer_frame_def intro: prefix_order.trans)

lemma outer_primitives:
  "keeps outer_frame (time_time env)" "keeps outer_frame (do_http env req)"
  "keeps outer_frame (do_proc env cmd)" "keeps outer_frame (read_path env p)"
  "keeps outer_frame (next_tick)"
  by (simp_all add: keeps_def outer_frame_def)

lemma vcache_primitives:
  "keeps (\<lambda>w w'. va_cache (vault w') = va_cache (vault w)) (time_time env)"
  "keeps (\<lambda>w w'. va_cache (vault w') = va_cache (vault w)) (do_http env req)"
  "keeps (\<lambda>w w'. va_cache (vault w') = va_cache (vault w)) (read_path env p)"
  by (simp_all add: keeps_def)

lemma outer_vault_update: "keeps outer_frame (modifyM (\<lambda>w. w\<lparr>vault := f w\<rparr>))"
  by (simp add: keeps_def outer_frame_def)

lemma login_outer: "keeps outer_frame (login_kubernetes env)"
  unfolding login_kubernetes_def by (intro outer.keeps_rules keeps_cases outer_primitives)

lemma login_cache: "keeps (\<lambda>w w'. va_cache (vault w') = va_cache (vault w)) (login_kubernetes env)"
  unfolding login_kubernetes_def by (intro vcache.keeps_rules keeps_cases vcache_primitives)

lemma token_outer: "keeps outer_frame (ensure_kubernetes_token env)"
  unfolding ensure_kubernetes_token_def
  by (intro outer.keeps_rules keeps_cases outer_primitives outer_vault_update login_outer)

lemma token_cache: "keeps (\<lambda>w w'. va_cache (vault w') = va_cache (vault w)) (ensure_kubernetes_token env)"
  unfolding ensure_kubernetes_token_def
  by (intro vcache.keeps_rules keeps_cases vcache_primitives login_cache vcache.keeps_modify) simp

lemma fetch_outer: "keeps outer_frame (fetch_secret env path)"
  unfolding fetch_secret_def resolve_token_def
  by (intro outer.keeps_rules keeps_cases outer_primitives outer_vault_update token_outer)

lemma secret_outer: "keeps outer_frame (get_secret env path)"
  unfolding get_secret_def
  by (intro outer.keeps_rules keeps_cases outer_primitives fetch_outer)

lemma ref_outer: "keeps outer_frame (resolve_vault_ref env v d)"
  unfolding resolve_vault_ref_def
  by (intro outer.keeps_rules keeps_cases outer_primitives secret_outer)

lemma resolve_token_cache:
  "resolve_token env w = (r, w') \<Longrightarrow> va_cache (vault w') = va_cache (vault w)"
  unfolding resolve_token_def
  by (auto split: if_splits dest: vcache.keeps_run [OF token_cache])

section \<open>Failures\<close>

lemma json_loads_error: "json_loads fp s = Inl e \<Longrightarrow> e = JSONDecodeError"
  by (auto simp: json_loads_def split: option.splits prod.splits if_splits)

lemma py_item_error: "py_item v k = Inl e \<Longrightarrow> shape_error e"
  by (cases v) (auto simp: shape_error_def split: option.splits)

lemma secret_payload_error: "secret_payload env text = Inl e \<Longrightarrow> shape_error e"
  by (auto simp: secret_payload_def rbind_def shape_error_def split: sum.splits
      dest: json_loads_error dest!: py_item_error)

lemma login_payload_error: "login_payload env text = Inl e \<Longrightarrow> shape_error e"
  by (auto simp: login_payload_def rbind_def shape_error_def split: sum.splits
      dest: json_loads_error dest!: py_item_error)

definition is_unavailable :: "py_exn \<Rightarrow> bool" where
  "is_unavailable e = (case e of VaultUnavailableError _ \<Rightarrow> True | _ \<Rightarrow> False)"

lemma or_unavailable_error:
  "(\<And>e. r = Inl e \<Longrightarrow> shape_error e) \<Longrightarrow> or_unavailable msg r = Inl e \<Longrightarrow> is_unavailable e"
  by (cases r) (auto simp: or_unavailable_def is_unavailable_def)

text \<open>The one way a login raises something else: a lease duration that is not a number.\<close>

definition odd_lease :: "env \<Rightarrow> py_exn \<Rightarrow> bool" where
  "odd_lease env e \<longleftrightarrow>
     (\<exists>n req text tok lease. env_http env n req = HttpResponse 200 text
        \<and> login_payload env text = Inr (tok, lease) \<and> num_or_raise ''<='' lease = Inl e)"

lemma or_unavailable_Inr: "or_unavailable msg r = Inr x \<longleftrightarrow> r = Inr x"
  by (cases r) (auto simp: or_unavailable_def)

lemma login_error:
  assumes "login_kubernetes env w = (Inl e, w')"
  shows "is_unavailable e \<or> odd_lease env e"
proof -
  have lp: "or_unavailable m (login_payload env t) = Inl e \<Longrightarrow> is_unavailable e" for m t
    by (erule or_unavailable_error [rotated]) (rule login_payload_error)
  show ?thesis
    using assms
    by (auto simp: login_kubernetes_def Let_def bindM_run is_unavailable_def odd_lease_def
        or_unavailable_Inr raiseM_def
        split: file_read.splits if_splits http_out.splits sum.splits prod.splits
        dest: lp)
qed

lemma token_error:
  assumes "resolve_token env w = (Inl e, w')"
  shows "is_unavailable e \<or> va_auth_method (env_vault env) = ''kubernetes'' \<and> odd_lease env e"
  using assms
  by (auto simp: resolve_token_def ensure_kubernetes_token_def bindM_run
      split: if_splits sum.splits prod.splits dest: login_error)

text \<open>What a fetch that returns has done.\<close>

lemma fetch_secret_ok:
  assumes "fetch_secret env path w = (Inr data, w')"
  obtains tok w1 bt where "resolve_token env w = (Inr tok, w1)"
    "env_http env (tick w1) (secret_request (env_vault env) path tok) = HttpResponse 200 bt"
    "secret_payload env bt = Inr data"
    "trace w' = trace w1 @ [HttpEffect (secret_request (env_vault env) path tok)]"
    "va_cache (vault w') = AList.update path (env_clock env (tick w1 + 1), data) (va_cache (vault w))"
proof -
  obtain tok w1 where t: "resolve_token env w = (Inr tok, w1)"
    using assms by (auto simp: fetch_secret_def Let_def bindM_run split: prod.splits sum.splits)
  have c: "va_cache (vault w1) = va_cache (vault w)" by (rule resolve_token_cache [OF t])
  have "\<exists>bt. env_http env (tick w1) (secret_request (env_vault env) path tok) = HttpResponse 200 bt
      \<and> secret_payload env bt = Inr data
      \<and> trace w' = trace w1 @ [HttpEffect (secret_request (env_vault env) path tok)]
      \<and> va_cache (vault w') = AList.update path (env_clock env (tick w1 + 1), data) (va_cache (vault w))"
    using assms t c
    by (auto simp: fetch_secret_def Let_def bindM_run raiseM_def or_unavailable_Inr
        split: http_out.splits if_splits sum.splits)
  then show ?thesis using that t by blast
qed


text \<open>
  C16. A secret that is returned is never stale: it is either the cached one, still younger than the
  cache lifetime at the time of the call and without any request, or the \<open>data.data\<close> of a response
  with status 200 to the last request the call made, stored with the time of its arrival.
\<close>

theorem get_secret_fresh:
  assumes "get_secret env path w = (Inr data, w')"
  shows "(\<exists>fetched. map_of (va_cache (vault w)) path = Some (fetched, data)
            \<and> env_clock env (tick w) - fetched < va_cache_ttl (env_vault env)
            \<and> trace w' = trace w \<and> vault w' = vault w)
    \<or> (\<exists>tok n body. last (trace w') = HttpEffect (secret_request (env_vault env) path tok)
            \<and> length (trace w) < length (trace w')
            \<and> env_http env n (secret_request (env_vault env) path tok) = HttpResponse 200 body
            \<and> secret_payload env body = Inr data
            \<and> map_of (va_cache (vault w')) path = Some (env_clock env (n + 1), data))"
proof -
  have fetch: "?thesis" if f: "fetch_secret env path u = (Inr data, w')" and u: "trace u = trace w" for u
  proof -
    obtain tok w1 body where *: "resolve_token env u = (Inr tok, w1)"
      "env_http env (tick w1) (secret_request (env_vault env) path tok) = HttpResponse 200 body"
      "secret_payload env body = Inr data"
      "trace w' = trace w1 @ [HttpEffect (secret_request (env_vault env) path tok)]"
      "va_cache (vault w') = AList.update path (env_clock env (tick w1 + 1), data) (va_cache (vault u))"
      by (rule fetch_secret_ok [OF f])
    have "prefix (trace w) (trace w1)"
      using outer.keeps_run [OF token_outer, of env u] *(1) u
      by (auto simp: resolve_token_def outer_frame_def split: if_splits)
    then have "length (trace w) < length (trace w')" using *(4) by (auto dest: prefix_length_le)
    then show ?thesis using * by fastforce
  qed
  show ?thesis
  proof (cases "map_of (va_cache (vault w)) path")
    case None
    then have "fetch_secret env path w = (Inr data, w')"
      using assms by (simp add: get_secret_def Let_def raiseM_def split: if_splits)
    then show ?thesis by (rule fetch) simp
  next
    case (Some c)
    obtain fetched d where c: "c = (fetched, d)" by (cases c)
    show ?thesis
    proof (cases "env_clock env (tick w) - fetched < va_cache_ttl (env_vault env)")
      case True
      then show ?thesis
        using assms Some c by (auto simp: get_secret_def Let_def raiseM_def bindM_run split: if_splits)
    next
      case False
      then have "fetch_secret env path (w\<lparr>tick := Suc (tick w)\<rparr>) = (Inr data, w')"
        using assms Some c by (auto simp: get_secret_def Let_def raiseM_def bindM_run split: if_splits)
      then show ?thesis by (rule fetch) simp
    qed
  qed
qed

theorem get_secret_fresh_witness:
  "let e = example_env\<lparr>env_http := \<lambda>n req. HttpResponse 200 (json_dumps (\<lambda>q. [])
             (PDict [(''data'', PDict [(''data'', PDict [(''key'', PStr ''s3cret'')])])]))\<rparr>
   in map_of (va_cache (vault (snd (get_secret e ''secret/data/x'' example_world)))) ''secret/data/x''
        = Some (1, PDict [(''key'', PStr ''s3cret'')])"
proof -
  define txt1 where "txt1 = json_dumps (\<lambda>q. [])
    (PDict [(''data'', PDict [(''data'', PDict [(''key'', PStr ''s3cret'')])])])"
  define e where "e = example_env\<lparr>env_http := \<lambda>n req. HttpResponse 200 txt1\<rparr>"
  have l: "json_loads fp txt1 = Inr (PDict [(''data'', PDict [(''data'', PDict [(''key'', PStr ''s3cret'')])])])" for fp
    unfolding txt1_def by (rule json_loads_dumps) simp
  have pl: "secret_payload e txt1 = Inr (PDict [(''key'', PStr ''s3cret'')])"
    by (simp add: secret_payload_def l)
  obtain w' where g: "get_secret e ''secret/data/x'' example_world = (Inr (PDict [(''key'', PStr ''s3cret'')]), w')"
    and t: "trace w' = [HttpEffect (secret_request (env_vault e) ''secret/data/x'' (PStr ''t''))]"
      "map_of (va_cache (vault w')) ''secret/data/x'' = Some (1, PDict [(''key'', PStr ''s3cret'')])"
    using pl by (simp add: get_secret_def fetch_secret_def resolve_token_def is_configured_def opt_true_def
        e_def example_simps bindM_run or_unavailable_def opt_str_def Let_def)
  from get_secret_fresh [OF g] t show ?thesis
    unfolding txt1_def [symmetric] Let_def e_def [symmetric] by (simp add: g)
qed

text \<open>
  C23. Failures stay inside the fail-closed contract and never touch the cache: whatever a call raises
  is \<open>VaultUnavailableError\<close>, with the one exception of a Kubernetes login answered with a lease
  duration that is not a number, whose \<open>TypeError\<close> escapes.
\<close>

theorem get_secret_fails_closed:
  assumes "get_secret env path w = (Inl e, w')"
  shows "va_cache (vault w') = va_cache (vault w)
    \<and> (is_unavailable e
        \<or> va_auth_method (env_vault env) = ''kubernetes'' \<and> odd_lease env e)"
proof -
  have fetch: "va_cache (vault w') = va_cache (vault u) \<and> (is_unavailable e
        \<or> va_auth_method (env_vault env) = ''kubernetes'' \<and> odd_lease env e)"
    if f: "fetch_secret env path u = (Inl e, w')" for u
  proof -
    have lp: "or_unavailable m (secret_payload env t) = Inl e \<Longrightarrow> is_unavailable e" for m t
      by (erule or_unavailable_error [rotated]) (rule secret_payload_error)
    obtain r w1 where t: "resolve_token env u = (r, w1)" by (cases "resolve_token env u")
    have "va_cache (vault w1) = va_cache (vault u)" by (rule resolve_token_cache [OF t])
    then show ?thesis
      using f t token_error [of env u e w1]
      by (auto simp: fetch_secret_def Let_def bindM_run raiseM_def is_unavailable_def
          split: http_out.splits if_splits sum.splits dest: lp)
  qed
  show ?thesis
  proof (cases "map_of (va_cache (vault w)) path")
    case None
    then show ?thesis
      using assms fetch [of w]
      by (auto simp: get_secret_def Let_def raiseM_def is_unavailable_def split: if_splits)
  next
    case (Some c)
    then show ?thesis
      using assms fetch [of "w\<lparr>tick := Suc (tick w)\<rparr>"] by (cases c)
        (auto simp: get_secret_def Let_def raiseM_def bindM_run is_unavailable_def split: if_splits)
  qed
qed

theorem get_secret_fails_closed_witness:
  "fst (get_secret example_env ''secret/data/x'' example_world)
     = Inl (VaultUnavailableError ''Failed to reach Vault at https://vault:8200: unreachable'')
   \<and> va_cache (vault (snd (get_secret example_env ''secret/data/x'' example_world))) = []"
proof -
  obtain w' where g: "get_secret example_env ''secret/data/x'' example_world
      = (Inl (VaultUnavailableError ''Failed to reach Vault at https://vault:8200: unreachable''), w')"
    by (simp add: get_secret_def fetch_secret_def resolve_token_def is_configured_def opt_true_def
        example_simps bindM_run opt_text_def Let_def raiseM_def)
  from get_secret_fails_closed [OF g] show ?thesis by (simp add: g) (simp add: example_simps)
qed

lemma login_ok:
  assumes "login_kubernetes env u = (Inr (tok, expires), w1)"
  obtains jwt bt lease l where "jwt \<noteq> []"
    "env_http env (tick u + 1) (login_request (env_vault env) jwt) = HttpResponse 200 bt"
    "login_payload env bt = Inr (tok, lease)" "py_num lease = Some l"
    "trace w1 = trace u @ [HttpEffect (login_request (env_vault env) jwt)]" "vault w1 = vault u"
    "expires = (if l \<le> 0 then None
       else Some (env_clock env (tick u + 2) + max (l - va_refresh_buffer (env_vault env)) 1))"
proof -
  have nr: "num_or_raise ''<='' v = Inr q \<longleftrightarrow> py_num v = Some q" for v q
    by (simp add: num_or_raise_def split: option.split)
  obtain f where f: "(case map_of (tmpfiles u) (va_jwt_path (env_vault env)) of
        Some t \<Rightarrow> Contents t | None \<Rightarrow> env_file env (tick u) (va_jwt_path (env_vault env))) = Contents f"
    and ne: "strip f \<noteq> []"
    using assms by (auto simp: login_kubernetes_def Let_def bindM_run raiseM_def
        split: file_read.splits if_splits)
  let ?req = "login_request (env_vault env) (strip f)"
  obtain bt where bt: "env_http env (tick u + 1) ?req = HttpResponse 200 bt"
    using assms f ne by (auto simp: login_kubernetes_def Let_def bindM_run raiseM_def
        split: http_out.splits if_splits)
  obtain tok' lease where p: "login_payload env bt = Inr (tok', lease)"
    using assms f ne bt by (auto simp: login_kubernetes_def Let_def bindM_run raiseM_def or_unavailable_Inr
        split: sum.splits)
  obtain l where l: "py_num lease = Some l"
    using assms f ne bt p
    by (auto simp: login_kubernetes_def Let_def bindM_run raiseM_def or_unavailable_def nr split: sum.splits)
  show ?thesis
    using assms f ne bt p l
    by (intro that [OF ne bt, of lease l])
      (auto simp: login_kubernetes_def Let_def bindM_run or_unavailable_def num_or_raise_def
        numeral_2_eq_2 split: if_splits)
qed

text \<open>
  C24. With Kubernetes authentication the token a request carries is never an expired one: it is the
  stored token before its deadline, used without a request, or the token of a login answered with
  200 just now, whose deadline is set before the end of the lease by the refresh buffer.
\<close>

theorem kubernetes_token_valid:
  assumes "va_auth_method (env_vault env) = ''kubernetes''"
    and "resolve_token env w = (Inr tok, w')"
  shows "(tok = va_k8s_token (vault w) \<and> trace w' = trace w \<and> vault w' = vault w
           \<and> (\<forall>d. va_k8s_expires (vault w) = Some d \<longrightarrow> env_clock env (tick w) < d))
    \<or> (\<exists>n jwt body lease l. jwt \<noteq> []
           \<and> trace w' = trace w @ [HttpEffect (login_request (env_vault env) jwt)]
           \<and> env_http env n (login_request (env_vault env) jwt) = HttpResponse 200 body
           \<and> login_payload env body = Inr (tok, lease) \<and> py_num lease = Some l
           \<and> vault w' = (vault w)\<lparr>va_k8s_token := tok,
                va_k8s_expires := (if l \<le> 0 then None
                  else Some (env_clock env (n + 1) + max (l - va_refresh_buffer (env_vault env)) 1))\<rparr>)"
proof (cases "py_truthy (va_k8s_token (vault w))
        \<and> (case va_k8s_expires (vault w) of None \<Rightarrow> True | Some e \<Rightarrow> env_clock env (tick w) < e)")
  case True
  then show ?thesis
    using assms by (auto simp: resolve_token_def ensure_kubernetes_token_def bindM_run)
next
  case False
  define u where "u = (if py_truthy (va_k8s_token (vault w)) then w\<lparr>tick := Suc (tick w)\<rparr> else w)"
  have u: "trace u = trace w" "vault u = vault w" by (simp_all add: u_def)
  obtain expires w1 where l: "login_kubernetes env u = (Inr (tok, expires), w1)"
    and w': "w' = w1\<lparr>vault := (vault w1)\<lparr>va_k8s_token := tok, va_k8s_expires := expires\<rparr>\<rparr>"
    using assms False
    by (auto simp: resolve_token_def ensure_kubernetes_token_def bindM_run u_def
        split: if_splits sum.splits prod.splits option.splits)
  from login_ok [OF l] obtain jwt bt lease q where "jwt \<noteq> []"
    "env_http env (tick u + 1) (login_request (env_vault env) jwt) = HttpResponse 200 bt"
    "login_payload env bt = Inr (tok, lease)" "py_num lease = Some q"
    "trace w1 = trace u @ [HttpEffect (login_request (env_vault env) jwt)]" "vault w1 = vault u"
    "expires = (if q \<le> 0 then None
       else Some (env_clock env (tick u + 2) + max (q - va_refresh_buffer (env_vault env)) 1))"
    by metis
  then show ?thesis
    unfolding w' using u
    by (intro disjI2 exI [of _ "tick u + 1"] exI [of _ jwt] exI [of _ bt] exI [of _ lease] exI [of _ q])
      (simp add: numeral_2_eq_2)
qed

theorem kubernetes_token_valid_witness:
  "let e = example_env\<lparr>env_vault := (env_vault example_env)\<lparr>va_auth_method := ''kubernetes''\<rparr>\<rparr>;
       w = example_world\<lparr>vault := \<lparr>va_cache = [], va_k8s_token = PStr ''k'', va_k8s_expires = Some 5\<rparr>\<rparr>
   in fst (resolve_token e w) = Inr (PStr ''k'') \<and> env_clock e (tick w) < 5"
proof -
  define e where "e = example_env\<lparr>env_vault := (env_vault example_env)\<lparr>va_auth_method := ''kubernetes''\<rparr>\<rparr>"
  define w where "w = example_world\<lparr>vault := \<lparr>va_cache = [], va_k8s_token = PStr ''k'', va_k8s_expires = Some 5\<rparr>\<rparr>"
  have m: "va_auth_method (env_vault e) = ''kubernetes''" by (simp add: e_def)
  have x: "va_k8s_token (vault w) = PStr ''k''" "va_k8s_expires (vault w) = Some 5" "env_clock e (tick w) < 5"
    by (simp_all add: w_def e_def example_simps)
  define w' where "w' = w\<lparr>tick := Suc (tick w)\<rparr>"
  have r: "resolve_token e w = (Inr (PStr ''k''), w')"
    using x by (simp add: resolve_token_def ensure_kubernetes_token_def bindM_run m w'_def)
  have "trace w' \<noteq> trace w @ [a]" for a by (simp add: w'_def)
  with kubernetes_token_valid [OF m r]
  have "\<forall>d. va_k8s_expires (vault w) = Some d \<longrightarrow> env_clock e (tick w) < d" by metis
  then have "env_clock e (tick w) < 5" using x(2) by blast
  then show ?thesis
    unfolding Let_def e_def [symmetric] w_def [symmetric] by (simp only: r fst_conv simp_thms)
qed

section \<open>References\<close>

lemma partition_hash_cases:
  "partition_hash s = (path, field) \<Longrightarrow>
     CHR ''#'' \<notin> set path \<and> (s = path @ ''#'' @ field \<or> s = path \<and> field = [])"
proof -
  assume p: "partition_hash s = (path, field)"
  then have path: "path = takeWhile (\<lambda>c. c \<noteq> CHR ''#'') s"
    and field: "field = drop 1 (dropWhile (\<lambda>c. c \<noteq> CHR ''#'') s)"
    by (simp_all add: partition_hash_def)
  define rest where "rest = dropWhile (\<lambda>c. c \<noteq> CHR ''#'') s"
  have 1: "CHR ''#'' \<notin> set path" using path by (auto dest: set_takeWhileD)
  have 2: "s = path @ rest" by (simp add: path rest_def)
  have 3: "field = drop 1 rest" using field by (simp only: rest_def)
  show ?thesis
  proof (cases rest)
    case Nil
    then show ?thesis using 1 2 3 by simp
  next
    case (Cons c cs)
    then have "c = CHR ''#''" unfolding rest_def by (metis (full_types) takeWhile_dropWhile_hd)
    then show ?thesis using 1 2 3 Cons by simp
  qed
qed

text \<open>
  C25. A \<open>vault:\<close> reference is never passed on unresolved: what comes back is the named field of
  the secret at the named path, read in this call, and any other string comes back as it is with
  nothing done.
\<close>

theorem vault_ref_resolved:
  assumes "resolve_vault_ref env (PStr ref) d w = (Inr v, w')"
  shows "if startswith ref ''vault:''
    then \<exists>path field secret. field \<noteq> [] \<and> CHR ''#'' \<notin> set path
           \<and> (ref = ''vault:'' @ path @ ''#'' @ field
               \<or> ref \<in> {''vault:'' @ path, ''vault:'' @ path @ ''#''} \<and> d = Some field)
           \<and> get_secret env path w = (Inr secret, w') \<and> py_item secret field = Inr v
    else v = PStr ref \<and> w' = w"
proof (cases "startswith ref ''vault:''")
  case False
  then show ?thesis using assms by (auto simp: resolve_vault_ref_def split: if_splits)
next
  case True
  then obtain s where s: "ref = ''vault:'' @ s" by (auto simp: startswith_def prefix_def)
  obtain path f where pf: "partition_hash s = (path, f)" by (cases "partition_hash s")
  define field where "field = (if f \<noteq> [] then f else (case d of None \<Rightarrow> [] | Some f \<Rightarrow> f))"
  have "resolve_vault_ref env (PStr ref) d w =
     (if field = [] then raiseM (VaultUnavailableError
         (''vault: reference '' @ squoted ref @ '' has no field and no default field applies'')) w
      else bindM (get_secret env path) (\<lambda>secret.
           bindM (liftM (py_in field secret)) (\<lambda>present.
           if \<not> present then
             raiseM (VaultUnavailableError (''Vault secret at '' @ squoted path @ '' has no field '' @ squoted field))
           else liftM (py_item secret field))) w)"
    using True pf unfolding field_def by (cases "f = []") (simp_all add: resolve_vault_ref_def s Let_def)
  then have "field \<noteq> []" "\<exists>secret. get_secret env path w = (Inr secret, w') \<and> py_item secret field = Inr v"
    using assms by (auto simp: bindM_run raiseM_def split: if_splits prod.splits sum.splits)
  moreover from this have "s = path @ ''#'' @ field \<or> s \<in> {path, path @ ''#''} \<and> d = Some field"
    using partition_hash_cases [OF pf] by (auto simp: field_def split: if_splits option.splits)
  ultimately show ?thesis using True partition_hash_cases [OF pf] by (simp add: s) blast
qed

theorem vault_ref_resolved_witness:
  "resolve_vault_ref example_env (PStr ''/etc/ssh/key'') None example_world = (Inr (PStr ''/etc/ssh/key''), example_world)"
proof -
  obtain v w' where r: "resolve_vault_ref example_env (PStr ''/etc/ssh/key'') None example_world = (Inr v, w')"
    by (simp add: resolve_vault_ref_def startswith_def)
  from vault_ref_resolved [OF this] show ?thesis by (simp add: r startswith_def)
qed

end
