(* ===== verification/Auth.thy ===== *)
theory Auth
  imports Vault
begin

text \<open>
  \<open>src/auth.py\<close>: the API-key middleware, the scope of a key and the permissions of a role. Every
  call reads \<open>config/auth.yaml\<close> again, and through \<open>vault_path\<close> the key map from Vault, so two
  calls of one request may see different maps.
\<close>

record response =
  rs_status :: int
  rs_content :: pyval
  rs_headers :: "(string \<times> string) list"

definition PUBLIC_PATHS :: "string list" where
  "PUBLIC_PATHS = [''/health'', ''/live'', ''/ready'']"

definition load_auth_config :: "env \<Rightarrow> ('s world_scheme, pyval) pym" where
  "load_auth_config env = bindM next_tick (\<lambda>n. liftM (env_auth_yaml env n))"

text \<open>\<open>vault_client.get_secret\<close> on a path that need not be a string.\<close>

definition get_secret_val :: "env \<Rightarrow> pyval \<Rightarrow> ('s world_scheme, pyval) pym" where
  "get_secret_val env path =
     (case path of
        PStr s \<Rightarrow> get_secret env s
      | v \<Rightarrow>
          if \<not> is_configured (env_vault env) then get_secret env []
          else if \<not> py_hashable v then raiseM (unhashable v)
          else raiseM (attr_error v ''lstrip''))"

definition resolve_api_keys :: "env \<Rightarrow> pyval \<Rightarrow> ('s world_scheme, pyval) pym" where
  "resolve_api_keys env config =
     bindM (liftM (py_get config ''api_keys'')) (\<lambda>v.
     let api_keys = py_or v (PDict []) in
     bindM (if py_is_dict api_keys then liftM (py_get api_keys ''vault_path'') else returnM PNone)
       (\<lambda>vault_path.
     if \<not> py_truthy vault_path then returnM api_keys
     else catchM (get_secret_val env vault_path)
            (\<lambda>e. case e of VaultUnavailableError _ \<Rightarrow> returnM (PDict []) | _ \<Rightarrow> raiseM e)))"

definition py_keys :: "pyval \<Rightarrow> string list result" where
  "py_keys v = (case v of PDict d \<Rightarrow> Inr (map fst d) | _ \<Rightarrow> Inl (attr_error v ''keys''))"

definition get_valid_api_keys :: "env \<Rightarrow> ('s world_scheme, string list) pym" where
  "get_valid_api_keys env =
     bindM (load_auth_config env) (\<lambda>config.
     bindM (resolve_api_keys env config) (\<lambda>keys. liftM (py_keys keys)))"

definition unauthorized :: response where
  "unauthorized = \<lparr>rs_status = 401, rs_content = PDict [(''detail'', PStr ''Unauthorized'')], rs_headers = []\<rparr>"

definition dispatch ::
  "env \<Rightarrow> string \<Rightarrow> string option \<Rightarrow> ('s world_scheme, response) pym \<Rightarrow> ('s world_scheme, response) pym"
where
  "dispatch env path api_key call_next =
     (if path \<in> set PUBLIC_PATHS then call_next
      else
        bindM (get_valid_api_keys env) (\<lambda>valid.
        if \<not> opt_true api_key \<or> the api_key \<notin> set valid then returnM unauthorized
        else call_next))"

record key_scope =
  ks_role :: pyval
  ks_allowed_actions :: pyval
  ks_allowed_controllers :: pyval

definition normalize_key_entry :: "pyval \<Rightarrow> key_scope" where
  "normalize_key_entry entry =
     (case entry of
        PStr r \<Rightarrow> \<lparr>ks_role = PStr r, ks_allowed_actions = PNone, ks_allowed_controllers = PNone\<rparr>
      | PDict d \<Rightarrow> \<lparr>ks_role = dget d ''role'', ks_allowed_actions = dget d ''allowed_actions'',
                  ks_allowed_controllers = dget d ''allowed_controllers''\<rparr>
      | _ \<Rightarrow> \<lparr>ks_role = PNone, ks_allowed_actions = PNone, ks_allowed_controllers = PNone\<rparr>)"

definition get_key_scope :: "env \<Rightarrow> pyval \<Rightarrow> ('s world_scheme, key_scope) pym" where
  "get_key_scope env api_key =
     bindM (load_auth_config env) (\<lambda>config.
     bindM (resolve_api_keys env config) (\<lambda>keys.
     bindM (liftM (py_get_key keys api_key PNone)) (\<lambda>entry.
     returnM (normalize_key_entry entry))))"

definition get_role_from_api_key :: "env \<Rightarrow> pyval \<Rightarrow> ('s world_scheme, pyval) pym" where
  "get_role_from_api_key env api_key =
     bindM (get_key_scope env api_key) (\<lambda>scope. returnM (ks_role scope))"

text \<open>\<open>allowed is None or x in allowed\<close>.\<close>

definition scope_allows :: "pyval \<Rightarrow> pyval \<Rightarrow> bool result" where
  "scope_allows allowed x = (if allowed = PNone then Inr True else py_in_val x allowed)"

definition is_action_allowed_for_key :: "env \<Rightarrow> pyval \<Rightarrow> pyval \<Rightarrow> ('s world_scheme, bool) pym" where
  "is_action_allowed_for_key env api_key event_type =
     bindM (get_key_scope env api_key) (\<lambda>scope.
     liftM (scope_allows (ks_allowed_actions scope) event_type))"

definition is_controller_allowed_for_key :: "env \<Rightarrow> pyval \<Rightarrow> pyval \<Rightarrow> ('s world_scheme, bool) pym" where
  "is_controller_allowed_for_key env api_key controller_name =
     bindM (get_key_scope env api_key) (\<lambda>scope.
     liftM (scope_allows (ks_allowed_controllers scope) controller_name))"

text \<open>The loop over the permissions of a role.\<close>

fun find_permission :: "string \<Rightarrow> pyval list \<Rightarrow> pyval" where
  "find_permission permission [] = PBool False"
| "find_permission permission (perm # perms) =
     (case perm of
        PDict d \<Rightarrow> (case map_of d permission of Some v \<Rightarrow> v | None \<Rightarrow> find_permission permission perms)
      | _ \<Rightarrow> if perm = PStr permission then PBool True else find_permission permission perms)"

definition permission_in :: "pyval \<Rightarrow> pyval \<Rightarrow> string \<Rightarrow> pyval result" where
  "permission_in config role permission =
     rbind (py_item config ''roles'') (\<lambda>roles.
     rbind (py_get_key roles role (PDict [])) (\<lambda>entry.
     rbind (py_get_or entry ''permissions'' (PList [])) (\<lambda>perms.
     rbind (py_iter perms) (\<lambda>role_perms.
     Inr (find_permission permission role_perms)))))"

definition has_permission :: "env \<Rightarrow> pyval \<Rightarrow> string \<Rightarrow> ('s world_scheme, pyval) pym" where
  "has_permission env role permission =
     bindM (load_auth_config env) (\<lambda>config. liftM (permission_in config role permission))"

section \<open>What reading the key map does to the state\<close>

lemma auth_config_outer: "keeps outer_frame (load_auth_config env)"
  unfolding load_auth_config_def by (intro outer.keeps_rules outer_primitives)

lemma secret_val_outer: "keeps outer_frame (get_secret_val env p)"
  unfolding get_secret_val_def by (intro outer.keeps_rules keeps_cases secret_outer)

lemma api_keys_outer: "keeps outer_frame (resolve_api_keys env config)"
  unfolding resolve_api_keys_def
  by (intro outer.keeps_rules keeps_cases secret_val_outer py_exn_case_keeps)

lemma valid_keys_outer: "keeps outer_frame (get_valid_api_keys env)"
  unfolding get_valid_api_keys_def by (intro outer.keeps_rules auth_config_outer api_keys_outer)

lemma key_scope_outer: "keeps outer_frame (get_key_scope env k)"
  unfolding get_key_scope_def by (intro outer.keeps_rules auth_config_outer api_keys_outer)

lemmas auth_outer = auth_config_outer secret_val_outer api_keys_outer valid_keys_outer key_scope_outer

lemma role_outer: "keeps outer_frame (get_role_from_api_key env k)"
  unfolding get_role_from_api_key_def by (intro outer.keeps_rules auth_outer)

lemma action_allowed_outer: "keeps outer_frame (is_action_allowed_for_key env k a)"
  unfolding is_action_allowed_for_key_def by (intro outer.keeps_rules auth_outer)

lemma controller_allowed_outer: "keeps outer_frame (is_controller_allowed_for_key env k c)"
  unfolding is_controller_allowed_for_key_def by (intro outer.keeps_rules auth_outer)

lemma has_permission_outer: "keeps outer_frame (has_permission env r p)"
  unfolding has_permission_def by (intro outer.keeps_rules auth_outer)

lemmas guard_outer = role_outer action_allowed_outer controller_allowed_outer has_permission_outer

section \<open>Properties\<close>

text \<open>The key map a request sees: one reading of the configuration, one resolution.\<close>

definition api_key_map :: "env \<Rightarrow> ('s world_scheme, pyval) pym" where
  "api_key_map env = bindM (load_auth_config env) (\<lambda>config. resolve_api_keys env config)"

lemma valid_keys_map:
  "get_valid_api_keys env w =
     (case api_key_map env w of
        (Inl e, w') \<Rightarrow> (Inl e, w')
      | (Inr m, w') \<Rightarrow> (py_keys m, w'))"
  by (simp add: get_valid_api_keys_def api_key_map_def bindM_run split: prod.split sum.split)

lemma key_scope_map:
  "get_key_scope env k w =
     (case api_key_map env w of
        (Inl e, w') \<Rightarrow> (Inl e, w')
      | (Inr m, w') \<Rightarrow> (case py_get_key m k PNone of
                         Inl e \<Rightarrow> (Inl e, w')
                       | Inr entry \<Rightarrow> (Inr (normalize_key_entry entry), w')))"
  by (simp add: get_key_scope_def api_key_map_def bindM_run split: prod.split sum.split)

lemma api_key_map_outer: "keeps outer_frame (api_key_map env)"
  unfolding api_key_map_def by (intro outer.keeps_rules auth_outer)

text \<open>
  C7. Nothing but the probes is served without a key: on any other path the handler runs only when
  the request carries a non-empty key that is in the key map resolved in this very request, and in
  the state that resolution left; otherwise the answer is 401 or the error of the resolution and
  the handler has had no effect.
\<close>

theorem handler_needs_valid_key:
  assumes "path \<notin> set PUBLIC_PATHS" and run: "dispatch env path api_key handler w = (r, w')"
  shows "(\<exists>k d w1. api_key = Some k \<and> k \<noteq> [] \<and> api_key_map env w = (Inr (PDict d), w1)
             \<and> k \<in> set (map fst d) \<and> outer_frame w w1 \<and> handler w1 = (r, w'))
    \<or> ((r = Inr unauthorized \<or> (\<exists>e. r = Inl e)) \<and> outer_frame w w'
         \<and> (\<forall>handler'. dispatch env path api_key handler' w = (r, w')))"
proof -
  obtain m w1 where m: "api_key_map env w = (m, w1)" by (cases "api_key_map env w")
  have f: "outer_frame w w1" by (rule outer.keeps_run [OF api_key_map_outer m])
  have dis: "dispatch env path api_key h w =
      (case m of
         Inl e \<Rightarrow> (Inl e, w1)
       | Inr v \<Rightarrow> (case py_keys v of
           Inl e \<Rightarrow> (Inl e, w1)
         | Inr ks \<Rightarrow>
             if \<not> opt_true api_key \<or> the api_key \<notin> set ks then (Inr unauthorized, w1) else h w1))" for h
    using assms(1) by (simp add: dispatch_def bindM_run valid_keys_map m split: sum.split)
  have "(\<exists>d. v = PDict d \<and> ks = map fst d)" if "py_keys v = Inr ks" for v ks
    using that by (auto simp: py_keys_def split: pyval.splits)
  then show ?thesis
    using run m f unfolding dis opt_true_def
    by (fastforce split: sum.splits if_splits)
qed

text \<open>
  When the key map comes from Vault and Vault cannot serve it, every request off the probe
  paths is answered 401, whatever key it carries.
\<close>

theorem vault_outage_rejects_all:
  assumes "path \<notin> set PUBLIC_PATHS"
    and "env_auth_yaml env (tick w) = Inr (PDict conf)"
    and "dget conf ''api_keys'' = PDict keys" "dget keys ''vault_path'' = PStr p" "p \<noteq> []"
    and "get_secret env p (w\<lparr>tick := Suc (tick w)\<rparr>) = (Inl e, w1)" "is_unavailable e"
  shows "dispatch env path api_key handler w = (Inr unauthorized, w1)"
proof -
  have ne: "keys \<noteq> []" using assms(4,5) by (auto simp: dget_def)
  obtain m where e: "e = VaultUnavailableError m"
    using assms(7) by (auto simp: is_unavailable_def split: py_exn.splits)
  have "api_key_map env w = (Inr (PDict []), w1)"
    using assms(2-6) ne
    by (simp add: api_key_map_def load_auth_config_def resolve_api_keys_def bindM_run catchM_def
        py_or_def py_is_dict_def get_secret_val_def e Let_def del: py_get_or.simps)
  then show ?thesis
    using assms(1) by (simp add: dispatch_def bindM_run valid_keys_map py_keys_def)
qed


text \<open>
  C26. What the scope of a key means: a key mapped to a role name, or to an entry without the list,
  may do everything its role may; a list allows exactly its members, so the empty list denies; and
  a key that is not in the map at all is not restricted.
\<close>

theorem action_scope_meaning:
  assumes "api_key_map env w = (Inr (PDict d), w')"
  shows "is_action_allowed_for_key env (PStr k) (PStr a) w =
    ((case map_of d k of
        None \<Rightarrow> Inr True
      | Some (PDict entry) \<Rightarrow>
          (case dget entry ''allowed_actions'' of
             PNone \<Rightarrow> Inr True
           | PList xs \<Rightarrow> Inr (PStr a \<in> set xs)
           | v \<Rightarrow> py_in a v)
      | Some _ \<Rightarrow> Inr True), w')"
  using assms
  by (simp add: is_action_allowed_for_key_def bindM_run key_scope_map normalize_key_entry_def
      scope_allows_def py_in_val_def split: option.split pyval.split)

theorem action_scope_meaning_witness:
  "let e = example_env\<lparr>env_auth_yaml := \<lambda>n. Inr (PDict [(''api_keys'', PDict
         [(''k1'', PDict [(''role'', PStr ''operator''), (''allowed_actions'', PList [PStr ''restart''])])])])\<rparr>
   in fst (is_action_allowed_for_key e (PStr ''k1'') (PStr ''reboot'') example_world) = Inr False"
proof -
  define ks where "ks = [(''k1'', PDict [(''role'', PStr ''operator''), (''allowed_actions'', PList [PStr ''restart''])])]"
  define e where "e = example_env\<lparr>env_auth_yaml := \<lambda>n. Inr (PDict [(''api_keys'', PDict ks)])\<rparr>"
  have "api_key_map e example_world = (Inr (PDict ks), example_world\<lparr>tick := 1\<rparr>)"
    by (simp add: api_key_map_def load_auth_config_def resolve_api_keys_def bindM_run e_def example_world_def
        py_or_def py_is_dict_def Let_def ks_def)
  from action_scope_meaning [OF this, of "''k1''" "''reboot''"] show ?thesis
    unfolding Let_def ks_def [symmetric] e_def [symmetric] by (simp add: ks_def dget_def)
qed

theorem vault_outage_rejects_all_witness:
  "let e = example_env\<lparr>env_auth_yaml := \<lambda>n. Inr (PDict
         [(''api_keys'', PDict [(''vault_path'', PStr ''secret/data/keys'')])])\<rparr>
   in fst (dispatch e ''/webhook'' (Some ''k1'') (returnM \<lparr>rs_status = 200, rs_content = PNone, rs_headers = []\<rparr>) example_world)
        = Inr unauthorized"
proof -
  define e where "e = example_env\<lparr>env_auth_yaml := \<lambda>n. Inr (PDict
         [(''api_keys'', PDict [(''vault_path'', PStr ''secret/data/keys'')])])\<rparr>"
  obtain w1 where g: "get_secret e ''secret/data/keys'' (example_world\<lparr>tick := Suc (tick example_world)\<rparr>)
      = (Inl (VaultUnavailableError ''Failed to reach Vault at https://vault:8200: unreachable''), w1)"
    by (simp add: get_secret_def fetch_secret_def resolve_token_def is_configured_def opt_true_def
        e_def example_simps bindM_run opt_text_def Let_def raiseM_def)
  have a: "env_auth_yaml e (tick example_world)
      = Inr (PDict [(''api_keys'', PDict [(''vault_path'', PStr ''secret/data/keys'')])])"
    by (simp add: e_def)
  have "dispatch e ''/webhook'' (Some ''k1'') (returnM \<lparr>rs_status = 200, rs_content = PNone, rs_headers = []\<rparr>) example_world
      = (Inr unauthorized, w1)"
    by (rule vault_outage_rejects_all [OF _ a, where keys = "[(''vault_path'', PStr ''secret/data/keys'')]",
          OF _ _ _ _ g]) (simp_all add: PUBLIC_PATHS_def dget_def is_unavailable_def)
  then show ?thesis unfolding Let_def e_def [symmetric] by (simp only: fst_conv)
qed

theorem handler_needs_valid_key_witness:
  "let e = example_env\<lparr>env_auth_yaml := \<lambda>n. Inr (PDict [(''api_keys'', PDict [(''k1'', PStr ''admin'')])])\<rparr>
   in dispatch e ''/webhook'' (Some ''k2'') (raiseM (OtherError ''handler'')) example_world
        = dispatch e ''/webhook'' (Some ''k2'') (returnM \<lparr>rs_status = 200, rs_content = PNone, rs_headers = []\<rparr>) example_world"
proof -
  define e where "e = example_env\<lparr>env_auth_yaml := \<lambda>n. Inr (PDict [(''api_keys'', PDict [(''k1'', PStr ''admin'')])])\<rparr>"
  have m: "api_key_map e example_world = (Inr (PDict [(''k1'', PStr ''admin'')]), example_world\<lparr>tick := 1\<rparr>)"
    by (simp add: api_key_map_def load_auth_config_def resolve_api_keys_def bindM_run e_def example_world_def
        py_or_def py_is_dict_def Let_def)
  obtain r w' where d: "dispatch e ''/webhook'' (Some ''k2'') (raiseM (OtherError ''handler'')) example_world = (r, w')"
    by (cases "dispatch e ''/webhook'' (Some ''k2'') (raiseM (OtherError ''handler'')) example_world")
  have p: "''/webhook'' \<notin> set PUBLIC_PATHS" by (simp add: PUBLIC_PATHS_def)
  from handler_needs_valid_key [OF p d]
  have "\<forall>handler'. dispatch e ''/webhook'' (Some ''k2'') handler' example_world = (r, w')"
    by (simp add: m)
  then show ?thesis unfolding Let_def e_def [symmetric] by (simp add: d)
qed

lemma find_permission_truthy:
  "py_truthy (find_permission p ps) \<Longrightarrow>
     PStr p \<in> set ps \<or> (\<exists>d v. PDict d \<in> set ps \<and> map_of d p = Some v \<and> py_truthy v)"
  by (induction ps) (auto split: pyval.splits option.splits if_splits)

text \<open>
  A permission is only ever granted by the configuration: when \<open>has_permission\<close> answers with a
  true value, the role has an entry under \<open>roles\<close> whose permissions name the permission, or map it
  to that true value; an unknown role, or none, has no permission.
\<close>

theorem permission_granted_by_config:
  assumes "has_permission env role p w = (Inr v, w')" "py_truthy v"
  shows "\<exists>conf roles r entry perms items. env_auth_yaml env (tick w) = Inr (PDict conf)
    \<and> dget conf ''roles'' = PDict roles \<and> role = PStr r \<and> map_of roles r = Some (PDict entry)
    \<and> map_of entry ''permissions'' = Some perms \<and> py_iter perms = Inr items
    \<and> (PStr p \<in> set items \<or> (\<exists>d u. PDict d \<in> set items \<and> map_of d p = Some u \<and> py_truthy u))"
proof -
  let ?c = "env_auth_yaml env (tick w)"
  have p: "rbind ?c (\<lambda>c. permission_in c role p) = Inr v"
    using assms(1) by (auto simp: has_permission_def load_auth_config_def bindM_run split: sum.splits)
  then obtain c roles entry perms items where c: "?c = Inr c" "py_item c ''roles'' = Inr roles"
    "py_get_key roles role (PDict []) = Inr entry"
    "py_get_or entry ''permissions'' (PList []) = Inr perms" "py_iter perms = Inr items"
    "v = find_permission p items"
    by (auto simp: permission_in_def rbind_eq_Inr)
  obtain conf where conf: "c = PDict conf" "dget conf ''roles'' = roles"
    using c(2) by (cases c) (auto simp: dget_def split: option.splits)
  have ne: "items \<noteq> []" using assms(2) c(6) by auto
  have e: "entry \<noteq> PDict []" using c(4,5) ne by auto
  obtain rs where rs: "roles = PDict rs" using c(3) by (cases roles) auto
  obtain r where r: "role = PStr r" "map_of rs r = Some entry"
    using c(3) e by (cases role) (auto simp: rs split: option.splits if_splits)
  obtain en where en: "entry = PDict en" using c(4) by (cases entry) auto
  have "map_of en ''permissions'' = Some perms" using c(4,5) ne by (auto simp: en split: option.splits)
  then show ?thesis
    using c conf rs r en find_permission_truthy [of p items] assms(2) by auto
qed

theorem permission_granted_by_config_witness:
  "let e = example_env\<lparr>env_auth_yaml := \<lambda>n. Inr (PDict [(''roles'', PDict
         [(''admin'', PDict [(''permissions'', PList [PStr ''execute_actions''])])])])\<rparr>
   in fst (has_permission e (PStr ''admin'') ''execute_actions'' example_world) = Inr (PBool True)
      \<and> (\<exists>conf roles entry. env_auth_yaml e 0 = Inr (PDict conf) \<and> dget conf ''roles'' = PDict roles
           \<and> map_of roles ''admin'' = Some (PDict entry))"
proof -
  define e where "e = example_env\<lparr>env_auth_yaml := \<lambda>n. Inr (PDict [(''roles'', PDict
         [(''admin'', PDict [(''permissions'', PList [PStr ''execute_actions''])])])])\<rparr>"
  obtain w' where h: "has_permission e (PStr ''admin'') ''execute_actions'' example_world = (Inr (PBool True), w')"
    by (simp add: has_permission_def load_auth_config_def bindM_run e_def permission_in_def)
  have t: "tick example_world = 0" by (simp add: example_world_def)
  from permission_granted_by_config [OF h] t h show ?thesis
    unfolding Let_def e_def [symmetric] by auto
qed

end
