(* ===== verification/Actions.thy ===== *)
theory Actions
  imports Auth
begin

text \<open>
  \<open>src/actions.py\<close> and the merge the application's start-up does with it: the configured actions,
  the controllers, and the actions discovered from the files of the \<open>playbooks\<close> and \<open>scripts\<close>
  directories. The module variable \<open>_merged_actions\<close> is the first argument of
  \<open>get_action_config\<close>.
\<close>

definition load_actions_config :: "env \<Rightarrow> ('s world_scheme, pyval) pym" where
  "load_actions_config env = bindM next_tick (\<lambda>n. liftM (env_actions_yaml env n))"

definition get_action_config :: "env \<Rightarrow> pyval option \<Rightarrow> pyval \<Rightarrow> ('s world_scheme, pyval) pym" where
  "get_action_config env merged action_name =
     (case merged of
        Some m \<Rightarrow> liftM (py_get_key m action_name PNone)
      | None \<Rightarrow>
          bindM (load_actions_config env) (\<lambda>config.
          liftM (rbind (py_item config ''actions'') (\<lambda>actions. py_get_key actions action_name PNone))))"

definition load_controllers_config :: "env \<Rightarrow> ('s world_scheme, pyval) pym" where
  "load_controllers_config env = bindM next_tick (\<lambda>n. liftM (env_controllers_yaml env n))"

definition get_controller_config :: "env \<Rightarrow> pyval \<Rightarrow> ('s world_scheme, pyval) pym" where
  "get_controller_config env controller_name =
     bindM (load_controllers_config env) (\<lambda>config.
     liftM (rbind (py_item config ''controllers'') (\<lambda>cs. py_get_key cs controller_name PNone)))"

text \<open>\<open>os.path.splitext(f)[0]\<close> of a file name: the last dot separates, unless only dots precede it.\<close>

definition splitext_root :: "string \<Rightarrow> string" where
  "splitext_root f =
     (let before = rev (drop 1 (dropWhile (\<lambda>c. c \<noteq> CHR ''.'') (rev f))) in
      if CHR ''.'' \<in> set f \<and> list_ex (\<lambda>c. c \<noteq> CHR ''.'') before then before else f)"

definition playbook_action :: "string \<Rightarrow> pyval" where
  "playbook_action fname =
     PDict [(''playbook'', PStr (''playbooks/'' @ fname)), (''default_controller'', PStr ''ansible_local'')]"

definition script_action :: "string \<Rightarrow> pyval" where
  "script_action fname =
     PDict [(''script'', PStr (''scripts/'' @ fname)), (''default_controller'', PStr ''local'')]"

definition discover_step ::
  "(string \<Rightarrow> bool) \<Rightarrow> (string \<Rightarrow> pyval) \<Rightarrow> string \<Rightarrow> pydict \<Rightarrow> pydict" where
  "discover_step keep entry fname actions =
     (if keep fname then AList.update (splitext_root fname) (entry fname) actions else actions)"

definition is_playbook :: "string \<Rightarrow> bool" where
  "is_playbook f \<longleftrightarrow> endswith f ''.yml'' \<or> endswith f ''.yaml''"

definition is_script :: "string \<Rightarrow> bool" where
  "is_script f \<longleftrightarrow> endswith f ''.sh'' \<or> endswith f ''.py''"

text \<open>The two listings are in the order \<open>os.listdir\<close> gives, which the documentation leaves open.\<close>

definition discover_actions :: "string list \<Rightarrow> string list \<Rightarrow> pydict" where
  "discover_actions playbooks scripts =
     fold (discover_step is_script script_action) scripts
       (fold (discover_step is_playbook playbook_action) playbooks [])"

text \<open>\<open>{**discovered, **config_actions.get("actions", {})}\<close> of the lifespan handler.\<close>

definition merge_actions :: "pydict \<Rightarrow> pyval \<Rightarrow> pyval result" where
  "merge_actions discovered config =
     rbind (py_get_or (py_or config (PDict [])) ''actions'' (PDict [])) (\<lambda>actions.
     case actions of
       PDict d \<Rightarrow> Inr (PDict (alist_merge (alist_merge [] discovered) d))
     | v \<Rightarrow> Inl (TypeError (squoted (py_type_name v) @ '' object is not a mapping'')))"

section \<open>Frame\<close>

lemma action_config_outer: "keeps outer_frame (get_action_config env m a)"
  unfolding get_action_config_def load_actions_config_def
  by (intro outer.keeps_rules keeps_cases outer_primitives)

lemma controller_config_outer: "keeps outer_frame (get_controller_config env c)"
  unfolding get_controller_config_def load_controllers_config_def
  by (intro outer.keeps_rules keeps_cases outer_primitives)

section \<open>Properties\<close>

lemma discover_fold_distinct:
  "distinct (map fst d) \<Longrightarrow> distinct (map fst (fold (discover_step keep entry) fs d))"
  by (induction fs arbitrary: d) (auto simp: discover_step_def)

lemma discover_fold_lookup:
  "map_of (fold (discover_step keep entry) fs d) name = Some v \<Longrightarrow>
     (\<exists>f \<in> set fs. keep f \<and> splitext_root f = name \<and> v = entry f)
     \<or> (\<not> (\<exists>f \<in> set fs. keep f \<and> splitext_root f = name)) \<and> map_of d name = Some v"
proof (induction fs arbitrary: d)
  case Nil
  then show ?case by simp
next
  case (Cons f fs)
  have "map_of (fold (discover_step keep entry) fs (discover_step keep entry f d)) name = Some v"
    using Cons.prems by simp
  from Cons.IH [OF this] show ?case
    by (auto simp: discover_step_def split: if_splits)
qed

text \<open>
  C27. Where an action comes from: an entry of \<open>config/actions.yaml\<close> wins over everything
  discovered, a discovered script wins over a playbook of the same name, and a discovered action
  runs exactly a file of its directory whose name without the extension is the action's name.
\<close>

theorem merged_action_origin:
  assumes "merge_actions (discover_actions playbooks scripts) config = Inr (PDict m)"
    and "map_of m name = Some v"
  shows "\<exists>conf. py_get_or (py_or config (PDict [])) ''actions'' (PDict []) = Inr (PDict conf)
    \<and> (distinct (map fst conf) \<longrightarrow>
       (case map_of conf name of
          Some u \<Rightarrow> v = u
        | None \<Rightarrow>
            (\<exists>f \<in> set scripts. is_script f \<and> splitext_root f = name \<and> v = script_action f)
            \<or> (\<not> (\<exists>f \<in> set scripts. is_script f \<and> splitext_root f = name))
              \<and> (\<exists>f \<in> set playbooks. is_playbook f \<and> splitext_root f = name \<and> v = playbook_action f)))"
proof -
  let ?d = "discover_actions playbooks scripts"
  have dist: "distinct (map fst ?d)"
    unfolding discover_actions_def by (intro discover_fold_distinct) simp
  obtain conf where c: "py_get_or (py_or config (PDict [])) ''actions'' (PDict []) = Inr (PDict conf)"
    and m: "m = alist_merge ?d conf"
  proof -
    obtain a where a: "py_get_or (py_or config (PDict [])) ''actions'' (PDict []) = Inr a"
      and r: "(case a of PDict d \<Rightarrow> Inr (PDict (alist_merge (alist_merge [] ?d) d))
        | v \<Rightarrow> Inl (TypeError (squoted (py_type_name v) @ '' object is not a mapping''))) = Inr (PDict m)"
      using assms(1) by (auto simp: merge_actions_def rbind_eq_Inr)
    then show thesis using that alist_merge_empty [OF dist] by (cases a) auto
  qed
  have "map_of ?d name = Some v" if "map_of conf name = None" "distinct (map fst conf)"
    using that assms(2) by (simp add: m map_of_alist_merge map_add_def)
  moreover have "v = u" if "map_of conf name = Some u" "distinct (map fst conf)" for u
    using that assms(2) by (simp add: m map_of_alist_merge)
  ultimately show ?thesis
    using c by (auto simp: discover_actions_def split: option.split
        dest!: discover_fold_lookup)
qed

theorem merged_action_origin_witness:
  "merge_actions (discover_actions [''restart.yml'', ''README.md''] [''restart.sh'', ''reboot.py''])
       (PDict [(''actions'', PDict [(''reboot'', PDict [(''command'', PStr ''reboot'')])])])
     = Inr (PDict [(''restart'', script_action ''restart.sh''), (''reboot'', PDict [(''command'', PStr ''reboot'')])])
   \<and> splitext_root ''restart.sh'' = ''restart''"
proof -
  let ?m = "[(''restart'', script_action ''restart.sh''), (''reboot'', PDict [(''command'', PStr ''reboot'')])]"
  have m: "merge_actions (discover_actions [''restart.yml'', ''README.md''] [''restart.sh'', ''reboot.py''])
      (PDict [(''actions'', PDict [(''reboot'', PDict [(''command'', PStr ''reboot'')])])]) = Inr (PDict ?m)"
    by code_simp
  from merged_action_origin [OF m, of "''restart''" "script_action ''restart.sh''"]
  have "splitext_root ''restart.sh'' = ''restart''"
    by (auto simp: script_action_def playbook_action_def py_or_def)
  then show ?thesis using m by simp
qed

end
