(* ===== verification/Executor.thy ===== *)
theory Executor
  imports Shell Actions
begin

text \<open>
  \<open>src/executor.py\<close> and the dispatch \<open>execute_action\<close> of \<open>src/main.py\<close>: how an action becomes a
  local process, an \<open>ssh\<close> command line or a sequence of Kubernetes API calls, and what becomes of
  the secrets that were put in temporary files for it. A file that the code unlinks is gone.
\<close>

section \<open>Results\<close>

record exec_result =
  er_success :: bool
  er_stdout :: string
  er_stderr :: string
  er_exit_code :: int
  er_error :: "string option"

definition as_dict :: "exec_result \<Rightarrow> pydict" where
  "as_dict r =
     [(''success'', PBool (er_success r)), (''stdout'', PStr (er_stdout r)), (''stderr'', PStr (er_stderr r)),
      (''exit_code'', PInt (er_exit_code r)), (''error'', opt_str (er_error r))]"

definition fail_result :: "string \<Rightarrow> exec_result" where
  "fail_result msg = \<lparr>er_success = False, er_stdout = [], er_stderr = [], er_exit_code = 1, er_error = Some msg\<rparr>"

definition ok_result :: "string \<Rightarrow> exec_result" where
  "ok_result out = \<lparr>er_success = True, er_stdout = out, er_stderr = [], er_exit_code = 0, er_error = None\<rparr>"

definition proc_result :: "int \<Rightarrow> string \<Rightarrow> string \<Rightarrow> exec_result" where
  "proc_result rc out err =
     \<lparr>er_success = (rc = 0), er_stdout = out, er_stderr = err, er_exit_code = rc, er_error = None\<rparr>"

section \<open>Processes\<close>

text \<open>
  \<open>subprocess.run\<close> on a list that may hold values other than strings; no process is started when
  it does, or when the list is empty.
\<close>

definition as_argument :: "pyval \<Rightarrow> string result" where
  "as_argument v =
     (case v of
        PStr s \<Rightarrow> Inr s
      | _ \<Rightarrow> Inl (TypeError (''expected str, bytes or os.PathLike object, not '' @ py_type_name v)))"

definition subprocess_run :: "env \<Rightarrow> pyval list \<Rightarrow> ('s world_scheme, proc_out) pym" where
  "subprocess_run env cmd =
     (case rmap as_argument cmd of
        Inl e \<Rightarrow> returnM (ProcFailed (exn_text e))
      | Inr argv \<Rightarrow>
          if argv = [] then returnM (ProcFailed ''list index out of range'') else do_proc env argv)"

definition local_result :: "proc_out \<Rightarrow> exec_result" where
  "local_result out =
     (case out of
        ProcDone rc so se \<Rightarrow> proc_result rc so se
      | ProcTimeout m \<Rightarrow> fail_result m
      | ProcFailed m \<Rightarrow> fail_result m)"

definition str_of :: "env \<Rightarrow> pyval \<Rightarrow> string" where
  "str_of env v = py_str (env_float_repr env) v"

definition repr_of :: "env \<Rightarrow> pyval \<Rightarrow> string" where
  "repr_of env v = py_repr (env_float_repr env) v"

definition run_playbook :: "env \<Rightarrow> pyval \<Rightarrow> pydict \<Rightarrow> bool \<Rightarrow> ('s world_scheme, exec_result) pym" where
  "run_playbook env playbook_path extra_vars dry_run =
     (if dry_run then
        returnM (ok_result (''[DRY-RUN] Would execute playbook: '' @ str_of env playbook_path
          @ '' with vars: '' @ repr_of env (PDict extra_vars)))
      else
        bindM (subprocess_run env
          ([PStr ''ansible-playbook'', playbook_path]
            @ (if extra_vars \<noteq> [] then
                 [PStr ''--extra-vars'',
                  PStr (join '' '' (map (\<lambda>(k, v). k @ ''='' @ squoted (str_of env v)) extra_vars))]
               else []))) (\<lambda>out.
        returnM (local_result out)))"

definition run_script ::
  "env \<Rightarrow> pyval \<Rightarrow> string list option \<Rightarrow> bool \<Rightarrow> ('s world_scheme, exec_result) pym" where
  "run_script env script_path args dry_run =
     (if dry_run then
        returnM (ok_result (''[DRY-RUN] Would execute script: '' @ str_of env script_path @ '' with args: ''
          @ repr_of env (case args of None \<Rightarrow> PNone | Some xs \<Rightarrow> PList (map PStr xs))))
      else
        bindM (subprocess_run env
          (script_path # (case args of None \<Rightarrow> [] | Some xs \<Rightarrow> map PStr xs))) (\<lambda>out.
        returnM (local_result out)))"

section \<open>Command templates\<close>

definition format_template :: "env \<Rightarrow> pydict \<Rightarrow> pyval \<Rightarrow> string result" where
  "format_template env kw template =
     (case template of
        PStr s \<Rightarrow> str_format (\<lambda>t kw. env_format_field env t (PDict kw)) (str_of env) kw s
      | v \<Rightarrow> Inl (attr_error v ''format''))"

text \<open>\<open>except (KeyError, IndexError)\<close>.\<close>

definition lookup_error :: "py_exn \<Rightarrow> bool" where
  "lookup_error e = (case e of KeyError _ \<Rightarrow> True | IndexError _ \<Rightarrow> True | _ \<Rightarrow> False)"

definition run_command :: "env \<Rightarrow> pyval \<Rightarrow> pydict \<Rightarrow> bool \<Rightarrow> ('s world_scheme, exec_result) pym" where
  "run_command env command_template params dry_run =
     (case format_template env (map (\<lambda>(k, v). (k, PStr (str_of env v))) params) command_template of
        Inl e \<Rightarrow>
          if lookup_error e then
            returnM (fail_result (''Missing parameter '' @ exn_text e @ '' for command template''))
          else raiseM e
      | Inr rendered \<Rightarrow>
          if dry_run then returnM (ok_result (''[DRY-RUN] Would run command: '' @ rendered))
          else
            (case shlex_split rendered of
               Inl e \<Rightarrow> returnM (fail_result (exn_text e))
             | Inr cmd \<Rightarrow>
                 bindM (subprocess_run env (map PStr cmd)) (\<lambda>out. returnM (local_result out))))"

text \<open>\<open>shlex.quote\<close> of a value: a false one gives two quotes, anything else must be a string.\<close>

definition quote_val :: "pyval \<Rightarrow> string result" where
  "quote_val v =
     (case v of
        PStr s \<Rightarrow> Inr (shlex_quote s)
      | _ \<Rightarrow> if py_truthy v then Inl (TypeError ''expected string or bytes-like object'')
             else Inr (shlex_quote []))"

definition build_remote_command :: "env \<Rightarrow> pyval \<Rightarrow> pydict \<Rightarrow> string option result" where
  "build_remote_command env action params =
     rbind (py_in ''command'' action) (\<lambda>has_command.
     if has_command then
       rbind (py_item action ''command'') (\<lambda>t.
       rbind (format_template env (map (\<lambda>(k, v). (k, PStr (shlex_quote (str_of env v)))) params) t) (\<lambda>s.
       Inr (Some s)))
     else
       rbind (py_in ''playbook'' action) (\<lambda>has_playbook.
       if has_playbook then
         rbind (py_item action ''playbook'') (\<lambda>p.
         rbind (quote_val p) (\<lambda>q.
         Inr (Some (join '' ''
           ([''ansible-playbook'', q]
             @ (if params \<noteq> [] then
                  [''--extra-vars'', shlex_quote (json_dumps (env_float_repr env) (PDict params))]
                else []))))))
       else
         rbind (py_in ''script'' action) (\<lambda>has_script.
         if has_script then
           rbind (py_item action ''script'') (\<lambda>p.
           rbind (quote_val p) (\<lambda>q.
           Inr (Some (join '' '' (q # map (\<lambda>(k, v). shlex_quote (str_of env v)) params)))))
         else Inr None)))"

section \<open>Secrets in temporary files\<close>

fun drop_file :: "string \<Rightarrow> (string \<times> string) list \<Rightarrow> (string \<times> string) list" where
  "drop_file p [] = []"
| "drop_file p ((q, t) # fs) = (if q = p then fs else (q, t) # drop_file p fs)"

definition unlink_all :: "string list \<Rightarrow> 's world_scheme \<Rightarrow> 's world_scheme" where
  "unlink_all ps w = w\<lparr>tmpfiles := fold drop_file ps (tmpfiles w)\<rparr>"

definition mkstemp :: "env \<Rightarrow> ('s world_scheme, string) pym" where
  "mkstemp env =
     bindM next_tick (\<lambda>n.
     case env_tmp_fault env n of
       Some m \<Rightarrow> raiseM (OSError m)
     | None \<Rightarrow>
         bindM (modifyM (\<lambda>w. w\<lparr>tmpfiles := (env_tmp_name env n, []) # tmpfiles w\<rparr>)) (\<lambda>_.
         returnM (env_tmp_name env n)))"

definition write_tmp :: "env \<Rightarrow> string \<Rightarrow> pyval \<Rightarrow> ('s world_scheme, unit) pym" where
  "write_tmp env p secret =
     bindM next_tick (\<lambda>n.
     case secret of
       PStr s \<Rightarrow>
         (case env_tmp_fault env n of
            Some m \<Rightarrow> raiseM (OSError m)
          | None \<Rightarrow> modifyM (\<lambda>w. w\<lparr>tmpfiles := AList.update p s (tmpfiles w)\<rparr>))
     | v \<Rightarrow> raiseM (TypeError (''write() argument must be str, not '' @ py_type_name v)))"

definition resolve_secret_file ::
  "env \<Rightarrow> pyval \<Rightarrow> string \<Rightarrow> ('s world_scheme, pyval \<times> string list) pym" where
  "resolve_secret_file env value default_field =
     (if \<not> py_truthy value then returnM (value, [])
      else
        case value of
          PStr s \<Rightarrow>
            if \<not> startswith s ''vault:'' then returnM (value, [])
            else
              bindM (resolve_vault_ref env value (Some default_field)) (\<lambda>secret_value.
              bindM (mkstemp env) (\<lambda>tmp_path.
              bindM (catchM (write_tmp env tmp_path secret_value)
                (\<lambda>e. bindM (modifyM (unlink_all [tmp_path])) (\<lambda>_. raiseM e))) (\<lambda>_.
              returnM (PStr tmp_path, [tmp_path]))))
        | v \<Rightarrow> raiseM (attr_error v ''startswith''))"

definition resolve_ssh_key :: "env \<Rightarrow> pyval \<Rightarrow> ('s world_scheme, pyval \<times> string list) pym" where
  "resolve_ssh_key env ssh_key = resolve_secret_file env ssh_key ''private_key''"

section \<open>Remote execution\<close>

definition SSH_CONNECTION_FAILURE_EXIT_CODE :: int where
  "SSH_CONNECTION_FAILURE_EXIT_CODE = 255"

definition ssh_command :: "pyval \<Rightarrow> string \<Rightarrow> string \<Rightarrow> pyval list" where
  "ssh_command key target remote_cmd =
     map PStr [''ssh'', ''-o'', ''BatchMode=yes'', ''-o'', ''StrictHostKeyChecking=accept-new'', ''-o'',
               ''ConnectTimeout=10'']
       @ (if py_truthy key then [PStr ''-i'', key] else []) @ [PStr target, PStr remote_cmd]"

definition remote_result :: "string \<Rightarrow> string \<Rightarrow> proc_out \<Rightarrow> exec_result" where
  "remote_result target host out =
     (case out of
        ProcDone rc so se \<Rightarrow>
          if rc = SSH_CONNECTION_FAILURE_EXIT_CODE then
            \<lparr>er_success = False, er_stdout = so, er_stderr = se, er_exit_code = rc,
             er_error = Some (''SSH connection to '' @ target @ '' failed: ''
               @ (if strip se \<noteq> [] then strip se else ''SSH exited with code 255''))\<rparr>
          else proc_result rc so se
      | ProcTimeout m \<Rightarrow> fail_result (''Remote execution timed out: '' @ m)
      | ProcFailed m \<Rightarrow> fail_result m)"

definition run_remote ::
  "env \<Rightarrow> pyval \<Rightarrow> pyval \<Rightarrow> pydict \<Rightarrow> bool \<Rightarrow> ('s world_scheme, exec_result) pym" where
  "run_remote env controller action params dry_run =
     bindM (liftM (py_get controller ''host'')) (\<lambda>host.
     bindM (liftM (py_get controller ''ssh_user'')) (\<lambda>ssh_user.
     bindM (liftM (py_get controller ''ssh_key'')) (\<lambda>ssh_key.
     if \<not> py_truthy host then
       returnM (fail_result (''Controller has no '' @ squoted ''host'' @ '' configured for remote execution.''))
     else if \<not> py_truthy ssh_user then
       returnM (fail_result (''Controller has no '' @ squoted ''ssh_user'' @ '' configured for remote execution.''))
     else
       case build_remote_command env action params of
         Inl e \<Rightarrow>
           if lookup_error e then
             returnM (fail_result (''Missing parameter '' @ exn_text e @ '' for command template''))
           else raiseM e
       | Inr None \<Rightarrow> returnM (fail_result ''No playbook, script, or command defined for action.'')
       | Inr (Some remote_cmd) \<Rightarrow>
           (let target = str_of env ssh_user @ ''@'' @ str_of env host in
            if dry_run then
              returnM (ok_result (''[DRY-RUN] Would SSH to '' @ target @ '' and run: '' @ remote_cmd))
            else
              bindM (catchM (bindM (resolve_ssh_key env ssh_key) (\<lambda>k. returnM (Inr k)))
                (\<lambda>e. case e of
                   VaultUnavailableError m \<Rightarrow>
                     returnM (Inl (fail_result (''Failed to resolve SSH key from Vault: '' @ m)))
                 | _ \<Rightarrow> raiseM e)) (\<lambda>resolved.
              case resolved of
                Inl r \<Rightarrow> returnM r
              | Inr (key, tmp) \<Rightarrow>
                  finallyM
                    (bindM (subprocess_run env (ssh_command key target remote_cmd)) (\<lambda>out.
                     returnM (remote_result target (str_of env host) out)))
                    (unlink_all tmp))))))"

end
