(* ===== verification/Kube.thy ===== *)
theory Kube
  imports Executor
begin

text \<open>
  The Kubernetes half of \<open>src/executor.py\<close> and the dispatch \<open>execute_action\<close> of \<open>src/main.py\<close>. A
  call of the client library is a \<open>KubeEffect\<close> with the configuration it is made with and its
  arguments; its answer comes from the environment. Objects the library returns are dictionaries of
  their attributes.
\<close>

definition KUBE_RESTART_ANNOTATION :: string where
  "KUBE_RESTART_ANNOTATION = ''kubectl.kubernetes.io/restartedAt''"

definition KUBE_ACTION_VERBS :: "string list" where
  "KUBE_ACTION_VERBS =
     [''rollout_restart'', ''delete_pod'', ''scale'', ''cordon_node'', ''uncordon_node'', ''drain_node'',
      ''patch_configmap'']"

definition kube_call ::
  "env \<Rightarrow> pyval \<Rightarrow> string \<Rightarrow> (string \<times> pyval) list \<Rightarrow> ('s world_scheme, pyval) pym" where
  "kube_call env conf op args =
     (let eff = KubeEffect op ((''configuration'', conf) # args) in
      bindM next_tick (\<lambda>n.
      bindM (modifyM (\<lambda>w. w\<lparr>trace := trace w @ [eff]\<rparr>)) (\<lambda>_.
      case env_kube env n eff of
        KubeOk v \<Rightarrow> returnM v
      | KubeApiError st reason body t \<Rightarrow> raiseM (ApiException st reason body t)
      | KubeFailed m \<Rightarrow> raiseM (OtherError m))))"

section \<open>Credentials\<close>

text \<open>\<open>except Exception\<close> that removes the files collected so far and raises again.\<close>

definition cleaning :: "string list \<Rightarrow> ('s world_scheme, 'a) pym \<Rightarrow> ('s world_scheme, 'a) pym" where
  "cleaning ps m = catchM m (\<lambda>e. bindM (modifyM (unlink_all ps)) (\<lambda>_. raiseM e))"

definition read_token :: "env \<Rightarrow> pyval \<Rightarrow> ('s world_scheme, string) pym" where
  "read_token env path =
     (case path of
        PStr p \<Rightarrow>
          bindM (read_path env p) (\<lambda>fr.
          case fr of
            Missing \<Rightarrow> raiseM (OSError (missing_text p))
          | Unreadable m \<Rightarrow> raiseM (OSError m)
          | Contents t \<Rightarrow> returnM (strip t))
      | v \<Rightarrow> raiseM (TypeError (''expected str, bytes or os.PathLike object, not '' @ py_type_name v)))"

definition build_kube_configuration ::
  "env \<Rightarrow> pyval \<Rightarrow> ('s world_scheme, pyval \<times> string list) pym" where
  "build_kube_configuration env controller =
     bindM (liftM (py_get controller ''in_cluster'')) (\<lambda>in_cluster.
     if py_truthy in_cluster then
       bindM (kube_call env PNone ''load_incluster_config'' []) (\<lambda>conf. returnM (conf, []))
     else
       bindM (liftM (py_get controller ''kubeconfig'')) (\<lambda>kubeconfig.
       if py_truthy kubeconfig then
         bindM (resolve_secret_file env kubeconfig ''kubeconfig'') (\<lambda>(resolved_path, tmp).
         cleaning tmp
           (bindM (kube_call env PNone ''load_kube_config'' [(''config_file'', resolved_path)])
             (\<lambda>conf. returnM (conf, tmp))))
       else
         bindM (liftM (py_get controller ''api_server'')) (\<lambda>api_server.
         bindM (liftM (py_get controller ''token'')) (\<lambda>token_ref.
         if py_truthy api_server \<and> py_truthy token_ref then
           bindM (resolve_secret_file env token_ref ''token'') (\<lambda>(token_path, token_tmp).
           cleaning token_tmp
             (bindM (read_token env token_path) (\<lambda>token_value.
              bindM (liftM (py_get controller ''ca_cert'')) (\<lambda>ca_cert_ref.
              let conf = [(''host'', api_server), (''api_key'', PDict [(''authorization'', PStr token_value)]),
                          (''api_key_prefix'', PDict [(''authorization'', PStr ''Bearer'')])] in
              if py_truthy ca_cert_ref then
                bindM (resolve_secret_file env ca_cert_ref ''ca_cert'') (\<lambda>(ca_path, ca_tmp).
                returnM (PDict (conf @ [(''ssl_ca_cert'', ca_path)]), token_tmp @ ca_tmp))
              else returnM (PDict (conf @ [(''verify_ssl'', PBool False)]), token_tmp)))))
         else
           raiseM (ValueError (''Controller has no usable kubeapi credentials configured ''
             @ ''(need one of: in_cluster, kubeconfig, or api_server+token).''))))))"

section \<open>Rendering\<close>

definition render_field :: "env \<Rightarrow> pyval \<Rightarrow> pydict \<Rightarrow> string \<Rightarrow> pydict result" where
  "render_field env action params key =
     rbind (py_in key action) (\<lambda>present.
     if present then
       rbind (py_item action key) (\<lambda>t.
       rbind (format_template env params t) (\<lambda>s. Inr [(key, PStr s)]))
     else Inr [])"

definition render_kube_action_fields :: "env \<Rightarrow> pyval \<Rightarrow> pydict \<Rightarrow> pydict result" where
  "render_kube_action_fields env action params =
     rbind (py_in ''resource'' action) (\<lambda>has_resource.
     rbind (if has_resource then rbind (py_item action ''resource'') (\<lambda>v. Inr [(''resource'', v)]) else Inr [])
       (\<lambda>resource.
     rbind (render_field env action params ''name'') (\<lambda>name.
     rbind (render_field env action params ''namespace'') (\<lambda>namespace.
     rbind (render_field env action params ''node_name'') (\<lambda>node_name.
     rbind (py_in ''data'' action) (\<lambda>has_data.
     rbind (if has_data then
              rbind (py_item action ''data'') (\<lambda>v.
              case v of
                PDict d \<Rightarrow>
                  rbind (rmap (\<lambda>(k, v). rbind (format_template env params (PStr (str_of env v)))
                                 (\<lambda>s. Inr (k, PStr s))) d) (\<lambda>r. Inr [(''data'', PDict r)])
              | v \<Rightarrow> Inl (attr_error v ''items''))
            else Inr []) (\<lambda>data.
     Inr (resource @ name @ namespace @ node_name @ data))))))))"

definition describe_kube_action :: "env \<Rightarrow> string \<Rightarrow> pydict \<Rightarrow> string" where
  "describe_kube_action env verb rendered =
     (if verb \<in> {''cordon_node'', ''uncordon_node'', ''drain_node''} then
        verb @ '' node '' @ squoted (str_of env (dget rendered ''node_name''))
      else if verb = ''patch_configmap'' then
        ''patch_configmap '' @ squoted (str_of env (dget rendered ''name'')) @ '' in namespace ''
          @ squoted (str_of env (dget rendered ''namespace'')) @ '' with '' @ str_of env (dget rendered ''data'')
      else
        verb @ '' '' @ str_of env (case map_of rendered ''resource'' of None \<Rightarrow> PStr ''deployment'' | Some r \<Rightarrow> r)
          @ '' '' @ squoted (str_of env (dget rendered ''name'')) @ '' in namespace ''
          @ squoted (str_of env (dget rendered ''namespace'')))"

section \<open>The verbs\<close>

definition summary_result :: "env \<Rightarrow> pydict \<Rightarrow> exec_result" where
  "summary_result env summary = ok_result (json_dumps (env_float_repr env) (PDict summary))"

text \<open>\<open>{...}.get(resource)\<close> of a table of client functions.\<close>

definition patch_fn :: "(string \<times> string) list \<Rightarrow> pyval \<Rightarrow> string option result" where
  "patch_fn table resource =
     (case resource of
        PStr r \<Rightarrow> Inr (map_of table r)
      | v \<Rightarrow> if py_hashable v then Inr None else Inl (unhashable v))"

definition rendered_resource :: "pydict \<Rightarrow> pyval" where
  "rendered_resource rendered =
     (case map_of rendered ''resource'' of None \<Rightarrow> PStr ''deployment'' | Some r \<Rightarrow> r)"

definition kube_rollout_restart :: "env \<Rightarrow> pyval \<Rightarrow> pydict \<Rightarrow> ('s world_scheme, exec_result) pym" where
  "kube_rollout_restart env conf rendered =
     (let resource = rendered_resource rendered in
      bindM (liftM (py_item (PDict rendered) ''name'')) (\<lambda>name.
      bindM (liftM (py_item (PDict rendered) ''namespace'')) (\<lambda>namespace.
      bindM (time_time env) (\<lambda>now.
      let restarted_at = PStr (env_iso_time env now);
          patch_body = PDict [(''spec'', PDict [(''template'', PDict [(''metadata'', PDict [(''annotations'',
            PDict [(KUBE_RESTART_ANNOTATION, restarted_at)])])])])] in
      bindM (liftM (patch_fn
        [(''deployment'', ''patch_namespaced_deployment''), (''statefulset'', ''patch_namespaced_stateful_set''),
         (''daemonset'', ''patch_namespaced_daemon_set'')] resource)) (\<lambda>fn.
      case fn of
        None \<Rightarrow> returnM (fail_result (''Unsupported resource '' @ squoted (str_of env resource) @ '' for rollout_restart''))
      | Some op \<Rightarrow>
          bindM (kube_call env conf op [(''name'', name), (''namespace'', namespace), (''body'', patch_body)]) (\<lambda>_.
          returnM (summary_result env
            [(''resource'', resource), (''name'', name), (''namespace'', namespace), (''restarted_at'', restarted_at)])))))))"

definition kube_delete_pod :: "env \<Rightarrow> pyval \<Rightarrow> pydict \<Rightarrow> ('s world_scheme, exec_result) pym" where
  "kube_delete_pod env conf rendered =
     bindM (liftM (py_item (PDict rendered) ''name'')) (\<lambda>name.
     bindM (liftM (py_item (PDict rendered) ''namespace'')) (\<lambda>namespace.
     bindM (kube_call env conf ''delete_namespaced_pod'' [(''name'', name), (''namespace'', namespace)]) (\<lambda>_.
     returnM (summary_result env [(''pod'', name), (''namespace'', namespace), (''action'', PStr ''deleted'')]))))"

definition kube_scale :: "env \<Rightarrow> pyval \<Rightarrow> pydict \<Rightarrow> ('s world_scheme, exec_result) pym" where
  "kube_scale env conf rendered =
     (let resource = rendered_resource rendered in
      bindM (liftM (py_item (PDict rendered) ''name'')) (\<lambda>name.
      bindM (liftM (py_item (PDict rendered) ''namespace'')) (\<lambda>namespace.
      case rbind (py_item (PDict rendered) ''data'') (\<lambda>d. rbind (py_item d ''replicas'') py_int) of
        Inl e \<Rightarrow>
          if shape_error e then
            returnM (fail_result (''scale requires an integer '' @ squoted ''replicas'' @ '' in data''))
          else raiseM e
      | Inr replicas \<Rightarrow>
          bindM (liftM (patch_fn
            [(''deployment'', ''patch_namespaced_deployment_scale''),
             (''statefulset'', ''patch_namespaced_stateful_set_scale''),
             (''replicaset'', ''patch_namespaced_replica_set_scale'')] resource)) (\<lambda>fn.
          case fn of
            None \<Rightarrow> returnM (fail_result (''Unsupported resource '' @ squoted (str_of env resource) @ '' for scale''))
          | Some op \<Rightarrow>
              bindM (kube_call env conf op [(''name'', name), (''namespace'', namespace),
                (''body'', PDict [(''spec'', PDict [(''replicas'', PInt replicas)])])]) (\<lambda>_.
              returnM (summary_result env
                [(''resource'', resource), (''name'', name), (''namespace'', namespace), (''replicas'', PInt replicas)]))))))"

definition set_unschedulable :: "env \<Rightarrow> pyval \<Rightarrow> pyval \<Rightarrow> bool \<Rightarrow> ('s world_scheme, pyval) pym" where
  "set_unschedulable env conf node b =
     kube_call env conf ''patch_node''
       [(''name'', node), (''body'', PDict [(''spec'', PDict [(''unschedulable'', PBool b)])])]"

definition kube_cordon_node :: "env \<Rightarrow> pyval \<Rightarrow> pydict \<Rightarrow> ('s world_scheme, exec_result) pym" where
  "kube_cordon_node env conf rendered =
     bindM (liftM (py_item (PDict rendered) ''node_name'')) (\<lambda>node.
     bindM (set_unschedulable env conf node True) (\<lambda>_.
     returnM (summary_result env [(''node'', node), (''unschedulable'', PBool True)])))"

definition kube_uncordon_node :: "env \<Rightarrow> pyval \<Rightarrow> pydict \<Rightarrow> ('s world_scheme, exec_result) pym" where
  "kube_uncordon_node env conf rendered =
     bindM (liftM (py_item (PDict rendered) ''node_name'')) (\<lambda>node.
     bindM (set_unschedulable env conf node False) (\<lambda>_.
     returnM (summary_result env [(''node'', node), (''unschedulable'', PBool False)])))"

text \<open>An attribute of an object of the client library.\<close>

definition attr :: "pyval \<Rightarrow> string \<Rightarrow> pyval result" where
  "attr v name =
     (case v of
        PDict d \<Rightarrow> (case map_of d name of None \<Rightarrow> Inl (attr_error v name) | Some u \<Rightarrow> Inr u)
      | _ \<Rightarrow> Inl (attr_error v name))"

text \<open>\<open>any(o.kind == "DaemonSet" for o in owners)\<close>: stops at the first one.\<close>

fun any_daemonset :: "pyval list \<Rightarrow> bool result" where
  "any_daemonset [] = Inr False"
| "any_daemonset (x # xs) =
     rbind (attr x ''kind'') (\<lambda>k. if k = PStr ''DaemonSet'' then Inr True else any_daemonset xs)"

record pod_info =
  pd_name :: pyval
  pd_namespace :: pyval
  pd_daemonset :: bool

definition pod_info_of :: "pyval \<Rightarrow> pod_info result" where
  "pod_info_of pod =
     rbind (attr pod ''metadata'') (\<lambda>m.
     rbind (attr m ''owner_references'') (\<lambda>o1.
     rbind (py_iter (py_or o1 (PList []))) (\<lambda>owners.
     rbind (any_daemonset owners) (\<lambda>ds.
     rbind (attr m ''name'') (\<lambda>name.
     rbind (if ds then Inr PNone else attr m ''namespace'') (\<lambda>ns.
     Inr \<lparr>pd_name = name, pd_namespace = ns, pd_daemonset = ds\<rparr>))))))"

record drain_report =
  dr_evicted :: "pyval list"
  dr_skipped :: "pyval list"
  dr_failed :: "(pyval \<times> string) list"

definition evict ::
  "env \<Rightarrow> pyval \<Rightarrow> pod_info \<Rightarrow> drain_report \<Rightarrow> ('s world_scheme, drain_report) pym" where
  "evict env conf p r =
     (if pd_daemonset p then returnM (r\<lparr>dr_skipped := dr_skipped r @ [pd_name p]\<rparr>)
      else
        catchM
          (bindM (kube_call env conf ''create_namespaced_pod_eviction''
                    [(''name'', pd_name p), (''namespace'', pd_namespace p)]) (\<lambda>_.
           returnM (r\<lparr>dr_evicted := dr_evicted r @ [pd_name p]\<rparr>)))
          (\<lambda>e. case e of
             ApiException st reason body t \<Rightarrow>
               returnM (r\<lparr>dr_failed := dr_failed r @ [(pd_name p, if reason \<noteq> [] then reason else t)]\<rparr>)
           | _ \<Rightarrow> raiseM e))"

fun drain_pods ::
  "env \<Rightarrow> pyval \<Rightarrow> pyval list \<Rightarrow> drain_report \<Rightarrow> ('s world_scheme, drain_report) pym" where
  "drain_pods env conf [] r = returnM r"
| "drain_pods env conf (pod # pods) r =
     bindM (liftM (pod_info_of pod)) (\<lambda>p.
     bindM (evict env conf p r) (\<lambda>r'. drain_pods env conf pods r'))"

definition drain_summary :: "env \<Rightarrow> pyval \<Rightarrow> drain_report \<Rightarrow> exec_result" where
  "drain_summary env node r =
     (let summary = json_dumps (env_float_repr env) (PDict
        [(''node'', node), (''evicted'', PList (dr_evicted r)), (''skipped_daemonset_pods'', PList (dr_skipped r)),
         (''failed'', PList (map (\<lambda>(p, e). PDict [(''pod'', p), (''error'', PStr e)]) (dr_failed r)))]) in
      if dr_failed r \<noteq> [] then
        \<lparr>er_success = False, er_stdout = summary, er_stderr = [], er_exit_code = 1,
         er_error = Some (nat_text (length (dr_failed r)) @ '' pod(s) could not be evicted from ''
           @ squoted (str_of env node))\<rparr>
      else ok_result summary)"

definition kube_drain_node :: "env \<Rightarrow> pyval \<Rightarrow> pydict \<Rightarrow> ('s world_scheme, exec_result) pym" where
  "kube_drain_node env conf rendered =
     bindM (liftM (py_item (PDict rendered) ''node_name'')) (\<lambda>node.
     bindM (set_unschedulable env conf node True) (\<lambda>_.
     bindM (kube_call env conf ''list_pod_for_all_namespaces''
              [(''field_selector'', PStr (''spec.nodeName='' @ str_of env node))]) (\<lambda>pods.
     bindM (liftM (rbind (attr pods ''items'') py_iter)) (\<lambda>items.
     bindM (drain_pods env conf items \<lparr>dr_evicted = [], dr_skipped = [], dr_failed = []\<rparr>) (\<lambda>r.
     returnM (drain_summary env node r))))))"

definition kube_patch_configmap :: "env \<Rightarrow> pyval \<Rightarrow> pydict \<Rightarrow> ('s world_scheme, exec_result) pym" where
  "kube_patch_configmap env conf rendered =
     bindM (liftM (py_item (PDict rendered) ''name'')) (\<lambda>name.
     bindM (liftM (py_item (PDict rendered) ''namespace'')) (\<lambda>namespace.
     let data = py_or (dget rendered ''data'') (PDict []) in
     bindM (kube_call env conf ''patch_namespaced_config_map''
              [(''name'', name), (''namespace'', namespace), (''body'', PDict [(''data'', data)])]) (\<lambda>_.
     returnM (summary_result env [(''configmap'', name), (''namespace'', namespace), (''data'', data)]))))"

text \<open>\<open>getattr(self, f"_kube_{verb}")\<close>; the verb is one of \<open>KUBE_ACTION_VERBS\<close>.\<close>

definition kube_handler ::
  "env \<Rightarrow> string \<Rightarrow> pyval \<Rightarrow> pydict \<Rightarrow> ('s world_scheme, exec_result) pym" where
  "kube_handler env verb conf rendered =
     (if verb = ''rollout_restart'' then kube_rollout_restart env conf rendered
      else if verb = ''delete_pod'' then kube_delete_pod env conf rendered
      else if verb = ''scale'' then kube_scale env conf rendered
      else if verb = ''cordon_node'' then kube_cordon_node env conf rendered
      else if verb = ''uncordon_node'' then kube_uncordon_node env conf rendered
      else if verb = ''drain_node'' then kube_drain_node env conf rendered
      else kube_patch_configmap env conf rendered)"

definition api_error_result :: "py_exn \<Rightarrow> exec_result" where
  "api_error_result e =
     (case e of
        ApiException st reason body t \<Rightarrow>
          \<lparr>er_success = False, er_stdout = [], er_stderr = body, er_exit_code = (if st = 0 then 1 else st),
           er_error = Some (''Kubernetes API error: '' @ (if reason \<noteq> [] then reason else t))\<rparr>
      | _ \<Rightarrow> fail_result (exn_text e))"

definition credentials_error_result :: "py_exn \<Rightarrow> exec_result" where
  "credentials_error_result e =
     (case e of
        VaultUnavailableError m \<Rightarrow> fail_result (''Failed to resolve kube credentials from Vault: '' @ m)
      | _ \<Rightarrow> fail_result (''Failed to build Kubernetes client config: '' @ exn_text e))"

definition run_kube_action ::
  "env \<Rightarrow> pyval \<Rightarrow> pyval \<Rightarrow> pydict \<Rightarrow> bool \<Rightarrow> ('s world_scheme, exec_result) pym" where
  "run_kube_action env controller action params dry_run =
     bindM (liftM (py_get action ''kube_action'')) (\<lambda>verb.
     if \<not> py_hashable verb then raiseM (unhashable verb)
     else
       case verb of
         PStr vb \<Rightarrow>
           if vb \<notin> set KUBE_ACTION_VERBS then returnM (fail_result (''Unknown kube_action '' @ squoted vb))
           else
             (case render_kube_action_fields env action params of
                Inl e \<Rightarrow>
                  if lookup_error e then
                    returnM (fail_result (''Missing parameter '' @ exn_text e @ '' for kube_action''))
                  else raiseM e
              | Inr rendered \<Rightarrow>
                  if dry_run then
                    returnM (ok_result (''[DRY-RUN] Would '' @ describe_kube_action env vb rendered))
                  else
                    bindM (catchM (bindM (build_kube_configuration env controller) (\<lambda>c. returnM (Inr c)))
                      (\<lambda>e. returnM (Inl (credentials_error_result e)))) (\<lambda>built.
                    case built of
                      Inl r \<Rightarrow> returnM r
                    | Inr (conf, cleanup_paths) \<Rightarrow>
                        finallyM
                          (catchM (kube_handler env vb conf rendered) (\<lambda>e. returnM (api_error_result e)))
                          (unlink_all cleanup_paths)))
       | v \<Rightarrow> returnM (fail_result (''Unknown kube_action '' @ squoted (str_of env v))))"

section \<open>Dispatch\<close>

definition is_local_controller :: "pyval \<Rightarrow> bool result" where
  "is_local_controller controller_config =
     rbind (py_get controller_config ''type'') (\<lambda>t.
     if t = PStr ''local'' then Inr True
     else
       rbind (py_get controller_config ''host'') (\<lambda>h.
       Inr (h \<in> {PNone, PStr [], PStr ''localhost'', PStr ''127.0.0.1''})))"

definition execute_action ::
  "env \<Rightarrow> pyval \<Rightarrow> pyval \<Rightarrow> pydict \<Rightarrow> bool \<Rightarrow> ('s world_scheme, exec_result option) pym" where
  "execute_action env action_config controller_config params dry_run =
     bindM (liftM (py_get controller_config ''type'')) (\<lambda>t.
     if t = PStr ''kubeapi'' then
       bindM (run_kube_action env controller_config action_config params dry_run) (\<lambda>r. returnM (Some r))
     else
       bindM (liftM (is_local_controller controller_config)) (\<lambda>local.
       if \<not> local then
         bindM (run_remote env controller_config action_config params dry_run) (\<lambda>r. returnM (Some r))
       else
         bindM (liftM (py_in ''playbook'' action_config)) (\<lambda>has_playbook.
         if has_playbook then
           bindM (liftM (py_item action_config ''playbook'')) (\<lambda>p.
           bindM (run_playbook env p params dry_run) (\<lambda>r. returnM (Some r)))
         else
           bindM (liftM (py_in ''script'' action_config)) (\<lambda>has_script.
           if has_script then
             (let args = (if params \<noteq> [] then Some (map (\<lambda>(k, v). str_of env v) params) else None) in
              bindM (liftM (py_item action_config ''script'')) (\<lambda>p.
              bindM (run_script env p args dry_run) (\<lambda>r. returnM (Some r))))
           else
             bindM (liftM (py_in ''command'' action_config)) (\<lambda>has_command.
             if has_command then
               bindM (liftM (py_item action_config ''command'')) (\<lambda>c.
               bindM (run_command env c params dry_run) (\<lambda>r. returnM (Some r)))
             else returnM None)))))"

end
