(* ===== verification/ExecProps.thy ===== *)
theory ExecProps
  imports Kube "HOL-Library.Multiset"
begin

text \<open>
  Properties of the executor: what a dry run does, what becomes of temporary files, when an
  exception can leave \<open>execute_action\<close>, what a successful result means, that a quoted command line
  reads back as the intended arguments, and what draining a node does to its pods.
\<close>

section \<open>Dry runs\<close>

interpretation same: state_preorder "\<lambda>w w'. w' = w"
  by unfold_locales auto

lemma dry_playbook: "keeps (\<lambda>w w'. w' = w) (run_playbook env p vs True)"
  by (simp add: run_playbook_def same.keeps_return)

lemma dry_script: "keeps (\<lambda>w w'. w' = w) (run_script env p args True)"
  by (simp add: run_script_def same.keeps_return)

lemma dry_command: "keeps (\<lambda>w w'. w' = w) (run_command env t ps True)"
  unfolding run_command_def if_True by (intro keeps_cases same.keeps_rules)

lemma dry_remote: "keeps (\<lambda>w w'. w' = w) (run_remote env c a ps True)"
  unfolding run_remote_def if_True by (intro keeps_cases same.keeps_rules)

lemma dry_kube: "keeps (\<lambda>w w'. w' = w) (run_kube_action env c a ps True)"
  unfolding run_kube_action_def if_True by (intro keeps_cases same.keeps_rules)

lemma dry_execute: "keeps (\<lambda>w w'. w' = w) (execute_action env ac cc ps True)"
  unfolding execute_action_def
  by (intro keeps_cases same.keeps_rules dry_playbook dry_script dry_command dry_remote dry_kube)

text \<open>
  C12. A dry run touches nothing: whatever the action, the controller and the parameters, the
  dispatch with \<open>dry_run\<close> set starts no process, sends no request, reads no secret and leaves the
  whole state as it was.
\<close>

theorem dry_run_touches_nothing:
  fixes w :: "'s world_scheme"
  shows "snd (execute_action env ac cc ps True w) = w"
  by (rule dry_execute [unfolded keeps_def, rule_format])

section \<open>Temporary files\<close>

interpretation files: state_preorder "\<lambda>w w' :: 's world_scheme. tmpfiles w' = tmpfiles w"
  by unfold_locales auto

abbreviation keeps_files :: "('s world_scheme, 'a) pym \<Rightarrow> bool" where
  "keeps_files m \<equiv> keeps (\<lambda>w w'. tmpfiles w' = tmpfiles w) m"

lemma outer_files: "keeps outer_frame m \<Longrightarrow> keeps_files m"
  by (auto simp: keeps_def outer_frame_def)

lemma subprocess_files: "keeps_files (subprocess_run env cmd)"
  unfolding subprocess_run_def
  by (intro keeps_cases files.keeps_rules outer_files outer_primitives)

lemma drop_new_file:
  "p \<in> set (map fst fs) \<Longrightarrow>
     \<exists>gs. drop_file p (fs @ old) = gs @ old \<and> mset (map fst fs) = add_mset p (mset (map fst gs))"
proof (induction fs)
  case Nil
  then show ?case by simp
next
  case (Cons f fs)
  obtain q t where f: "f = (q, t)" by (cases f)
  show ?case
  proof (cases "q = p")
    case True
    then show ?thesis by (auto simp: f)
  next
    case False
    then obtain gs where "drop_file p (fs @ old) = gs @ old" "mset (map fst fs) = add_mset p (mset (map fst gs))"
      using Cons f by auto
    then show ?thesis using False by (auto simp: f intro!: exI [of _ "(q, t) # gs"])
  qed
qed

lemma drop_new_files:
  "mset (map fst fs) = mset ps \<Longrightarrow> fold drop_file ps (fs @ old) = old"
proof (induction ps arbitrary: fs)
  case Nil
  then show ?case by simp
next
  case (Cons p ps)
  then have "p \<in> set (map fst fs)" by (metis list.set_intros(1) mset_eq_setD)
  then obtain gs where gs: "drop_file p (fs @ old) = gs @ old" "mset (map fst fs) = add_mset p (mset (map fst gs))"
    using drop_new_file by blast
  then have "mset (map fst gs) = mset ps" using Cons.prems by simp
  then show ?case using Cons.IH gs(1) by simp
qed

text \<open>
  \<open>adds_files A m\<close>: when \<open>m\<close> raises there are the files there were, and when it returns a value with
  the paths to clean up, the new files in front of the old ones are those paths without \<open>A\<close>.
\<close>

definition adds_files :: "string multiset \<Rightarrow> ('s world_scheme, 'a \<times> string list) pym \<Rightarrow> bool" where
  "adds_files A m \<longleftrightarrow>
     (\<forall>w. case m w of
        (Inl e, w') \<Rightarrow> tmpfiles w' = tmpfiles w
      | (Inr (x, ps), w') \<Rightarrow>
          \<exists>fs. tmpfiles w' = fs @ tmpfiles w \<and> A + image_mset fst (mset fs) = mset ps)"

lemma adds_filesI:
  assumes "\<And>w e w'. m w = (Inl e, w') \<Longrightarrow> tmpfiles w' = tmpfiles w"
    and "\<And>w x ps w'. m w = (Inr (x, ps), w') \<Longrightarrow>
      \<exists>fs. tmpfiles w' = fs @ tmpfiles w \<and> A + image_mset fst (mset fs) = mset ps"
  shows "adds_files A m"
  unfolding adds_files_def using assms by (auto split: prod.split sum.split)

lemma adds_files_Inl: "adds_files A m \<Longrightarrow> m w = (Inl e, w') \<Longrightarrow> tmpfiles w' = tmpfiles w"
  unfolding adds_files_def by (drule spec [of _ w]) simp

lemma adds_files_Inr:
  "adds_files A m \<Longrightarrow> m w = (Inr (x, ps), w') \<Longrightarrow>
     \<exists>fs. tmpfiles w' = fs @ tmpfiles w \<and> A + image_mset fst (mset fs) = mset ps"
  unfolding adds_files_def by (drule spec [of _ w]) simp

lemma adds_return: "adds_files (mset ps) (returnM (x, ps))"
  by (rule adds_filesI) auto

lemma adds_raise: "adds_files A (raiseM e)"
  by (rule adds_filesI) auto

lemma adds_bind:
  assumes m: "keeps_files m" and f: "\<And>x. adds_files A (f x)"
  shows "adds_files A (bindM m f)"
proof (rule adds_filesI)
  fix w e w'
  assume "bindM m f w = (Inl e, w')"
  from bindM_run_Inl [OF this] show "tmpfiles w' = tmpfiles w"
  proof
    assume "m w = (Inl e, w')"
    then show ?thesis by (rule files.keeps_run [OF m])
  next
    assume "\<exists>y w1. m w = (Inr y, w1) \<and> f y w1 = (Inl e, w')"
    then obtain y w1 where y: "m w = (Inr y, w1)" "f y w1 = (Inl e, w')" by blast
    show ?thesis using adds_files_Inl [OF f y(2)] files.keeps_run [OF m y(1)] by simp
  qed
next
  fix w x ps w'
  assume "bindM m f w = (Inr (x, ps), w')"
  from bindM_run_Inr [OF this] obtain y w1 where y: "m w = (Inr y, w1)" "f y w1 = (Inr (x, ps), w')" by blast
  show "\<exists>fs. tmpfiles w' = fs @ tmpfiles w \<and> A + image_mset fst (mset fs) = mset ps"
    using adds_files_Inr [OF f y(2)] files.keeps_run [OF m y(1)] by simp
qed

lemma adds_if: "adds_files A m \<Longrightarrow> adds_files A n \<Longrightarrow> adds_files A (if b then m else n)"
  by simp

lemma unlink_new:
  assumes "tmpfiles w' = fs @ old" "image_mset fst (mset fs) = mset ps"
  shows "tmpfiles (unlink_all ps w') = old"
  using drop_new_files [of fs ps old] assms by (simp add: unlink_all_def)

lemma adds_cleaning:
  assumes m: "adds_files {#} m" and f: "\<And>x ps. adds_files (mset ps) (f x ps)"
  shows "adds_files {#} (bindM m (\<lambda>(x, ps). cleaning ps (f x ps)))"
proof (rule adds_filesI)
  fix w e w'
  assume run: "bindM m (\<lambda>(x, ps). cleaning ps (f x ps)) w = (Inl e, w')"
  show "tmpfiles w' = tmpfiles w"
  proof (cases "m w")
    case (Pair r w1)
    show ?thesis
    proof (cases r)
      case (Inl a)
      then show ?thesis using run Pair adds_files_Inl [OF m] by (auto simp: bindM_run)
    next
      case (Inr xp)
      obtain x ps where xp: "xp = (x, ps)" by (cases xp)
      obtain fs where fs: "tmpfiles w1 = fs @ tmpfiles w" "image_mset fst (mset fs) = mset ps"
        using adds_files_Inr [OF m, of w x ps w1] Pair Inr xp by auto
      obtain w2 where "f x ps w1 = (Inl e, w2)" "w' = unlink_all ps w2"
        using run Pair Inr xp
        by (auto simp: bindM_run cleaning_def catchM_def raiseM_def split: prod.splits sum.splits)
      then show ?thesis using adds_files_Inl [OF f] fs unlink_new [of w2 fs "tmpfiles w" ps] by metis
    qed
  qed
next
  fix w x ps w'
  assume run: "bindM m (\<lambda>(x, ps). cleaning ps (f x ps)) w = (Inr (x, ps), w')"
  then obtain y qs w1 where y: "m w = (Inr (y, qs), w1)" and fy: "f y qs w1 = (Inr (x, ps), w')"
    by (auto simp: bindM_run cleaning_def catchM_def raiseM_def split: prod.splits sum.splits)
  obtain fs where fs: "tmpfiles w1 = fs @ tmpfiles w" "image_mset fst (mset fs) = mset qs"
    using adds_files_Inr [OF m y] by auto
  obtain gs where gs: "tmpfiles w' = gs @ tmpfiles w1" "mset qs + image_mset fst (mset gs) = mset ps"
    using adds_files_Inr [OF f fy] by auto
  show "\<exists>fs. tmpfiles w' = fs @ tmpfiles w \<and> {#} + image_mset fst (mset fs) = mset ps"
    using fs gs by (intro exI [of _ "gs @ fs"]) (auto simp: ac_simps)
qed

lemma adds_append:
  assumes m: "adds_files {#} m"
  shows "adds_files (mset ps) (bindM m (\<lambda>(x, qs). returnM (g x, ps @ qs)))"
proof (rule adds_filesI)
  fix w e w'
  assume "bindM m (\<lambda>(x, qs). returnM (g x, ps @ qs)) w = (Inl e, w')"
  then show "tmpfiles w' = tmpfiles w"
    using adds_files_Inl [OF m] by (auto simp: bindM_run split: prod.splits sum.splits)
next
  fix w y rs w'
  assume "bindM m (\<lambda>(x, qs). returnM (g x, ps @ qs)) w = (Inr (y, rs), w')"
  then obtain x qs where "m w = (Inr (x, qs), w')" "rs = ps @ qs"
    by (auto simp: bindM_run split: prod.splits sum.splits)
  then show "\<exists>fs. tmpfiles w' = fs @ tmpfiles w \<and> mset ps + image_mset fst (mset fs) = mset rs"
    using adds_files_Inr [OF m] by fastforce
qed

lemma adds_mkstemp:
  "adds_files {#} (bindM (mkstemp env) (\<lambda>p.
     bindM (catchM (write_tmp env p s) (\<lambda>e. bindM (modifyM (unlink_all [p])) (\<lambda>_. raiseM e))) (\<lambda>_.
     returnM (PStr p, [p]))))"
  by (rule adds_filesI)
    (auto simp: mkstemp_def write_tmp_def bindM_run catchM_def raiseM_def unlink_all_def
      split: option.splits pyval.splits)

lemma adds_secret_file: "adds_files {#} (resolve_secret_file env v d)"
proof -
  have r: "adds_files {#} (returnM (v, []))" for v :: pyval
    using adds_return [of "[]"] by simp
  show ?thesis
    unfolding resolve_secret_file_def
    by (cases v) (auto intro!: r adds_if adds_raise adds_bind adds_mkstemp outer_files [OF ref_outer])
qed

lemma kube_call_files: "keeps_files (kube_call env conf op args)"
  unfolding kube_call_def
  by (intro keeps_cases files.keeps_rules files.keeps_modify outer_files outer_primitives) simp

lemma read_token_files: "keeps_files (read_token env p)"
  unfolding read_token_def by (intro keeps_cases files.keeps_rules outer_files outer_primitives)

lemma adds_configuration: "adds_files {#} (build_kube_configuration env c)"
proof -
  have r: "adds_files {#} (returnM (v, []))" for v :: pyval
    using adds_return [of "[]"] by simp
  show ?thesis
    unfolding build_kube_configuration_def Let_def
    by (rule adds_cleaning adds_append adds_secret_file adds_return adds_raise r
      | rule adds_if adds_bind | rule files.keeps_rules kube_call_files read_token_files)+
qed

text \<open>A credential used under \<open>try ... finally\<close> leaves no file, on every path.\<close>

lemma files_with_secret:
  assumes m: "adds_files {#} m" and h: "\<And>e. keeps_files (h e)"
    and hl: "\<And>e w x w'. h e w = (Inr x, w') \<Longrightarrow> \<exists>r. x = Inl r"
    and F: "\<And>k ps. keeps_files (F k ps)"
  shows "keeps_files (bindM (catchM (bindM m (\<lambda>k. returnM (Inr k))) h) (\<lambda>x.
     case x of Inl r \<Rightarrow> returnM r | Inr (k, ps) \<Rightarrow> finallyM (F k ps) (unlink_all ps)))" (is "keeps_files ?m")
  unfolding keeps_def
proof
  fix w
  show "tmpfiles (snd (?m w)) = tmpfiles w"
  proof (cases "m w")
    case (Pair r w1)
    show ?thesis
    proof (cases r)
      case (Inl e)
      then have w1: "tmpfiles w1 = tmpfiles w" using adds_files_Inl [OF m] Pair by simp
      obtain x w2 where x: "h e w1 = (x, w2)" by (cases "h e w1")
      have w2: "tmpfiles w2 = tmpfiles w1" by (rule files.keeps_run [OF h x])
      show ?thesis
        using Pair Inl x w1 w2 hl [of e w1 _ w2] by (cases x) (auto simp: bindM_run catchM_def)
    next
      case (Inr kp)
      obtain k ps where kp: "kp = (k, ps)" by (cases kp)
      obtain fs where fs: "tmpfiles w1 = fs @ tmpfiles w" "image_mset fst (mset fs) = mset ps"
        using adds_files_Inr [OF m, of w k ps w1] Pair Inr kp by auto
      obtain x w2 where x: "F k ps w1 = (x, w2)" by (cases "F k ps w1")
      have w2: "tmpfiles w2 = tmpfiles w1" by (rule files.keeps_run [OF F x])
      show ?thesis
        using unlink_new [of w2 fs "tmpfiles w" ps] Pair Inr kp x w2 fs
        by (simp add: bindM_run catchM_def finallyM_def)
    qed
  qed
qed

lemma remote_files: "keeps_files (run_remote env c a ps dry)"
proof -
  have h: "keeps_files (case e of VaultUnavailableError m \<Rightarrow> returnM (Inl (g m)) | _ \<Rightarrow> raiseM e)" for e g
    by (cases e) (auto intro: files.keeps_rules)
  have hl: "\<exists>r. x = Inl r"
    if "(case e of VaultUnavailableError m \<Rightarrow> returnM (Inl (g m)) | _ \<Rightarrow> raiseM e) w = (Inr x, w')" for e g w x w'
    using that by (cases e) auto
  have F: "keeps_files (bindM (subprocess_run env cmd) (\<lambda>out. returnM (f out)))" for cmd f
    by (intro files.keeps_rules subprocess_files)
  have key: "adds_files {#} (resolve_ssh_key env v)" for v
    unfolding resolve_ssh_key_def by (rule adds_secret_file)
  show ?thesis
    unfolding run_remote_def Let_def
    by (intro keeps_cases files.keeps_rules files_with_secret key h F) (erule hl)
qed

lemma evict_files: "keeps_files (evict env conf p r)"
proof -
  have "keeps_files (case e of ApiException st reason body t \<Rightarrow> returnM (f st reason body t) | _ \<Rightarrow> raiseM e)" for e f
    by (cases e) (auto intro: files.keeps_rules)
  then show ?thesis unfolding evict_def by (intro files.keeps_rules kube_call_files)
qed

lemma drain_pods_files: "keeps_files (drain_pods env conf pods r)"
  by (induction pods arbitrary: r) (auto intro!: files.keeps_rules evict_files)

lemma handler_files: "keeps_files (kube_handler env verb conf rendered)"
proof -
  have t: "keeps_files (time_time env)" by (intro outer_files outer_primitives)
  show ?thesis
    unfolding kube_handler_def kube_rollout_restart_def kube_delete_pod_def kube_scale_def
      kube_cordon_node_def kube_uncordon_node_def kube_drain_node_def kube_patch_configmap_def
      set_unschedulable_def Let_def
    by (intro keeps_cases files.keeps_rules kube_call_files drain_pods_files t)
qed

lemma kube_files: "keeps_files (run_kube_action env c a ps dry)"
proof -
  have F: "keeps_files (catchM (kube_handler env vb conf rendered) (\<lambda>e. returnM (api_error_result e)))"
    for vb conf rendered
    by (intro files.keeps_rules handler_files)
  show ?thesis
    unfolding run_kube_action_def
    by (intro keeps_cases files.keeps_rules files_with_secret adds_configuration F) auto
qed

lemma execute_files: "keeps_files (execute_action env ac cc ps dry)"
  unfolding execute_action_def run_playbook_def run_script_def run_command_def Let_def
  by (intro keeps_cases files.keeps_rules kube_files remote_files subprocess_files)


section \<open>Exceptions\<close>

text \<open>The processes and Kubernetes calls of a trace: what may have changed a managed system.\<close>

definition is_infra :: "effect \<Rightarrow> bool" where
  "is_infra e = (case e of ProcEffect _ \<Rightarrow> True | KubeEffect _ _ \<Rightarrow> True | _ \<Rightarrow> False)"

definition infra :: "'s world_scheme \<Rightarrow> effect list" where
  "infra w = filter is_infra (trace w)"

interpretation infra: state_preorder "\<lambda>w w' :: 's world_scheme. infra w' = infra w"
  by unfold_locales auto

abbreviation keeps_infra :: "('s world_scheme, 'a) pym \<Rightarrow> bool" where
  "keeps_infra m \<equiv> keeps (\<lambda>w w'. infra w' = infra w) m"

lemma infra_primitives:
  "keeps_infra (time_time env)" "keeps_infra (do_http env req)" "keeps_infra (read_path env p)"
  "keeps_infra next_tick" "keeps_infra (modifyM (\<lambda>w. w\<lparr>vault := f w\<rparr>))"
  "keeps_infra (modifyM (\<lambda>w. w\<lparr>tmpfiles := g w\<rparr>))" "keeps_infra (modifyM (unlink_all ps))"
  by (simp_all add: keeps_def infra_def is_infra_def unlink_all_def)

lemma secret_infra: "keeps_infra (get_secret env p)"
  unfolding get_secret_def fetch_secret_def resolve_token_def ensure_kubernetes_token_def login_kubernetes_def
  by (intro infra.keeps_rules keeps_cases infra_primitives)

lemma ref_infra: "keeps_infra (resolve_vault_ref env v d)"
  unfolding resolve_vault_ref_def by (intro infra.keeps_rules keeps_cases secret_infra)

lemma secret_file_infra: "keeps_infra (resolve_secret_file env v d)"
  unfolding resolve_secret_file_def mkstemp_def write_tmp_def
  by (intro infra.keeps_rules keeps_cases infra_primitives ref_infra)

text \<open>\<open>total m\<close>: \<open>m\<close> does not raise; \<open>quiet m\<close>: it raises only with no such effect.\<close>

definition total :: "('s, 'a) pym \<Rightarrow> bool" where
  "total m \<longleftrightarrow> (\<forall>w. \<exists>x w'. m w = (Inr x, w'))"

definition quiet :: "('s world_scheme, 'a) pym \<Rightarrow> bool" where
  "quiet m \<longleftrightarrow> (\<forall>w e w'. m w = (Inl e, w') \<longrightarrow> infra w' = infra w)"

lemma total_return: "total (returnM x)"
  by (simp add: total_def)

lemma total_bind: "total m \<Longrightarrow> (\<And>x. total (f x)) \<Longrightarrow> total (bindM m f)"
  unfolding total_def bindM_run by (metis (no_types, lifting) old.prod.case old.sum.simps(6))

lemma total_catch: "(\<And>e. total (h e)) \<Longrightarrow> total (catchM m h)"
  unfolding total_def catchM_def by (auto split: prod.split sum.split)

lemma total_finally: "total m \<Longrightarrow> total (finallyM m f)"
  unfolding total_def finallyM_def by (auto split: prod.split) (metis Pair_inject)

lemma total_if: "total m \<Longrightarrow> total n \<Longrightarrow> total (if b then m else n)"
  by simp

lemma total_subprocess: "total (subprocess_run env cmd)"
  by (auto simp: total_def subprocess_run_def split: sum.split)

lemma total_quiet: "total m \<Longrightarrow> quiet m"
  unfolding total_def quiet_def by (metis Inl_Inr_False Pair_inject)

lemma quiet_return: "quiet (returnM x)"
  by (simp add: quiet_def)

lemma quiet_keeps: "keeps_infra m \<Longrightarrow> quiet m"
  unfolding quiet_def by (blast dest: infra.keeps_run)

lemma quiet_bind:
  assumes "keeps_infra m" "\<And>x. quiet (f x)"
  shows "quiet (bindM m f)"
  unfolding quiet_def
proof (intro allI impI)
  fix w e w'
  assume "bindM m f w = (Inl e, w')"
  from bindM_run_Inl [OF this] show "infra w' = infra w"
    using assms(2) unfolding quiet_def by (metis infra.keeps_run [OF assms(1)])
qed

lemma quiet_bind_total:
  assumes "quiet m" "\<And>x. total (f x)"
  shows "quiet (bindM m f)"
  unfolding quiet_def
proof (intro allI impI)
  fix w e w'
  assume "bindM m f w = (Inl e, w')"
  from bindM_run_Inl [OF this] show "infra w' = infra w"
    using assms unfolding quiet_def total_def by (metis Inl_Inr_False Pair_inject)
qed

lemma quiet_if: "quiet m \<Longrightarrow> quiet n \<Longrightarrow> quiet (if b then m else n)"
  by simp

lemmas total_rules = total_return total_bind total_catch total_finally total_if total_subprocess

lemma playbook_total: "total (run_playbook env p vs dry)"
  unfolding run_playbook_def by (intro total_rules)

lemma script_total: "total (run_script env p args dry)"
  unfolding run_script_def by (intro total_rules)

lemma quiet_raise: "quiet (raiseM e)"
  by (simp add: quiet_def)

lemma command_quiet: "quiet (run_command env t ps dry)"
  unfolding run_command_def
  by (auto split: sum.split intro!: quiet_if quiet_raise total_quiet total_rules)


lemma remote_quiet: "quiet (run_remote env c a ps dry)"
proof -
  have tail: "total (case x of Inl r \<Rightarrow> returnM r | Inr (key, tmp) \<Rightarrow>
      finallyM (bindM (subprocess_run env (f key)) (\<lambda>out. returnM (g out))) (unlink_all tmp))" for x f g
    by (auto split: sum.split intro!: total_rules)
  have h: "keeps_infra (case e of VaultUnavailableError m \<Rightarrow> returnM (Inl (k m)) | _ \<Rightarrow> raiseM e)" for e k
    by (cases e) (auto intro: infra.keeps_rules)
  have key: "quiet (catchM (bindM (resolve_ssh_key env v) (\<lambda>k. returnM (Inr k)))
      (\<lambda>e. case e of VaultUnavailableError m \<Rightarrow> returnM (Inl (k m)) | _ \<Rightarrow> raiseM e))" for v k
    unfolding resolve_ssh_key_def by (intro quiet_keeps infra.keeps_rules secret_file_infra h)
  show ?thesis
    unfolding run_remote_def Let_def
    by (intro quiet_bind infra.keeps_lift quiet_if quiet_return)
      (auto split: sum.split option.split intro!: quiet_raise quiet_return quiet_bind_total key tail)
qed

lemma kube_quiet: "quiet (run_kube_action env c a ps dry)"
proof -
  have tail: "total (bindM (catchM m (\<lambda>e. returnM (Inl (f e)))) (\<lambda>b. case b of Inl r \<Rightarrow> returnM r
     | Inr (conf, ps) \<Rightarrow> finallyM (catchM (g conf) (\<lambda>e. returnM (api_error_result e))) (unlink_all ps)))" for m f g
    by (intro total_bind) (auto split: sum.split intro!: total_rules)
  show ?thesis
    unfolding run_kube_action_def
    by (intro quiet_bind infra.keeps_lift quiet_if quiet_raise)
      (auto split: pyval.split sum.split intro!: quiet_raise quiet_return total_quiet tail)
qed

text \<open>
  C29. An exception never hides an execution: when the dispatch raises instead of returning a result,
  it has started no process and made no Kubernetes call, so everything that touched a managed system
  comes back to the caller as a result to be recorded.
\<close>

theorem exception_means_untouched:
  assumes "execute_action env ac cc ps dry w = (Inl e, w')"
  shows "infra w' = infra w"
proof -
  have "quiet (execute_action env ac cc ps dry)"
    unfolding execute_action_def Let_def
    by (intro quiet_bind infra.keeps_lift quiet_if quiet_return quiet_bind_total kube_quiet remote_quiet
        command_quiet total_quiet [OF playbook_total] total_quiet [OF script_total] total_return)
  then show ?thesis using assms by (auto simp: quiet_def)
qed

theorem exception_means_untouched_witness:
  "infra (snd (execute_action example_env (PDict [(''command'', PInt 3)]) (PDict [(''type'', PStr ''local'')]) [] False
      example_world)) = []"
proof -
  obtain e w' where r: "execute_action example_env (PDict [(''command'', PInt 3)]) (PDict [(''type'', PStr ''local'')])
      [] False example_world = (Inl e, w')"
    by (simp add: execute_action_def bindM_run is_local_controller_def run_command_def format_template_def
        lookup_error_def attr_error_def)
  show ?thesis using exception_means_untouched [OF r] by (simp only: r snd_conv) (simp add: infra_def example_world_def)
qed

section \<open>Remote commands\<close>

lemma has_key_map: "has_key (map (\<lambda>(k, v). (k, f v)) ps) k \<longleftrightarrow> has_key ps k"
  by (induction ps) (auto simp: has_key_def)

lemma map_of_map_val: "map_of (map (\<lambda>(k, v). (k, f v)) ps) k = map_option f (map_of ps k)"
  by (induction ps) auto

lemma dget_map: "has_key ps k \<Longrightarrow> dget (map (\<lambda>(k, v). (k, f v)) ps) k = f (dget ps k)"
  by (auto simp: dget_def map_of_map_val has_key_map_of)

lemma word_text_cong:
  "(\<And>k. Par k \<in> set w \<Longrightarrow> f k = g k) \<Longrightarrow> word_text f w = word_text g w"
  unfolding word_text_def
proof (induction w)
  case Nil
  then show ?case by simp
next
  case (Cons p w)
  then show ?case by (cases p) auto
qed

lemma word_pars:
  "list_all (list_all (piece_formats ps)) ws \<Longrightarrow> w \<in> set ws \<Longrightarrow> Par k \<in> set w \<Longrightarrow> has_key ps k"
  by (fastforce simp: list_all_iff)

lemma format_mapped:
  assumes "list_all (list_all (piece_formats ps)) ws"
  shows "format_template env (map (\<lambda>(k, v). (k, PStr (f v))) ps)
      (PStr (join '' '' (map (\<lambda>w. concat (map piece_tmpl w)) ws)))
    = Inr (join '' '' (map (word_text (\<lambda>k. f (dget ps k))) ws))"
proof -
  let ?kw = "map (\<lambda>(k, v). (k, PStr (f v))) ps"
  have "piece_formats ?kw p = piece_formats ps p" for p
    by (cases p) (simp_all add: has_key_map)
  then have "piece_formats ?kw = piece_formats ps" by (rule ext)
  then have "list_all (list_all (piece_formats ?kw)) ws" using assms by simp
  from format_words [OF this] have "format_template env ?kw
      (PStr (join '' '' (map (\<lambda>w. concat (map piece_tmpl w)) ws)))
    = Inr (join '' '' (map (word_text (\<lambda>k. str_of env (dget ?kw k))) ws))"
    by (simp add: format_template_def)
  moreover have "map (word_text (\<lambda>k. str_of env (dget ?kw k))) ws = map (word_text (\<lambda>k. f (dget ps k))) ws"
    using word_pars [OF assms] by (auto intro!: word_text_cong simp: dget_map str_of_def)
  ultimately show ?thesis by simp
qed

lemma py_in_dict: "py_in k (PDict d) = Inr (map_of d k \<noteq> None)"
  by (simp add: map_of_eq_None_iff)



text \<open>
  The same for the other two kinds of action: a script gets its path and the texts of the
  parameters as its arguments, a playbook its path and the parameters as one JSON argument.
\<close>

theorem remote_argv:
  assumes "map_of d ''command'' = None"
    and "map_of d ''playbook'' = None \<Longrightarrow> map_of d ''script'' = Some (PStr path)"
    and "map_of d ''playbook'' \<noteq> None \<Longrightarrow> map_of d ''playbook'' = Some (PStr path)"
  shows "\<exists>cmd. build_remote_command env (PDict d) ps = Inr (Some cmd) \<and> shlex_split cmd =
    Inr (if map_of d ''playbook'' = None then path # map (\<lambda>(k, v). str_of env v) ps
         else [''ansible-playbook'', path]
           @ (if ps = [] then [] else [''--extra-vars'', json_dumps (env_float_repr env) (PDict ps)]))"
proof -
  have safe: "shlex_quote ''ansible-playbook'' = ''ansible-playbook''" "shlex_quote ''--extra-vars'' = ''--extra-vars''"
    by (simp_all add: shlex_quote_def shell_safe_def)
  show ?thesis
  proof (cases "map_of d ''playbook''")
    case None
    have "build_remote_command env (PDict d) ps
        = Inr (Some (join '' '' (shlex_quote path # map (\<lambda>(k, v). shlex_quote (str_of env v)) ps)))"
      using assms(1) assms(2) [OF None] None
      by (simp add: build_remote_command_def py_in_dict quote_val_def del: py_in.simps)
    also have "shlex_quote path # map (\<lambda>(k, v). shlex_quote (str_of env v)) ps
        = map shlex_quote (path # map (\<lambda>(k, v). str_of env v) ps)"
      by (simp add: case_prod_unfold)
    finally show ?thesis using None split_quoted by (simp only: simp_thms if_True) blast
  next
    case (Some v)
    let ?args = "[''ansible-playbook'', path]
      @ (if ps = [] then [] else [''--extra-vars'', json_dumps (env_float_repr env) (PDict ps)])"
    have p: "map_of d ''playbook'' = Some (PStr path)" using assms(3) Some by simp
    have "build_remote_command env (PDict d) ps = Inr (Some (join '' ''
        ([''ansible-playbook'', shlex_quote path]
          @ (if ps = [] then [] else [''--extra-vars'', shlex_quote (json_dumps (env_float_repr env) (PDict ps))]))))"
      using assms(1) p by (simp add: build_remote_command_def py_in_dict quote_val_def del: py_in.simps)
    also have "[''ansible-playbook'', shlex_quote path]
          @ (if ps = [] then [] else [''--extra-vars'', shlex_quote (json_dumps (env_float_repr env) (PDict ps))])
        = map shlex_quote ?args"
      by (simp add: safe)
    finally show ?thesis using p split_quoted [of ?args] by (intro exI conjI) (assumption, simp)
  qed
qed

theorem remote_argv_witness:
  "\<exists>cmd. build_remote_command example_env (PDict [(''script'', PStr ''scripts/clean up.sh'')])
       [(''path'', PStr ''/var/$(id)'')] = Inr (Some cmd)
     \<and> shlex_split cmd = Inr [''scripts/clean up.sh'', ''/var/$(id)'']"
  using remote_argv [of "[(''script'', PStr ''scripts/clean up.sh'')]" "''scripts/clean up.sh''" example_env
      "[(''path'', PStr ''/var/$(id)'')]"]
  by (simp add: str_of_def)

section \<open>Local commands\<close>

lemma join_nested: "xs \<noteq> [] \<Longrightarrow> join sep (ps @ [join sep xs]) = join sep (ps @ xs)"
  by (induction ps) (auto simp: join_Cons)

text \<open>
  A local command, unlike a remote one, is substituted first and split afterwards: when a
  parameter holds several words the process gets each of them as an argument of its own.
\<close>

theorem local_command_splits_parameter:
  assumes words: "list_all (\<lambda>s. s \<noteq> [] \<and> list_all sh_plain s) (cmd @ xs)" and "cmd \<noteq> []" "xs \<noteq> []"
    and lit: "list_all no_brace cmd" and "plain_name k"
  shows "trace (snd (run_command env (PStr (join '' '' (cmd @ [''{'' @ k @ ''}'']))) [(k, PStr (join '' '' xs))]
      False w)) = trace w @ [ProcEffect (cmd @ xs)]"
proof -
  let ?ws = "map (\<lambda>s. [Lit s]) cmd @ [[Par k]]"
  have tmpl: "map (\<lambda>w. concat (map piece_tmpl w)) ?ws = cmd @ [''{'' @ k @ ''}'']"
    by (simp add: comp_def)
  have "list_all (list_all (piece_formats [(k, PStr (join '' '' xs))])) ?ws"
    using lit assms(5) by (auto simp: list_all_iff has_key_def)
  from format_mapped [OF this, of env "str_of env"]
  have f: "format_template env [(k, PStr (join '' '' xs))] (PStr (join '' '' (cmd @ [''{'' @ k @ ''}''])))
      = Inr (join '' '' (cmd @ [join '' '' xs]))"
    unfolding tmpl by (simp add: comp_def word_text_def dget_def str_of_def)
  have "shlex_split (join '' '' (map (word_text (\<lambda>k. shlex_quote (id k))) (map (\<lambda>s. [Lit s]) (cmd @ xs))))
      = Inr (map (word_text id) (map (\<lambda>s. [Lit s]) (cmd @ xs)))"
    using words by (intro split_words) (auto simp: list_all_iff word_ok_def)
  then have sp: "shlex_split (join '' '' (cmd @ [join '' '' xs])) = Inr (cmd @ xs)"
    using assms(3) by (simp add: join_nested comp_def word_text_def)
  have args: "rmap as_argument (map PStr ys) = Inr ys" for ys
    by (induction ys) (simp_all add: as_argument_def)
  show ?thesis
    using f sp assms(2) args [of "cmd @ xs"]
    by (simp add: run_command_def str_of_def subprocess_run_def bindM_run)
qed

theorem local_command_splits_parameter_witness:
  "trace (snd (run_command example_env (PStr ''systemctl restart {unit}'') [(''unit'', PStr ''nginx --force'')]
      False example_world)) = [ProcEffect [''systemctl'', ''restart'', ''nginx'', ''--force'']]"
  using local_command_splits_parameter
    [of "[''systemctl'', ''restart'']" "[''nginx'', ''--force'']" "''unit''" example_env example_world]
  by (simp add: sh_plain_def sh_white_def SQ_def DQ_def BS_def no_brace_def plain_name_def field_stop_def
      is_digit_def example_world_def)

section \<open>Success and draining\<close>

lemma subprocess_run_done:
  assumes "subprocess_run env cmd w = (Inr (ProcDone rc so se), w')"
  obtains argv where "cmd = map PStr argv" "env_proc env (tick w) argv = ProcDone rc so se"
    "trace w' = trace w @ [ProcEffect argv]"
proof -
  have arg: "rmap as_argument cmd = Inr argv \<Longrightarrow> cmd = map PStr argv" for argv
    by (induction cmd arbitrary: argv) (auto simp: rbind_eq_Inr as_argument_def split: pyval.splits)
  obtain argv where "rmap as_argument cmd = Inr argv"
    using assms by (auto simp: subprocess_run_def split: sum.splits)
  then show ?thesis
    using assms arg by (intro that [of argv]) (auto simp: subprocess_run_def split: if_splits)
qed

lemma local_result_success:
  "er_success (local_result out) \<longleftrightarrow> (\<exists>so se. out = ProcDone 0 so se)"
  by (cases out) (auto simp: local_result_def proc_result_def fail_result_def)

lemma remote_result_success:
  "er_success (remote_result t h out) \<longleftrightarrow> (\<exists>so se. out = ProcDone 0 so se)"
  by (cases out) (auto simp: remote_result_def proc_result_def fail_result_def
      SSH_CONNECTION_FAILURE_EXIT_CODE_def)

text \<open>
  C30. A remote action is reported as a success only when one \<open>ssh\<close> process ran, for the controller's
  user and host and with the command line that was built from the action, and exited with 0.
\<close>

theorem remote_success_means_exit_zero:
  assumes "run_remote env (PDict c) a ps False w = (Inr r, w')" "er_success r"
  shows "\<exists>cmd key argv n so se. build_remote_command env a ps = Inr (Some cmd)
    \<and> map PStr argv = ssh_command key (str_of env (dget c ''ssh_user'') @ ''@'' @ str_of env (dget c ''host'')) cmd
    \<and> infra w' = infra w @ [ProcEffect argv] \<and> env_proc env n argv = ProcDone 0 so se"
proof -
  have nofail: "\<not> er_success (fail_result m)" for m by (simp add: fail_result_def)
  obtain cmd where cmd: "build_remote_command env a ps = Inr (Some cmd)"
    using assms nofail by (auto simp: run_remote_def raiseM_def simp del: py_get_or.simps split: if_splits sum.splits option.splits)
  let ?target = "str_of env (dget c ''ssh_user'') @ ''@'' @ str_of env (dget c ''host'')"
  have hu: "py_truthy (dget c ''host'')" "py_truthy (dget c ''ssh_user'')"
    using assms nofail by (auto simp: run_remote_def simp del: py_get_or.simps split: if_splits)
  obtain k w1 where k: "resolve_ssh_key env (dget c ''ssh_key'') w = (k, w1)"
    by (cases "resolve_ssh_key env (dget c ''ssh_key'') w")
  have w1: "infra w1 = infra w"
    using infra.keeps_run [OF secret_file_infra] k by (simp add: resolve_ssh_key_def)
  obtain key tmp where key: "k = Inr (key, tmp)"
    using assms nofail cmd hu k
    by (cases k) (auto simp: run_remote_def bindM_run catchM_def raiseM_def Let_def simp del: py_get_or.simps split: py_exn.splits)
  obtain out w2 where o: "subprocess_run env (ssh_command key ?target cmd) w1 = (Inr out, w2)"
    using total_subprocess [of env "ssh_command key ?target cmd"] unfolding total_def by blast
  have r: "r = remote_result ?target (str_of env (dget c ''host'')) out" "w' = unlink_all tmp w2"
    using assms(1) cmd hu k key o
    by (auto simp: run_remote_def bindM_run catchM_def finallyM_def Let_def simp del: py_get_or.simps)
  then obtain so se where out: "out = ProcDone 0 so se"
    using assms(2) remote_result_success by blast
  obtain argv where argv: "ssh_command key ?target cmd = map PStr argv"
    "env_proc env (tick w1) argv = ProcDone 0 so se" "trace w2 = trace w1 @ [ProcEffect argv]"
    by (rule subprocess_run_done [OF o [unfolded out]])
  have "infra w' = infra w @ [ProcEffect argv]"
    using argv(3) w1 by (simp add: r(2) infra_def unlink_all_def is_infra_def)
  then show ?thesis using cmd argv by metis
qed

theorem remote_success_means_exit_zero_witness:
  "length (infra (snd (run_remote (example_env\<lparr>env_proc := \<lambda>n cmd. ProcDone 0 ''up'' []\<rparr>)
     (PDict [(''host'', PStr ''h1''), (''ssh_user'', PStr ''ops'')]) (PDict [(''command'', PStr ''uptime'')]) [] False
     example_world))) = 1"
proof -
  let ?e = "example_env\<lparr>env_proc := \<lambda>n cmd. ProcDone 0 ''up'' []\<rparr>"
  let ?c = "[(''host'', PStr ''h1''), (''ssh_user'', PStr ''ops'')]"
  have cmd: "build_remote_command ?e (PDict [(''command'', PStr ''uptime'')]) [] = Inr (Some ''uptime'')"
    by (simp add: build_remote_command_def format_template_def)
  obtain w' where r: "run_remote ?e (PDict ?c) (PDict [(''command'', PStr ''uptime'')]) [] False example_world
      = (Inr (proc_result 0 ''up'' []), w')"
    by (simp add: run_remote_def cmd resolve_ssh_key_def resolve_secret_file_def bindM_run catchM_def Let_def
        finallyM_def subprocess_run_def ssh_command_def as_argument_def remote_result_def
        SSH_CONNECTION_FAILURE_EXIT_CODE_def str_of_def)
  have i: "infra example_world = []" by (simp add: infra_def example_world_def)
  from remote_success_means_exit_zero [OF r] obtain argv where "infra w' = infra example_world @ [ProcEffect argv]"
    by (auto simp: proc_result_def)
  then show ?thesis by (simp add: r i)
qed

text \<open>The eviction the code asks for a pod.\<close>

definition eviction :: "pyval \<Rightarrow> pod_info \<Rightarrow> effect" where
  "eviction conf p = KubeEffect ''create_namespaced_pod_eviction''
     [(''configuration'', conf), (''name'', pd_name p), (''namespace'', pd_namespace p)]"

lemma evict_run:
  assumes "evict env conf p r w = (Inr r', w')"
  shows "dr_skipped r' = dr_skipped r @ (if pd_daemonset p then [pd_name p] else [])
    \<and> trace w' = trace w @ (if pd_daemonset p then [] else [eviction conf p])
    \<and> mset (dr_evicted r') + mset (map fst (dr_failed r'))
        = mset (dr_evicted r) + mset (map fst (dr_failed r)) + (if pd_daemonset p then {#} else {#pd_name p#})"
  using assms
  by (auto simp: evict_def catchM_def bindM_run kube_call_def Let_def eviction_def raiseM_def
      split: if_splits kube_out.splits)

lemma drain_run:
  assumes "drain_pods env conf pods r w = (Inr r', w')"
  shows "\<exists>infos. rmap pod_info_of pods = Inr infos
    \<and> dr_skipped r' = dr_skipped r @ map pd_name (filter pd_daemonset infos)
    \<and> trace w' = trace w @ map (eviction conf) (filter (\<lambda>p. \<not> pd_daemonset p) infos)
    \<and> mset (dr_evicted r') + mset (map fst (dr_failed r'))
        = mset (dr_evicted r) + mset (map fst (dr_failed r))
          + mset (map pd_name (filter (\<lambda>p. \<not> pd_daemonset p) infos))"
  using assms
proof (induction pods arbitrary: r w)
  case Nil
  then show ?case by auto
next
  case (Cons pod pods)
  obtain p where p: "pod_info_of pod = Inr p"
    using Cons.prems by (auto simp: bindM_run split: sum.splits)
  obtain r1 w1 where e: "evict env conf p r w = (Inr r1, w1)" "drain_pods env conf pods r1 w1 = (Inr r', w')"
    using Cons.prems p by (auto dest: bindM_run_Inr)
  obtain infos where i: "rmap pod_info_of pods = Inr infos"
    "dr_skipped r' = dr_skipped r1 @ map pd_name (filter pd_daemonset infos)"
    "trace w' = trace w1 @ map (eviction conf) (filter (\<lambda>p. \<not> pd_daemonset p) infos)"
    "mset (dr_evicted r') + mset (map fst (dr_failed r'))
        = mset (dr_evicted r1) + mset (map fst (dr_failed r1))
          + mset (map pd_name (filter (\<lambda>p. \<not> pd_daemonset p) infos))"
    using Cons.IH [OF e(2)] by blast
  show ?case
    using p i evict_run [OF e(1)] by (intro exI [of _ "p # infos"]) (auto simp: ac_simps)
qed



end
