(* ===== verification/AuditLog.thy ===== *)
theory AuditLog
  imports Vault
begin

text \<open>
  \<open>src/audit.py\<close>: the hash-chained log, its rotation and retention, the verifier, and the mirror to
  external platforms. The log file and its archives are part of the state (\<open>fs\<close>); a write that
  fails after some characters is \<open>env_save_fault\<close>. SHA-256 is a parameter: no property assumes
  that it has no collisions, those that need it say that otherwise a collision is at hand.
\<close>

record disk = world +
  fs :: files

section \<open>Hashing\<close>

definition GENESIS_HASH :: string where
  "GENESIS_HASH = replicate 64 (CHR ''0'')"

definition SERVICE_NAME :: string where
  "SERVICE_NAME = ''auto-healer''"

definition canonical :: "env \<Rightarrow> pydict \<Rightarrow> string" where
  "canonical env entry = json_canonical (env_float_repr env) (PDict entry)"

definition hash_entry :: "env \<Rightarrow> pydict \<Rightarrow> string" where
  "hash_entry env entry = env_sha256 env (canonical env entry)"

section \<open>Reading the ends of a file\<close>

definition is_nl :: "char \<Rightarrow> bool" where
  "is_nl c \<longleftrightarrow> c = CHR 0x0A"

text \<open>\<open>rsplit(b"\n", 1)[-1]\<close>.\<close>

definition after_last_nl :: "string \<Rightarrow> string" where
  "after_last_nl s = rev (takeWhile (\<lambda>c. \<not> is_nl c) (rev s))"

text \<open>
  The backwards loop over a file with contents \<open>s\<close>: \<open>pos\<close> is how much is still unread and \<open>buf\<close> what
  has been. A chunk size of 0 never gets anywhere: then the value is \<open>None\<close>.
\<close>

partial_function (option) last_line_loop :: "nat \<Rightarrow> string \<Rightarrow> string \<Rightarrow> nat \<Rightarrow> string option option" where
  "last_line_loop chunk_size s buf pos =
     (if pos = 0 then Some None
      else
        let read_size = min chunk_size pos; pos' = pos - read_size;
            buf' = take read_size (drop pos' s) @ buf; stripped = strip_right is_nl buf' in
        if list_ex is_nl stripped then Some (Some (after_last_nl stripped))
        else if pos' = 0 then Some (if stripped \<noteq> [] then Some stripped else None)
        else last_line_loop chunk_size s buf' pos')"

definition read_last_line :: "nat \<Rightarrow> string option \<Rightarrow> string option option" where
  "read_last_line chunk_size contents =
     (case contents of
        None \<Rightarrow> Some None
      | Some s \<Rightarrow> if s = [] then Some None else last_line_loop chunk_size s [] (length s))"

definition CHUNK_SIZE :: nat where
  "CHUNK_SIZE = 65536"

text \<open>What the loop computes, over the whole text at once.\<close>

definition last_line :: "string \<Rightarrow> string option" where
  "last_line s =
     (let t = strip_right is_nl s in if t = [] then None else Some (after_last_nl t))"

definition first_entry_timestamp :: "env \<Rightarrow> string option \<Rightarrow> iso_stamp option result" where
  "first_entry_timestamp env contents =
     (case contents of
        None \<Rightarrow> Inr None
      | Some s \<Rightarrow>
          (case filter (\<lambda>l. l \<noteq> []) (map strip (text_lines s)) of
             [] \<Rightarrow> Inr None
           | line # _ \<Rightarrow>
               (case json_loads (env_float_parse env) line of
                  Inl _ \<Rightarrow> Inr None
                | Inr entry \<Rightarrow>
                    rbind (py_get entry ''timestamp'') (\<lambda>ts.
                    if \<not> py_truthy ts then Inr None
                    else
                      case ts of
                        PStr t \<Rightarrow>
                          (case env_iso_parse env t of
                             IsoInvalid \<Rightarrow> Inr None
                           | stamp \<Rightarrow> Inr (Some stamp))
                      | v \<Rightarrow> Inl (attr_error v ''replace'')))))"

section \<open>The chain\<close>

record audit_chain =
  ac_path :: string
  ac_retention :: pyval

definition load_retention_config :: "(string \<Rightarrow> pyval option) \<Rightarrow> file_read \<Rightarrow> pyval result" where
  "load_retention_config yaml fr =
     rbind (py_get (load_yaml_or_empty yaml fr) ''retention'') (\<lambda>v. Inr (py_or v (PDict [])))"

definition chain_init :: "(string \<Rightarrow> pyval option) \<Rightarrow> string \<Rightarrow> file_read \<Rightarrow> audit_chain result" where
  "chain_init yaml path fr =
     rbind (load_retention_config yaml fr) (\<lambda>r. Inr \<lparr>ac_path = path, ac_retention = r\<rparr>)"

definition current_state :: "env \<Rightarrow> string option \<Rightarrow> int \<times> string" where
  "current_state env contents =
     (case read_last_line CHUNK_SIZE contents of
        Some (Some line) \<Rightarrow>
          (case json_loads (env_float_parse env) line of
             Inr (PDict d) \<Rightarrow>
               (case (map_of d ''sequence'', map_of d ''entry_hash'') of
                  (Some sq, Some h) \<Rightarrow>
                    (case py_int sq of
                       Inr i \<Rightarrow> (i, py_str (env_float_repr env) h)
                     | Inl _ \<Rightarrow> (0, GENESIS_HASH))
                | _ \<Rightarrow> (0, GENESIS_HASH))
           | _ \<Rightarrow> (0, GENESIS_HASH))
      | _ \<Rightarrow> (0, GENESIS_HASH))"

text \<open>\<open>open(path, "a")\<close> and one write.\<close>

definition append_file :: "env \<Rightarrow> string \<Rightarrow> string \<Rightarrow> ('s disk_scheme, unit) pym" where
  "append_file env path t =
     bindM next_tick (\<lambda>n.
     bindM (getM (\<lambda>w. case fs w path of None \<Rightarrow> [] | Some s \<Rightarrow> s)) (\<lambda>old.
     case env_save_fault env n of
       None \<Rightarrow> modifyM (\<lambda>w. w\<lparr>fs := (fs w)(path \<mapsto> old @ t)\<rparr>)
     | Some k \<Rightarrow>
         bindM (modifyM (\<lambda>w. w\<lparr>fs := (fs w)(path \<mapsto> old @ take k t)\<rparr>)) (\<lambda>_.
         raiseM (OSError ''write failed''))))"

definition chained_entry :: "env \<Rightarrow> string option \<Rightarrow> pydict \<Rightarrow> pydict" where
  "chained_entry env contents entry =
     (case current_state env contents of
        (last_sequence, last_hash) \<Rightarrow>
          let chained = alist_merge (alist_merge [] entry)
                [(''sequence'', PInt (last_sequence + 1)), (''prev_hash'', PStr last_hash)] in
          AList.update ''entry_hash'' (PStr (hash_entry env chained)) chained)"

definition entry_line :: "env \<Rightarrow> pydict \<Rightarrow> string" where
  "entry_line env entry = json_dumps (env_float_repr env) (PDict entry) @ [CHR 0x0A]"

definition write_locked :: "env \<Rightarrow> audit_chain \<Rightarrow> pydict \<Rightarrow> ('s disk_scheme, pydict) pym" where
  "write_locked env ac entry =
     bindM (getM (\<lambda>w. chained_entry env (fs w (ac_path ac)) entry)) (\<lambda>chained.
     bindM (append_file env (ac_path ac) (entry_line env chained)) (\<lambda>_.
     returnM chained))"

section \<open>Rotation and retention\<close>

definition SECONDS_PER_DAY :: rat where
  "SECONDS_PER_DAY = 86400"

definition should_rotate :: "env \<Rightarrow> audit_chain \<Rightarrow> ('s disk_scheme, bool) pym" where
  "should_rotate env ac =
     (let cfg = ac_retention ac in
     bindM (liftM (py_get cfg ''enabled'')) (\<lambda>enabled.
     bindM (getM (\<lambda>w. fs w (ac_path ac))) (\<lambda>contents.
     if \<not> py_truthy enabled \<or> contents = None then returnM False
     else
       bindM (liftM (py_get cfg ''max_bytes'')) (\<lambda>max_bytes.
       bindM (if py_truthy max_bytes
              then liftM (rbind (num_or_raise ''>='' max_bytes) (\<lambda>m. Inr (m \<le> of_nat (length (the contents)))))
              else returnM False) (\<lambda>full.
       if full then returnM True
       else
         bindM (liftM (py_get cfg ''rotate_interval_days'')) (\<lambda>days.
         if \<not> py_truthy days then returnM False
         else
           bindM (liftM (first_entry_timestamp env contents)) (\<lambda>started_at.
           case started_at of
             None \<Rightarrow> returnM False
           | Some stamp \<Rightarrow>
               bindM (time_time env) (\<lambda>now.
               case stamp of
                 IsoAware t \<Rightarrow>
                   bindM (liftM (num_or_raise ''timedelta'' days)) (\<lambda>d.
                   returnM (d * SECONDS_PER_DAY \<le> now - t))
               | _ \<Rightarrow> raiseM (TypeError (''can'' @ [CHR 0x27] @ ''t subtract offset-naive and offset-aware datetimes''))))))))))"

text \<open>
  The first free archive name: the time stamp, then the same with a counter. Of more names than
  there are files one is free, so as many tries as there are files plus one are enough.
\<close>

definition archive_name :: "string \<Rightarrow> string \<Rightarrow> nat \<Rightarrow> string" where
  "archive_name path stamp i =
     path @ ''.'' @ stamp @ (if i = 0 then [] else ''-'' @ nat_text i)"

fun free_archive :: "nat \<Rightarrow> files \<Rightarrow> string \<Rightarrow> string \<Rightarrow> nat \<Rightarrow> string option" where
  "free_archive 0 disk path stamp i = None"
| "free_archive (Suc n) disk path stamp i =
     (if disk (archive_name path stamp i) = None then Some (archive_name path stamp i)
      else free_archive n disk path stamp (Suc i))"

definition dirname :: "string \<Rightarrow> string" where
  "dirname p =
     (let head = rev (dropWhile (\<lambda>c. c \<noteq> CHR ''/'') (rev p)) in
      if list_all (\<lambda>c. c = CHR ''/'') head then head else strip_right (\<lambda>c. c = CHR ''/'') head)"

definition basename :: "string \<Rightarrow> string" where
  "basename p = rev (takeWhile (\<lambda>c. c \<noteq> CHR ''/'') (rev p))"

definition path_join :: "string \<Rightarrow> string \<Rightarrow> string" where
  "path_join a b =
     (if startswith b ''/'' then b
      else if a = [] \<or> endswith a ''/'' then a @ b
      else a @ ''/'' @ b)"

text \<open>One candidate of the sweep: skipped, kept, or removed and noted.\<close>

definition sweep_step ::
  "env \<Rightarrow> string \<Rightarrow> string \<Rightarrow> rat \<Rightarrow> string \<Rightarrow> string list \<Rightarrow> ('s disk_scheme, string list) pym" where
  "sweep_step env directory base cutoff filename deleted =
     (if filename = base \<or> \<not> startswith filename (base @ ''.'') then returnM deleted
      else
        (let full_path = path_join directory filename in
         bindM next_tick (\<lambda>n.
         bindM (getM (\<lambda>w. fs w full_path)) (\<lambda>contents.
         case (if contents = None then None else env_mtime env n full_path) of
           None \<Rightarrow> returnM deleted
         | Some mtime \<Rightarrow>
             if mtime < cutoff then
               if env_remove_fault env n then returnM deleted
               else
                 bindM (modifyM (\<lambda>w. w\<lparr>fs := (fs w)(full_path := None)\<rparr>)) (\<lambda>_.
                 returnM (deleted @ [filename]))
             else returnM deleted))))"

fun sweep_loop ::
  "env \<Rightarrow> string \<Rightarrow> string \<Rightarrow> rat \<Rightarrow> string list \<Rightarrow> string list \<Rightarrow> ('s disk_scheme, string list) pym" where
  "sweep_loop env directory base cutoff [] deleted = returnM deleted"
| "sweep_loop env directory base cutoff (filename # candidates) deleted =
     bindM (sweep_step env directory base cutoff filename deleted) (\<lambda>deleted'.
     sweep_loop env directory base cutoff candidates deleted')"

definition sweep_retention :: "env \<Rightarrow> audit_chain \<Rightarrow> ('s disk_scheme, string list) pym" where
  "sweep_retention env ac =
     bindM (liftM (py_get (ac_retention ac) ''retention_days'')) (\<lambda>retention_days.
     if \<not> py_truthy retention_days then returnM []
     else
       bindM (time_time env) (\<lambda>now.
       bindM (liftM (num_or_raise ''timedelta'' retention_days)) (\<lambda>d.
       let cutoff = now - d * SECONDS_PER_DAY;
           directory = (if dirname (ac_path ac) = [] then ''.'' else dirname (ac_path ac));
           base = basename (ac_path ac) in
       bindM next_tick (\<lambda>n.
       case env_listdir env n directory of
         None \<Rightarrow> returnM []
       | Some candidates \<Rightarrow> sweep_loop env directory base cutoff candidates []))))"

definition rotation_entry :: "string \<Rightarrow> string \<Rightarrow> string list \<Rightarrow> pydict" where
  "rotation_entry timestamp archived deleted =
     [(''action'', PStr ''audit_log_rotation''), (''user'', PStr ''system''), (''role'', PStr ''system''),
      (''timestamp'', PStr timestamp), (''rotated_from'', PStr archived),
      (''deleted_archives'', PList (map PStr deleted))]"

definition rename_file :: "string \<Rightarrow> string \<Rightarrow> 's disk_scheme \<Rightarrow> 's disk_scheme" where
  "rename_file p q w = w\<lparr>fs := (fs w)(q := fs w p, p := None)\<rparr>"

definition maybe_rotate :: "env \<Rightarrow> audit_chain \<Rightarrow> ('s disk_scheme, unit) pym" where
  "maybe_rotate env ac =
     bindM (should_rotate env ac) (\<lambda>rotate.
     if \<not> rotate then returnM ()
     else
       bindM (time_time env) (\<lambda>now.
       bindM (getM fs) (\<lambda>disk.
       case free_archive (Suc (card (dom disk))) disk (ac_path ac) (env_stamp env now) 0 of
         None \<Rightarrow> raiseM (OtherError ''no free archive name'')
       | Some archived_path \<Rightarrow>
           bindM (modifyM (rename_file (ac_path ac) archived_path)) (\<lambda>_.
           bindM (sweep_retention env ac) (\<lambda>deleted.
           bindM (time_time env) (\<lambda>now2.
           bindM (write_locked env ac (rotation_entry (env_iso_time env now2) archived_path deleted)) (\<lambda>_.
           returnM ())))))))"

definition append_entry :: "env \<Rightarrow> audit_chain \<Rightarrow> pydict \<Rightarrow> ('s disk_scheme, pydict) pym" where
  "append_entry env ac entry =
     bindM (maybe_rotate env ac) (\<lambda>_. write_locked env ac entry)"

section \<open>The verifier\<close>

record verify_result =
  vr_ok :: bool
  vr_entries_checked :: nat
  vr_legacy_entries :: nat
  vr_segment_boundaries :: "nat list"
  vr_first_broken_line :: "nat option"
  vr_detail :: "string option"

definition verify_start :: verify_result where
  "verify_start =
     \<lparr>vr_ok = True, vr_entries_checked = 0, vr_legacy_entries = 0, vr_segment_boundaries = [],
      vr_first_broken_line = None, vr_detail = None\<rparr>"

definition broken :: "nat \<Rightarrow> string \<Rightarrow> verify_result \<Rightarrow> verify_result" where
  "broken n detail r = r\<lparr>vr_ok := False, vr_first_broken_line := Some n, vr_detail := Some detail\<rparr>"

definition is_chained :: "pydict \<Rightarrow> bool" where
  "is_chained d \<longleftrightarrow> has_key d ''sequence'' \<and> has_key d ''prev_hash'' \<and> has_key d ''entry_hash''"

definition hash_matches :: "env \<Rightarrow> pydict \<Rightarrow> bool" where
  "hash_matches env d \<longleftrightarrow>
     PStr (hash_entry env (filter (\<lambda>(k, v). k \<noteq> ''entry_hash'') d)) = dget d ''entry_hash''"

definition starts_segment :: "pydict \<Rightarrow> bool" where
  "starts_segment d \<longleftrightarrow> py_eq_scalar (dget d ''sequence'') (PInt 1) \<and> dget d ''prev_hash'' = PStr GENESIS_HASH"

text \<open>\<open>prev\<close> holds \<open>prev_sequence\<close> and \<open>prev_hash\<close>.\<close>

definition continues :: "pyval \<times> pyval \<Rightarrow> pydict \<Rightarrow> bool result" where
  "continues prev d =
     (case prev of (prev_sequence, prev_hash) \<Rightarrow>
        if prev_sequence = PNone then Inr False
        else
          rbind (num_or_raise ''+'' prev_sequence) (\<lambda>q.
          Inr (py_num (dget d ''sequence'') = Some (q + 1) \<and> dget d ''prev_hash'' = prev_hash)))"

fun verify_loop ::
  "env \<Rightarrow> nat \<Rightarrow> pyval \<times> pyval \<Rightarrow> verify_result \<Rightarrow> string list \<Rightarrow> verify_result result" where
  "verify_loop env n prev r [] = Inr r"
| "verify_loop env n prev r (raw # lines) =
     (let line = strip raw in
      if line = [] then verify_loop env (Suc n) prev r lines
      else
        case json_loads (env_float_parse env) line of
          Inl e \<Rightarrow> Inr (broken n (''Line '' @ nat_text n @ '' is not valid JSON: '' @ exn_text e) r)
        | Inr v \<Rightarrow>
            (case v of
               PDict d \<Rightarrow>
                 if \<not> is_chained d then
                   verify_loop env (Suc n) prev (r\<lparr>vr_legacy_entries := Suc (vr_legacy_entries r)\<rparr>) lines
                 else if \<not> hash_matches env d then
                   Inr (broken n (''Line '' @ nat_text n @ '' (sequence=''
                     @ py_str (env_float_repr env) (dget d ''sequence'') @ ''): stored entry_hash doesn''
                     @ [CHR 0x27] @ ''t match its own content - entry was modified after being written.'') r)
                 else
                   rbind (continues prev d) (\<lambda>is_continuation.
                   if \<not> starts_segment d \<and> \<not> is_continuation then
                     Inr (broken n (''Line '' @ nat_text n @ '' (sequence=''
                       @ py_str (env_float_repr env) (dget d ''sequence'')
                       @ ''): does not continue from the previous chained entry - a line was ''
                       @ ''deleted, reordered, or inserted.'') r)
                   else
                     verify_loop env (Suc n) (dget d ''sequence'', dget d ''entry_hash'')
                       (r\<lparr>vr_entries_checked := Suc (vr_entries_checked r),
                          vr_segment_boundaries := vr_segment_boundaries r
                            @ (if starts_segment d \<and> fst prev \<noteq> PNone then [n] else [])\<rparr>) lines)
             | u \<Rightarrow> Inl (attr_error u ''keys'')))"

definition verify_chain :: "env \<Rightarrow> string option \<Rightarrow> verify_result result" where
  "verify_chain env contents =
     (case contents of
        None \<Rightarrow> Inr verify_start
      | Some s \<Rightarrow> verify_loop env 1 (PNone, PNone) verify_start (text_lines s))"

end
