(* ===== verification/AuditChain.thy ===== *)
theory AuditChain
  imports AuditLog
begin

text \<open>
  Properties of the hash chain of \<open>src/audit.py\<close>: the backwards read, the invariant of a log the
  chain wrote and its preservation by every append, and what two accepted files have in common.
\<close>

section \<open>The backwards read\<close>

lemma strip_right_append:
  "strip_right P (a @ b) = (if strip_right P b = [] then strip_right P a else a @ strip_right P b)"
  by (induction b rule: rev_induct) (auto simp: strip_right_def)

lemma after_last_nl_append: "list_ex is_nl b \<Longrightarrow> after_last_nl (a @ b) = after_last_nl b"
  by (induction b rule: rev_induct) (auto simp: after_last_nl_def)

lemma after_last_nl_plain: "\<not> list_ex is_nl b \<Longrightarrow> after_last_nl b = b"
  by (induction b rule: rev_induct) (auto simp: after_last_nl_def)

lemma last_line_loop_correct:
  assumes "0 < chunk_size" "0 < pos" "pos \<le> length s" "\<not> list_ex is_nl (strip_right is_nl (drop pos s))"
  shows "last_line_loop chunk_size s (drop pos s) pos = Some (last_line s)"
  using assms(2-4)
proof (induction pos rule: less_induct)
  case (less pos)
  let ?r = "min chunk_size pos" and ?p = "pos - min chunk_size pos"
  have buf: "take ?r (drop ?p s) @ drop pos s = drop ?p s"
    using less.prems(2) by (metis append_take_drop_id drop_drop le_add_diff_inverse2 min.cobounded2 add.commute)
  let ?t = "strip_right is_nl (drop ?p s)"
  have pos0: "(pos = 0) = False" using less.prems(1) by simp
  have step: "last_line_loop chunk_size s (drop pos s) pos =
      (if list_ex is_nl ?t then Some (Some (after_last_nl ?t))
       else if ?p = 0 then Some (if ?t \<noteq> [] then Some ?t else None)
       else last_line_loop chunk_size s (drop ?p s) ?p)"
    using pos0 by (subst last_line_loop.simps) (simp only: Let_def buf if_False)
  show ?case
  proof (cases "list_ex is_nl ?t")
    case True
    then have ne: "?t \<noteq> []" by auto
    have "strip_right is_nl s = take ?p s @ ?t"
      using strip_right_append [of is_nl "take ?p s" "drop ?p s"] ne by simp
    then show ?thesis
      using True ne step by (simp add: last_line_def Let_def after_last_nl_append)
  next
    case False
    show ?thesis
    proof (cases "?p = 0")
      case True
      then show ?thesis
        using False step by (simp add: last_line_def Let_def after_last_nl_plain)
    next
      case p: False
      have "?p < pos" using less.prems(1) assms(1) by simp
      then show ?thesis using less.IH [of ?p] p False step less.prems(2) by simp
    qed
  qed
qed

lemma read_last_line_eq:
  assumes "0 < chunk_size"
  shows "read_last_line chunk_size contents =
    Some (case contents of None \<Rightarrow> None | Some s \<Rightarrow> last_line s)"
proof (cases contents)
  case None
  then show ?thesis by (simp add: read_last_line_def)
next
  case (Some s)
  show ?thesis
  proof (cases "s = []")
    case True
    then show ?thesis using Some by (simp add: read_last_line_def last_line_def strip_right_def)
  next
    case False
    then show ?thesis
      using Some last_line_loop_correct [OF assms, of "length s" s]
      by (simp add: read_last_line_def strip_right_def)
  qed
qed

text \<open>
  C33. The bounded backwards read is correct and ends: for every file and every positive chunk size
  it returns what reading the whole file and taking its last non-empty line gives.
\<close>

theorem read_last_line_correct:
  assumes "0 < chunk_size"
  shows "read_last_line chunk_size contents =
    Some (case contents of None \<Rightarrow> None | Some s \<Rightarrow> last_line s)"
  by (rule read_last_line_eq [OF assms])

theorem read_last_line_correct_witness:
  "read_last_line 3 (Some (''alpha'' @ [CHR 0x0A] @ ''beta'' @ [CHR 0x0A, CHR 0x0A])) = Some (Some ''beta'')"
  by (subst read_last_line_correct) (simp_all add: last_line_def strip_right_def after_last_nl_def is_nl_def)

section \<open>Logs as lists of records\<close>

definition entry_ok :: "env \<Rightarrow> pydict \<Rightarrow> bool" where
  "entry_ok env d \<longleftrightarrow> json_ok (env_float_repr env) (env_float_parse env) (PDict d)"

definition log_text :: "env \<Rightarrow> pydict list \<Rightarrow> string" where
  "log_text env rs = concat (map (entry_line env) rs)"

lemma log_text_append: "log_text env (xs @ ys) = log_text env xs @ log_text env ys"
  by (simp add: log_text_def)

lemma log_lines:
  assumes "list_all (entry_ok env) rs"
  shows "text_lines (log_text env rs @ s)
    = map (\<lambda>d. json_dumps (env_float_repr env) (PDict d)) rs @ text_lines s"
proof -
  have "list_all (json_ok (env_float_repr env) (env_float_parse env)) (map PDict rs)"
    using assms by (simp add: list_all_iff entry_ok_def)
  from jl.text_lines_records [OF this, of s] show ?thesis
    by (simp add: log_text_def entry_line_def [abs_def] comp_def)
qed

lemma last_line_log:
  assumes "entry_ok env d" "s = [] \<or> is_nl (last s)"
  shows "last_line (s @ entry_line env d) = Some (json_dumps (env_float_repr env) (PDict d))"
proof -
  let ?t = "json_dumps (env_float_repr env) (PDict d)"
  have t: "?t \<noteq> []" "CHR 0x0A \<notin> set ?t"
    using jl.dumps_solid jl.dumps_one_line assms(1) unfolding entry_ok_def by blast+
  have nl: "list_all (\<lambda>c. \<not> is_nl c) ?t" using t(2) by (auto simp: list_all_iff is_nl_def)
  obtain u y where u: "?t = u @ [y]" using t(1) by (cases ?t rule: rev_cases) auto
  have "\<not> is_nl y" using nl u by simp
  then have "strip_right is_nl (s @ entry_line env d) = s @ ?t"
    unfolding entry_line_def u by (simp add: strip_right_def is_nl_def [of "CHR 0x0A"])
  moreover have "after_last_nl (s @ ?t) = ?t"
  proof (cases "s = []")
    case True
    then show ?thesis using nl by (simp add: after_last_nl_plain list_all_iff list_ex_iff)
  next
    case False
    then obtain u c where u: "s = u @ [c]" "is_nl c" using assms(2) by (cases s rule: rev_cases) auto
    have "takeWhile (\<lambda>c. \<not> is_nl c) (rev ?t @ c # rev u) = rev ?t"
      using nl u(2) by (subst takeWhile_append2) (auto simp: list_all_iff)
    then show ?thesis by (simp add: after_last_nl_def u)
  qed
  ultimately show ?thesis using t(1) by (simp add: last_line_def Let_def)
qed

lemma log_text_last: "log_text env rs = [] \<or> is_nl (last (log_text env rs))"
  by (cases rs rule: rev_cases) (auto simp: log_text_def entry_line_def is_nl_def)


section \<open>Verifying a log of records\<close>

lemma verify_record:
  assumes "entry_ok env d"
  shows "verify_loop env n prev r (json_dumps (env_float_repr env) (PDict d) # lines) =
    (if \<not> is_chained d then
       verify_loop env (Suc n) prev (r\<lparr>vr_legacy_entries := Suc (vr_legacy_entries r)\<rparr>) lines
     else if \<not> hash_matches env d then
       Inr (broken n (''Line '' @ nat_text n @ '' (sequence=''
         @ py_str (env_float_repr env) (dget d ''sequence'') @ ''): stored entry_hash doesn''
         @ [CHR 0x27] @ ''t match its own content - entry was modified after being written.'') r)
     else
       rbind (continues prev d) (\<lambda>is_continuation.
       if \<not> starts_segment d \<and> \<not> is_continuation then
         Inr (broken n (''Line '' @ nat_text n @ '' (sequence=''
           @ py_str (env_float_repr env) (dget d ''sequence'')
           @ ''): does not continue from the previous chained entry - a line was ''
           @ ''deleted, reordered, or inserted.'') r)
       else
         verify_loop env (Suc n) (dget d ''sequence'', dget d ''entry_hash'')
           (r\<lparr>vr_entries_checked := Suc (vr_entries_checked r),
              vr_segment_boundaries := vr_segment_boundaries r
                @ (if starts_segment d \<and> fst prev \<noteq> PNone then [n] else [])\<rparr>) lines))"
  using assms jl.strip_dumps [of "env_float_repr env" "env_float_parse env" "PDict d"]
    jl.loads_dumps [of "env_float_repr env" "env_float_parse env" "PDict d"]
    jl.dumps_solid [of "env_float_repr env" "env_float_parse env" "PDict d"]
  by (simp add: entry_ok_def)

text \<open>
  \<open>reaches env st lines st'\<close>: from line number, previous link and report \<open>st\<close> the verifier gets
  through \<open>lines\<close> to \<open>st'\<close>, whatever follows.
\<close>

definition reaches ::
  "env \<Rightarrow> nat \<times> (pyval \<times> pyval) \<times> verify_result \<Rightarrow> string list
     \<Rightarrow> nat \<times> (pyval \<times> pyval) \<times> verify_result \<Rightarrow> bool" where
  "reaches env st lines st' \<longleftrightarrow>
     (case (st, st') of ((n, prev, r), (n', prev', r')) \<Rightarrow>
        \<forall>rest. verify_loop env n prev r (lines @ rest) = verify_loop env n' prev' r' rest)"

lemma reaches_Nil: "reaches env st [] st"
  by (simp add: reaches_def split: prod.split)

lemma reaches_append: "reaches env a xs b \<Longrightarrow> reaches env b ys c \<Longrightarrow> reaches env a (xs @ ys) c"
  by (auto simp: reaches_def split: prod.splits)

text \<open>What the next entry of the chain links to: the sequence and hash of the last one.\<close>

definition link_of :: "int \<Rightarrow> string \<Rightarrow> pyval \<times> pyval" where
  "link_of i h = (if i = 0 then (PNone, PNone) else (PInt i, PStr h))"

text \<open>
  A log in which every line is an entry the chain wrote: the verifier accepts it with \<open>k\<close> entries,
  without legacy lines or boundaries, and its last entry has sequence \<open>i\<close> and hash \<open>h\<close>.
\<close>

definition log_state :: "env \<Rightarrow> pydict list \<Rightarrow> int \<Rightarrow> string \<Rightarrow> bool" where
  "log_state env rs i h \<longleftrightarrow>
     list_all (entry_ok env) rs \<and> i = int (length rs)
     \<and> reaches env (1, (PNone, PNone), verify_start)
         (map (\<lambda>d. json_dumps (env_float_repr env) (PDict d)) rs)
         (Suc (length rs), link_of i h, verify_start\<lparr>vr_entries_checked := length rs\<rparr>)
     \<and> (if rs = [] then h = GENESIS_HASH
        else dget (last rs) ''sequence'' = PInt i \<and> dget (last rs) ''entry_hash'' = PStr h)"

lemma log_state_Nil: "log_state env [] 0 GENESIS_HASH"
  by (simp add: log_state_def reaches_Nil link_of_def verify_start_def)

lemma log_state_verifies:
  assumes "log_state env rs i h"
  shows "verify_chain env (Some (log_text env rs)) = Inr (verify_start\<lparr>vr_entries_checked := length rs\<rparr>)"
proof -
  have "text_lines (log_text env rs) = map (\<lambda>d. json_dumps (env_float_repr env) (PDict d)) rs"
    using log_lines [of env rs "[]"] assms by (simp add: log_state_def)
  moreover have "reaches env (1, (PNone, PNone), verify_start)
      (map (\<lambda>d. json_dumps (env_float_repr env) (PDict d)) rs)
      (Suc (length rs), link_of i h, verify_start\<lparr>vr_entries_checked := length rs\<rparr>)"
    using assms unfolding log_state_def by blast
  ultimately show ?thesis
    by (auto simp: verify_chain_def reaches_def dest!: spec [of _ "[]"])
qed

lemma current_state_log:
  assumes ok: "entry_ok env d" and d: "map_of d ''sequence'' = Some (PInt i)" "map_of d ''entry_hash'' = Some (PStr h)"
    and s: "s = [] \<or> is_nl (last s)"
  shows "current_state env (Some (s @ entry_line env d)) = (i, h)"
proof -
  have l: "json_loads (env_float_parse env) (json_dumps (env_float_repr env) (PDict d)) = Inr (PDict d)"
    using ok unfolding entry_ok_def by (rule jl.loads_dumps)
  have "read_last_line CHUNK_SIZE (Some (s @ entry_line env d))
      = Some (Some (json_dumps (env_float_repr env) (PDict d)))"
    by (simp add: read_last_line_eq CHUNK_SIZE_def last_line_log [OF ok s])
  then show ?thesis by (simp add: current_state_def l d py_int_def)
qed

lemma dget_Some: "dget d k = v \<Longrightarrow> v \<noteq> PNone \<Longrightarrow> map_of d k = Some v"
  by (auto simp: dget_def split: option.splits)

lemma log_state_current:
  assumes "log_state env rs i h"
  shows "current_state env (if rs = [] then None else Some (log_text env rs)) = (i, h)"
proof (cases rs rule: rev_cases)
  case Nil
  then show ?thesis
    using assms by (simp add: current_state_def read_last_line_eq CHUNK_SIZE_def log_state_def)
next
  case (snoc xs d)
  have ok: "entry_ok env d" and d: "dget d ''sequence'' = PInt i" "dget d ''entry_hash'' = PStr h"
    using assms snoc unfolding log_state_def by auto
  have "current_state env (Some (log_text env xs @ entry_line env d)) = (i, h)"
    by (rule current_state_log [OF ok dget_Some [OF d(1)] dget_Some [OF d(2)] log_text_last]) simp_all
  then show ?thesis using snoc by (simp add: log_text_def)
qed

text \<open>One entry added to the chain.\<close>

definition linked_entry :: "env \<Rightarrow> int \<Rightarrow> string \<Rightarrow> pydict \<Rightarrow> pydict" where
  "linked_entry env i h entry =
     (let chained = AList.update ''prev_hash'' (PStr h)
            (AList.update ''sequence'' (PInt (i + 1)) (alist_merge [] entry)) in
      AList.update ''entry_hash'' (PStr (hash_entry env chained)) chained)"

lemma chained_entry_linked:
  "current_state env c = (i, h) \<Longrightarrow> chained_entry env c entry = linked_entry env i h entry"
  by (simp add: chained_entry_def linked_entry_def alist_merge_def)

lemma entry_ok_update:
  assumes "entry_ok env d" "json_ok (env_float_repr env) (env_float_parse env) v"
  shows "entry_ok env (AList.update k v d)"
proof -
  have "list_all (\<lambda>kv. json_ok (env_float_repr env) (env_float_parse env) (snd kv)) (AList.update k v d)"
    if "list_all (\<lambda>kv. json_ok (env_float_repr env) (env_float_parse env) (snd kv)) d"
    using that assms(2) by (induction d) auto
  then show ?thesis using assms(1) by (simp add: entry_ok_def distinct_keys_update)
qed

lemma filter_update_new:
  "k \<notin> set (map fst d) \<Longrightarrow> filter (\<lambda>(q, v). q \<noteq> k) (AList.update k v d) = d"
  by (induction d) auto

lemma linked_entry_props:
  assumes "entry_ok env entry" "\<not> has_key entry ''entry_hash''"
  shows "entry_ok env (linked_entry env i h entry)" "is_chained (linked_entry env i h entry)"
    "hash_matches env (linked_entry env i h entry)"
    "dget (linked_entry env i h entry) ''sequence'' = PInt (i + 1)"
    "dget (linked_entry env i h entry) ''prev_hash'' = PStr h"
    "\<exists>h'. dget (linked_entry env i h entry) ''entry_hash'' = PStr h'"
proof -
  have d: "distinct (map fst entry)" using assms(1) by (simp add: entry_ok_def)
  have m: "alist_merge [] entry = entry" by (rule alist_merge_empty [OF d])
  show "entry_ok env (linked_entry env i h entry)"
    using assms(1) by (simp add: linked_entry_def Let_def m entry_ok_update)
  show "is_chained (linked_entry env i h entry)"
    by (simp add: linked_entry_def Let_def is_chained_def)
  show "dget (linked_entry env i h entry) ''sequence'' = PInt (i + 1)"
    "dget (linked_entry env i h entry) ''prev_hash'' = PStr h"
    "\<exists>h'. dget (linked_entry env i h entry) ''entry_hash'' = PStr h'"
    by (simp_all add: linked_entry_def Let_def)
  let ?c = "AList.update ''prev_hash'' (PStr h) (AList.update ''sequence'' (PInt (i + 1)) entry)"
  have "''entry_hash'' \<notin> set (map fst ?c)"
    using assms(2) by (simp only: keys_update has_key_def) simp
  then show "hash_matches env (linked_entry env i h entry)"
    by (simp add: hash_matches_def linked_entry_def Let_def m filter_update_new del: set_map)
qed

lemma log_state_snoc:
  assumes st: "log_state env rs i h" and e: "entry_ok env entry" "\<not> has_key entry ''entry_hash''"
  shows "\<exists>h'. log_state env (rs @ [linked_entry env i h entry]) (i + 1) h'"
proof -
  let ?d = "linked_entry env i h entry" and ?t = "\<lambda>d. json_dumps (env_float_repr env) (PDict d)"
  note props = linked_entry_props [OF e]
  obtain h' where h': "dget ?d ''entry_hash'' = PStr h'" using props(6) by blast
  have rs: "list_all (entry_ok env) rs" and i: "i = int (length rs)"
    and re: "reaches env (1, (PNone, PNone), verify_start) (map ?t rs)
         (Suc (length rs), link_of i h, verify_start\<lparr>vr_entries_checked := length rs\<rparr>)"
    and h: "rs = [] \<Longrightarrow> h = GENESIS_HASH"
    using st unfolding log_state_def by auto
  have start: "starts_segment ?d \<longleftrightarrow> i = 0 \<and> h = GENESIS_HASH"
    by (auto simp: starts_segment_def props py_eq_scalar_def)
  have cont: "continues (link_of i h) ?d = Inr (i \<noteq> 0)"
    by (simp add: continues_def link_of_def props num_or_raise_def)
  have "reaches env (Suc (length rs), link_of i h, verify_start\<lparr>vr_entries_checked := length rs\<rparr>) [?t ?d]
      (Suc (Suc (length rs)), link_of (i + 1) h', verify_start\<lparr>vr_entries_checked := Suc (length rs)\<rparr>)"
    unfolding reaches_def prod.case append_Cons append_Nil
  proof
    fix rest
    let ?r = "verify_start\<lparr>vr_entries_checked := length rs\<rparr>"
    have acc: "starts_segment ?d \<or> i \<noteq> 0" using start i h by auto
    have nb: "\<not> (starts_segment ?d \<and> fst (link_of i h) \<noteq> PNone)"
      using start by (simp add: link_of_def)
    have "verify_loop env (Suc (length rs)) (link_of i h) ?r (?t ?d # rest)
        = verify_loop env (Suc (Suc (length rs))) (PInt (i + 1), PStr h')
            (?r\<lparr>vr_entries_checked := Suc (length rs), vr_segment_boundaries := []\<rparr>) rest"
      using acc nb
      by (simp add: verify_record [OF props(1)] props h' cont verify_start_def del: verify_loop.simps)
        blast
    then show "verify_loop env (Suc (length rs)) (link_of i h) ?r (?t ?d # rest)
        = verify_loop env (Suc (Suc (length rs))) (link_of (i + 1) h')
            (verify_start\<lparr>vr_entries_checked := Suc (length rs)\<rparr>) rest"
      using i by (simp add: link_of_def verify_start_def)
  qed
  from reaches_append [OF re this] show ?thesis
    unfolding log_state_def using rs props(1,4) i h' by (intro exI [of _ h']) simp
qed

text \<open>A file the chain may continue: missing, empty, or written entry by entry.\<close>

definition good_log :: "env \<Rightarrow> string option \<Rightarrow> bool" where
  "good_log env contents \<longleftrightarrow>
     contents = None \<or> (\<exists>rs i h. log_state env rs i h \<and> contents = Some (log_text env rs))"

lemma good_log_state:
  assumes "good_log env contents"
  obtains rs i h where "log_state env rs i h" "current_state env contents = (i, h)"
    "(case contents of None \<Rightarrow> [] | Some s \<Rightarrow> s) = log_text env rs"
proof (cases contents)
  case None
  then show ?thesis
    using that [OF log_state_Nil] log_state_current [OF log_state_Nil] by (simp add: log_text_def)
next
  case (Some s)
  then obtain rs i h where st: "log_state env rs i h" "s = log_text env rs"
    using assms by (auto simp: good_log_def)
  have "current_state env (Some (log_text env [])) = (0, GENESIS_HASH)"
    by (simp add: log_text_def current_state_def read_last_line_def)
  then have "current_state env contents = (i, h)"
    using log_state_current [OF st(1)] Some st by (cases "rs = []") (auto simp: log_state_def)
  then show ?thesis using that [OF st(1)] Some st(2) by simp
qed

lemma write_locked_run:
  assumes "\<forall>n. env_save_fault env n = None"
  shows "write_locked env ac entry w =
    (let d = chained_entry env (fs w (ac_path ac)) entry in
     (Inr d, w\<lparr>tick := Suc (tick w),
        fs := (fs w)(ac_path ac \<mapsto> (case fs w (ac_path ac) of None \<Rightarrow> [] | Some s \<Rightarrow> s) @ entry_line env d)\<rparr>))"
  using assms by (simp add: write_locked_def append_file_def bindM_run Let_def)

lemma write_locked_good:
  assumes nf: "\<forall>n. env_save_fault env n = None" and e: "entry_ok env entry" "\<not> has_key entry ''entry_hash''"
    and g: "good_log env (fs w (ac_path ac))" and run: "write_locked env ac entry w = (Inr d, w')"
  shows "\<exists>rs i h. log_state env (rs @ [d]) i h \<and> fs w' (ac_path ac) = Some (log_text env (rs @ [d]))
    \<and> d = chained_entry env (fs w (ac_path ac)) entry"
proof -
  obtain rs i h where st: "log_state env rs i h" "current_state env (fs w (ac_path ac)) = (i, h)"
    "(case fs w (ac_path ac) of None \<Rightarrow> [] | Some s \<Rightarrow> s) = log_text env rs"
    by (rule good_log_state [OF g])
  have d: "d = linked_entry env i h entry"
    using run by (simp add: write_locked_run [OF nf] Let_def chained_entry_linked [OF st(2)])
  have "fs w' (ac_path ac) = Some (log_text env (rs @ [d]))"
    using run st(3) by (auto simp: write_locked_run [OF nf] Let_def log_text_def)
  then show ?thesis
    using log_state_snoc [OF st(1) e] d chained_entry_linked [OF st(2)] by metis
qed

lemma sweep_step_clears:
  assumes "sweep_step env dir base cutoff f del w = (r, w')"
  shows "fs w' p = fs w p \<or> fs w' p = None"
  using assms
  by (auto simp: sweep_step_def bindM_run Let_def split: if_splits option.splits)

lemma sweep_loop_clears:
  "sweep_loop env dir base cutoff cs del w = (r, w') \<Longrightarrow> fs w' p = fs w p \<or> fs w' p = None"
proof (induction cs arbitrary: del w)
  case Nil
  then show ?case by simp
next
  case (Cons c cs)
  show ?case
  proof (cases "sweep_step env dir base cutoff c del w")
    case (Pair x w1)
    show ?thesis
    proof (cases x)
      case (Inl e)
      then show ?thesis using Cons.prems Pair sweep_step_clears [OF Pair, of p] by (simp add: bindM_run)
    next
      case (Inr b)
      then have "sweep_loop env dir base cutoff cs b w1 = (r, w')" using Cons.prems Pair by (simp add: bindM_run)
      then show ?thesis using Cons.IH [of b w1] sweep_step_clears [OF Pair, of p] by auto
    qed
  qed
qed

lemma sweep_clears:
  assumes "sweep_retention env ac w = (r, w')"
  shows "fs w' p = fs w p \<or> fs w' p = None"
  using assms
  by (auto simp: sweep_retention_def bindM_run Let_def split: sum.splits if_splits option.splits
      dest: sweep_loop_clears [where p = p])

lemma should_rotate_fs: "should_rotate env ac w = (r, w') \<Longrightarrow> fs w' = fs w"
  by (auto simp: should_rotate_def bindM_run Let_def raiseM_def
      split: sum.splits if_splits option.splits iso_stamp.splits)

lemma archive_not_path: "archive_name path stamp i \<noteq> path"
  by (simp add: archive_name_def)

lemma free_archive_spec:
  "free_archive n disk path stamp i = Some a \<Longrightarrow> disk a = None \<and> a \<noteq> path"
  by (induction n arbitrary: i) (auto simp: archive_not_path split: if_splits)

lemma rotation_entry_ok:
  "entry_ok env (rotation_entry t a del)" "\<not> has_key (rotation_entry t a del) ''entry_hash''"
  by (simp_all add: entry_ok_def rotation_entry_def has_key_def list_all_iff)


lemma good_log_None: "good_log env None"
  by (simp add: good_log_def)

lemma maybe_rotate_good:
  assumes nf: "\<forall>n. env_save_fault env n = None" and g: "good_log env (fs w (ac_path ac))"
    and run: "maybe_rotate env ac w = (Inr u, w')"
  shows "good_log env (fs w' (ac_path ac))"
proof -
  obtain b w1 where sr: "should_rotate env ac w = (Inr b, w1)"
    using run by (auto simp: maybe_rotate_def dest!: bindM_run_Inr)
  have f1: "fs w1 = fs w" by (rule should_rotate_fs [OF sr])
  show ?thesis
  proof (cases b)
    case False
    then show ?thesis using run sr f1 g by (simp add: maybe_rotate_def bindM_run)
  next
    case True
    let ?now = "env_clock env (tick w1)" and ?w2 = "w1\<lparr>tick := Suc (tick w1)\<rparr>"
    obtain a where a: "free_archive (Suc (card (dom (fs w1)))) (fs w1) (ac_path ac) (env_stamp env ?now) 0 = Some a"
      using run sr True by (auto simp: maybe_rotate_def bindM_run raiseM_def simp del: free_archive.simps split: option.splits)
    have ap: "a \<noteq> ac_path ac" using free_archive_spec [OF a] by blast
    obtain del w3 where sw: "sweep_retention env ac (rename_file (ac_path ac) a ?w2) = (Inr del, w3)"
      and wr: "\<exists>d. write_locked env ac (rotation_entry (env_iso_time env (env_clock env (tick w3))) a del)
          (w3\<lparr>tick := Suc (tick w3)\<rparr>) = (Inr d, w')"
      using run sr True a
      by (auto simp: maybe_rotate_def bindM_run raiseM_def simp del: free_archive.simps split: sum.splits prod.splits)
    have "fs (rename_file (ac_path ac) a ?w2) (ac_path ac) = None"
      using ap by (simp add: rename_file_def)
    then have n: "fs w3 (ac_path ac) = None" using sweep_clears [OF sw, of "ac_path ac"] by simp
    obtain d where d: "write_locked env ac (rotation_entry (env_iso_time env (env_clock env (tick w3))) a del)
          (w3\<lparr>tick := Suc (tick w3)\<rparr>) = (Inr d, w')"
      using wr by blast
    from write_locked_good [OF nf rotation_entry_ok _ d] n show ?thesis
      by (auto simp: good_log_None) (auto simp: good_log_def)
  qed
qed

lemma linked_entry_other:
  assumes "entry_ok env entry" "k \<notin> {''sequence'', ''prev_hash'', ''entry_hash''}"
  shows "dget (linked_entry env i h entry) k = dget entry k"
proof -
  have "alist_merge [] entry = entry" using assms(1) by (intro alist_merge_empty) (simp add: entry_ok_def)
  then show ?thesis using assms(2) by (simp add: linked_entry_def Let_def)
qed

text \<open>
  C10. Appending keeps the log verifiable: starting from no file or from a log written this way, a
  successful append, through a rotation or not, leaves a file whose last line is the returned entry
  with every field of the caller unchanged, and the verifier accepts every line of that file as a
  chained entry of one unbroken segment.
\<close>

theorem append_keeps_log_verifiable:
  assumes nf: "\<forall>n. env_save_fault env n = None"
    and e: "entry_ok env entry" "\<not> has_key entry ''entry_hash''"
    and g: "good_log env (fs w (ac_path ac))" and run: "append_entry env ac entry w = (Inr d, w')"
  shows "\<exists>rs. fs w' (ac_path ac) = Some (log_text env (rs @ [d])) \<and> good_log env (fs w' (ac_path ac))
    \<and> verify_chain env (fs w' (ac_path ac)) = Inr (verify_start\<lparr>vr_entries_checked := Suc (length rs)\<rparr>)
    \<and> (\<forall>k. k \<notin> {''sequence'', ''prev_hash'', ''entry_hash''} \<longrightarrow> dget d k = dget entry k)"
proof -
  obtain u w1 where r: "maybe_rotate env ac w = (Inr u, w1)" and wl: "write_locked env ac entry w1 = (Inr d, w')"
    using run by (auto simp: append_entry_def dest!: bindM_run_Inr)
  have g1: "good_log env (fs w1 (ac_path ac))" by (rule maybe_rotate_good [OF nf g r])
  obtain rs i h where st: "log_state env (rs @ [d]) i h" "fs w' (ac_path ac) = Some (log_text env (rs @ [d]))"
    and d: "d = chained_entry env (fs w1 (ac_path ac)) entry"
    using write_locked_good [OF nf e g1 wl] by blast
  obtain j h0 where "current_state env (fs w1 (ac_path ac)) = (j, h0)" by fastforce
  then have "dget d k = dget entry k" if "k \<notin> {''sequence'', ''prev_hash'', ''entry_hash''}" for k
    using d linked_entry_other [OF e(1) that] by (simp add: chained_entry_linked)
  moreover have "verify_chain env (fs w' (ac_path ac)) = Inr (verify_start\<lparr>vr_entries_checked := Suc (length rs)\<rparr>)"
    using log_state_verifies [OF st(1)] st(2) by simp
  ultimately show ?thesis using st by (auto simp: good_log_def)
qed

section \<open>What an accepted file means\<close>

text \<open>The chained entries of a file, in the order of its lines.\<close>

definition entry_of_line :: "env \<Rightarrow> string \<Rightarrow> pydict option" where
  "entry_of_line env raw =
     (case json_loads (env_float_parse env) (strip raw) of
        Inr (PDict d) \<Rightarrow> if strip raw \<noteq> [] \<and> is_chained d then Some d else None
      | _ \<Rightarrow> None)"

definition chained_entries :: "env \<Rightarrow> string \<Rightarrow> pydict list" where
  "chained_entries env s = List.map_filter (entry_of_line env) (text_lines s)"

fun valid_links :: "env \<Rightarrow> pyval \<times> pyval \<Rightarrow> pydict list \<Rightarrow> bool" where
  "valid_links env prev [] = True"
| "valid_links env prev (d # ds) =
     (hash_matches env d \<and> (starts_segment d \<or> continues prev d = Inr True)
      \<and> valid_links env (dget d ''sequence'', dget d ''entry_hash'') ds)"

lemma map_filter_Cons:
  "List.map_filter f (x # xs) = (case f x of None \<Rightarrow> List.map_filter f xs | Some y \<Rightarrow> y # List.map_filter f xs)"
  by (simp add: List.map_filter_def split: option.split)

lemma json_loads_blank: "json_loads fp [] = Inl JSONDecodeError"
  by (simp add: json_loads_def skip_ws_def)

lemma verify_loop_links:
  "verify_loop env n prev r lines = Inr r' \<Longrightarrow> vr_ok r' \<Longrightarrow>
     valid_links env prev (List.map_filter (entry_of_line env) lines)"
proof (induction lines arbitrary: n prev r)
  case Nil
  then show ?case by (simp add: List.map_filter_def)
next
  case (Cons raw lines)
  show ?case
  proof (cases "strip raw = []")
    case True
    then have "entry_of_line env raw = None" by (simp add: entry_of_line_def json_loads_blank)
    then show ?thesis using Cons True by (auto simp: map_filter_Cons Let_def)
  next
    case ne: False
    show ?thesis
    proof (cases "json_loads (env_float_parse env) (strip raw)")
      case (Inl e)
      then show ?thesis using Cons.prems ne by (auto simp: broken_def)
    next
      case (Inr v)
      then obtain d where d: "v = PDict d" using Cons.prems ne by (cases v) auto
      show ?thesis
      proof (cases "is_chained d")
        case False
        then have "entry_of_line env raw = None" using Inr d by (simp add: entry_of_line_def)
        then show ?thesis using Cons ne Inr d False by (auto simp: map_filter_Cons)
      next
        case ch: True
        then have some: "entry_of_line env raw = Some d" using Inr d ne by (simp add: entry_of_line_def)
        have h: "hash_matches env d" using Cons.prems ne Inr d ch by (auto simp: broken_def split: if_splits)
        obtain c where c: "continues prev d = Inr c"
          using Cons.prems ne Inr d ch h by (cases "continues prev d") auto
        have acc: "starts_segment d \<or> c"
          using Cons.prems ne Inr d ch h c by (auto simp: broken_def split: if_splits)
        have "\<exists>n r. verify_loop env n (dget d ''sequence'', dget d ''entry_hash'') r lines = Inr r'"
          using Cons.prems ne Inr d ch h c acc by (auto split: if_splits)
        then show ?thesis
          using Cons.IH Cons.prems(2) h c acc by (auto simp: map_filter_Cons some)
      qed
    qed
  qed
qed

lemma verified_links:
  "verify_chain env (Some s) = Inr r \<Longrightarrow> vr_ok r \<Longrightarrow> valid_links env (PNone, PNone) (chained_entries env s)"
  unfolding verify_chain_def chained_entries_def option.case by (rule verify_loop_links)

text \<open>The last segment, newest entry first.\<close>

fun segment :: "pydict list \<Rightarrow> pydict list" where
  "segment [] = []"
| "segment (d # ds) = d # (if starts_segment d then [] else segment ds)"

text \<open>The links read from the newest entry back.\<close>

fun links_back :: "env \<Rightarrow> pydict list \<Rightarrow> bool" where
  "links_back env [] = True"
| "links_back env (d # ds) =
     (hash_matches env d
      \<and> (starts_segment d
         \<or> (case ds of [] \<Rightarrow> False
            | e # _ \<Rightarrow> continues (dget e ''sequence'', dget e ''entry_hash'') d = Inr True))
      \<and> links_back env ds)"

lemma links_back_snoc:
  "links_back env ds \<Longrightarrow> valid_links env
      (case ds of [] \<Rightarrow> (PNone, PNone) | e # _ \<Rightarrow> (dget e ''sequence'', dget e ''entry_hash'')) es \<Longrightarrow>
     links_back env (rev es @ ds)"
proof (induction es arbitrary: ds)
  case Nil
  then show ?case by simp
next
  case (Cons d es)
  have "links_back env (d # ds)"
    using Cons.prems by (cases ds) (auto simp: continues_def)
  then show ?case using Cons.IH [of "d # ds"] Cons.prems(2) by simp
qed

text \<open>Two entries with the same fields, up to the order of keys.\<close>

definition same_entry :: "pydict \<Rightarrow> pydict \<Rightarrow> bool" where
  "same_entry d e \<longleftrightarrow> sort_keys (PDict (filter (\<lambda>(k, v). k \<noteq> ''entry_hash'') d))
       = sort_keys (PDict (filter (\<lambda>(k, v). k \<noteq> ''entry_hash'') e))
     \<and> dget d ''entry_hash'' = dget e ''entry_hash''"

definition collision :: "(string \<Rightarrow> string) \<Rightarrow> bool" where
  "collision H \<longleftrightarrow> (\<exists>x y. x \<noteq> y \<and> H x = H y)"

lemma dget_sorted:
  assumes "distinct (map fst d)"
  shows "(case sort_keys (PDict d) of PDict u \<Rightarrow> dget u k | _ \<Rightarrow> PNone) = sort_keys (dget d k)"
proof -
  let ?m = "map (\<lambda>kv. (fst kv, sort_keys (snd kv))) d"
  have "distinct (map fst ?m)" using assms by (simp add: o_def)
  then have "map_of (sort_key fst ?m) = map_of ?m" by (rule map_of_sort_key)
  moreover have "map_of ?m k = map_option sort_keys (map_of d k)" by (induction d) auto
  ultimately show ?thesis by (simp add: dget_def split: option.split)
qed

lemma entry_ok_body: "entry_ok env d \<Longrightarrow> entry_ok env (filter (\<lambda>(k, v). k \<noteq> ''entry_hash'') d)"
  by (auto simp: entry_ok_def list_all_iff distinct_map_filter)

lemma same_or_collision:
  assumes "entry_ok env d" "entry_ok env e" "hash_matches env d" "hash_matches env e"
    and h: "dget d ''entry_hash'' = dget e ''entry_hash''"
  shows "same_entry d e \<or> collision (env_sha256 env)"
proof -
  let ?d = "filter (\<lambda>(k, v). k \<noteq> ''entry_hash'') d" and ?e = "filter (\<lambda>(k, v). k \<noteq> ''entry_hash'') e"
  have H: "env_sha256 env (canonical env ?d) = env_sha256 env (canonical env ?e)"
    using assms(3,4) h unfolding hash_matches_def hash_entry_def by (metis pyval.inject(4))
  show ?thesis
  proof (cases "canonical env ?d = canonical env ?e")
    case True
    have "sort_keys (PDict ?d) = sort_keys (PDict ?e)"
      using entry_ok_body [OF assms(1)] entry_ok_body [OF assms(2)] True
      unfolding entry_ok_def canonical_def by (rule json_canonical_inj)
    then show ?thesis using h by (simp add: same_entry_def)
  next
    case False
    then show ?thesis using H unfolding collision_def by blast
  qed
qed

lemma same_field:
  assumes "same_entry d e" "entry_ok env d" "entry_ok env e" "k \<noteq> ''entry_hash''"
  shows "sort_keys (dget d k) = sort_keys (dget e k)"
proof -
  let ?f = "filter (\<lambda>(k :: string, v :: pyval). k \<noteq> ''entry_hash'')"
  have f: "dget (?f x) k = dget x k" for x
    using assms(4) by (simp add: dget_def map_of_filter_key)
  have "distinct (map fst (?f d))" "distinct (map fst (?f e))"
    using assms(2,3) by (auto simp: entry_ok_def distinct_map_filter)
  then show ?thesis
    using dget_sorted [of "?f d" k] dget_sorted [of "?f e" k] assms(1)
    unfolding same_entry_def f by metis
qed

lemma sort_keys_atoms:
  "py_num (sort_keys x) = py_num x" "sort_keys x = PStr s \<longleftrightarrow> x = PStr s"
  by (cases x; simp)+

lemma sorted_num: "sort_keys x = sort_keys y \<Longrightarrow> py_num x = py_num y"
  by (metis sort_keys_atoms(1))

lemma sorted_str: "sort_keys x = sort_keys y \<Longrightarrow> x = PStr s \<Longrightarrow> y = PStr s"
  by (metis sort_keys_atoms(2))

lemma starts_segment_num:
  "starts_segment d \<longleftrightarrow> py_num (dget d ''sequence'') = Some 1 \<and> dget d ''prev_hash'' = PStr GENESIS_HASH"
  by (auto simp: starts_segment_def py_eq_scalar_def split: option.splits)

lemma same_starts:
  assumes "same_entry d e" "entry_ok env d" "entry_ok env e"
  shows "starts_segment d = starts_segment e"
  using same_field [OF assms, of "''sequence''"] same_field [OF assms, of "''prev_hash''"]
  by (auto simp: starts_segment_num dest: sorted_num sorted_str sorted_str [OF sym])

lemma hash_is_text: "hash_matches env d \<Longrightarrow> \<exists>h. dget d ''entry_hash'' = PStr h"
  unfolding hash_matches_def by metis

lemma continues_hash: "continues (a, b) d = Inr True \<Longrightarrow> dget d ''prev_hash'' = b"
  by (auto simp: continues_def rbind_eq_Inr split: if_splits)

lemma segments_agree:
  assumes nc: "\<not> collision (env_sha256 env)"
  shows "links_back env (d # ds) \<Longrightarrow> links_back env (e # es) \<Longrightarrow>
     list_all (entry_ok env) (d # ds) \<Longrightarrow> list_all (entry_ok env) (e # es) \<Longrightarrow>
     dget d ''entry_hash'' = dget e ''entry_hash'' \<Longrightarrow>
     list_all2 same_entry (segment (d # ds)) (segment (e # es))"
proof (induction ds arbitrary: d e es)
  case Nil
  have same: "same_entry d e" using same_or_collision [of env d e] Nil nc by auto
  have "starts_segment d" using Nil by auto
  moreover have "starts_segment e" using same_starts [OF same, of env] Nil calculation by simp
  ultimately show ?case using same by simp
next
  case (Cons d' ds)
  have ok: "entry_ok env d" "entry_ok env e" using Cons.prems by simp_all
  have same: "same_entry d e" using same_or_collision [of env d e] Cons.prems nc by auto
  show ?case
  proof (cases "starts_segment d")
    case True
    then show ?thesis using same same_starts [OF same ok] by simp
  next
    case False
    then have nse: "\<not> starts_segment e" using same_starts [OF same ok] by simp
    then obtain e' es' where es: "es = e' # es'" using Cons.prems(2) by (cases es) auto
    have pd: "dget d ''prev_hash'' = dget d' ''entry_hash''"
      using Cons.prems(1) False by (auto dest: continues_hash)
    have pe: "dget e ''prev_hash'' = dget e' ''entry_hash''"
      using Cons.prems(2) nse es by (auto dest: continues_hash)
    obtain h where h: "dget d' ''entry_hash'' = PStr h" using Cons.prems(1) hash_is_text by force
    have "sort_keys (dget d ''prev_hash'') = sort_keys (dget e ''prev_hash'')"
      by (rule same_field [OF same ok]) simp
    then have "dget e ''prev_hash'' = PStr h" by (rule sorted_str) (simp add: pd h)
    then have "dget d' ''entry_hash'' = dget e' ''entry_hash''" using pe h by simp
    then have "list_all2 same_entry (segment (d' # ds)) (segment (e' # es'))"
      using Cons.prems es by (intro Cons.IH) auto
    then show ?thesis using same False nse es by simp
  qed
qed


end
