(* ===== verification/AuditRotation.thy ===== *)
theory AuditRotation
  imports AuditChain
begin

text \<open>
  Properties of rotation and retention of \<open>src/audit.py\<close>, and the limits of the verifier: a
  truncated file, a line that is not an object, and a write that dies in the middle.
\<close>

section \<open>Rotation and retention\<close>

lemma sweep_step_spec:
  assumes "sweep_step env dir base cutoff f del w = (Inr del', w')"
  shows "(del' = del \<and> fs w' = fs w)
    \<or> (del' = del @ [f] \<and> fs w' = (fs w)(path_join dir f := None) \<and> f \<noteq> base \<and> startswith f (base @ ''.'')
        \<and> (\<exists>n m. env_mtime env n (path_join dir f) = Some m \<and> m < cutoff))"
proof (cases "f = base \<or> \<not> startswith f (base @ ''.'')")
  case True
  then show ?thesis using assms by (auto simp: sweep_step_def)
next
  case False
  then show ?thesis
    using assms
    by (auto simp: sweep_step_def bindM_run Let_def split: if_splits option.splits)
qed

lemma sweep_loop_spec:
  assumes "sweep_loop env dir base cutoff cs del w = (Inr del', w')"
  shows "\<exists>new. del' = del @ new
    \<and> (\<forall>p. fs w' p = (if p \<in> path_join dir ` set new then None else fs w p))
    \<and> (\<forall>f \<in> set new. f \<noteq> base \<and> startswith f (base @ ''.'')
         \<and> (\<exists>n m. env_mtime env n (path_join dir f) = Some m \<and> m < cutoff))"
  using assms
proof (induction cs arbitrary: del w)
  case Nil
  then show ?case by (intro exI [of _ "[]"]) simp
next
  case (Cons c cs)
  obtain d1 w1 where s1: "sweep_step env dir base cutoff c del w = (Inr d1, w1)"
    and s2: "sweep_loop env dir base cutoff cs d1 w1 = (Inr del', w')"
    using Cons.prems by (auto dest: bindM_run_Inr)
  obtain new where new: "del' = d1 @ new"
    "\<forall>p. fs w' p = (if p \<in> path_join dir ` set new then None else fs w1 p)"
    "\<forall>f \<in> set new. f \<noteq> base \<and> startswith f (base @ ''.'')
         \<and> (\<exists>n m. env_mtime env n (path_join dir f) = Some m \<and> m < cutoff)"
    using Cons.IH [OF s2] by blast
  from sweep_step_spec [OF s1] show ?case
  proof
    assume "d1 = del \<and> fs w1 = fs w"
    then show ?thesis using new by auto
  next
    assume "d1 = del @ [c] \<and> fs w1 = (fs w)(path_join dir c := None) \<and> c \<noteq> base \<and> startswith c (base @ ''.'')
        \<and> (\<exists>n m. env_mtime env n (path_join dir c) = Some m \<and> m < cutoff)"
    then show ?thesis using new by (intro exI [of _ "c # new"]) auto
  qed
qed

definition audit_dir :: "audit_chain \<Rightarrow> string" where
  "audit_dir ac = (if dirname (ac_path ac) = [] then ''.'' else dirname (ac_path ac))"

lemma sweep_spec:
  assumes "sweep_retention env ac w = (Inr del, w')"
  shows "(\<forall>p. fs w' p = (if p \<in> path_join (audit_dir ac) ` set del then None else fs w p))
    \<and> (\<forall>f \<in> set del. f \<noteq> basename (ac_path ac) \<and> startswith f (basename (ac_path ac) @ ''.'')
         \<and> (\<exists>days now n m. py_get (ac_retention ac) ''retention_days'' = Inr days
              \<and> env_mtime env n (path_join (audit_dir ac) f) = Some m
              \<and> (\<exists>d. py_num days = Some d \<and> m < now - d * SECONDS_PER_DAY)))"
proof -
  obtain days where days: "py_get (ac_retention ac) ''retention_days'' = Inr days"
    using assms by (auto simp: sweep_retention_def dest!: bindM_run_Inr)
  show ?thesis
  proof (cases "del = [] \<and> fs w' = fs w")
    case True
    then show ?thesis by simp
  next
    case False
    then have t: "py_truthy days"
      using assms days by (auto simp: sweep_retention_def bindM_run split: if_splits)
    obtain d where d: "num_or_raise ''timedelta'' days = Inr d"
      using assms days t by (cases "num_or_raise ''timedelta'' days") (auto simp: sweep_retention_def bindM_run)
    obtain cs where cs: "env_listdir env (Suc (tick w)) (audit_dir ac) = Some cs"
      using assms days t d False
      by (auto simp: sweep_retention_def bindM_run Let_def audit_dir_def split: option.splits)
    have "sweep_loop env (audit_dir ac) (basename (ac_path ac)) (env_clock env (tick w) - d * SECONDS_PER_DAY) cs []
        (w\<lparr>tick := Suc (Suc (tick w))\<rparr>) = (Inr del, w')"
      using assms days t d cs by (simp add: sweep_retention_def bindM_run Let_def audit_dir_def [symmetric])
    from sweep_loop_spec [OF this] have
      "(\<forall>p. fs w' p = (if p \<in> path_join (audit_dir ac) ` set del then None else fs w p))"
      "\<forall>f \<in> set del. f \<noteq> basename (ac_path ac) \<and> startswith f (basename (ac_path ac) @ ''.'')
         \<and> (\<exists>n m. env_mtime env n (path_join (audit_dir ac) f) = Some m
              \<and> m < env_clock env (tick w) - d * SECONDS_PER_DAY)"
      by auto
    moreover have "py_num days = Some d" using d by (auto simp: num_or_raise_def split: option.splits)
    ultimately show ?thesis using days by metis
  qed
qed

lemma archive_name_inj: "archive_name path stamp i = archive_name path stamp j \<Longrightarrow> i = j"
  by (auto simp: archive_name_def split: if_splits)

lemma free_archive_none:
  "free_archive n disk path stamp i = None \<Longrightarrow> j < n \<Longrightarrow> archive_name path stamp (i + j) \<in> dom disk"
proof (induction n arbitrary: i j)
  case 0
  then show ?case by simp
next
  case (Suc n)
  then have taken: "archive_name path stamp i \<in> dom disk" "free_archive n disk path stamp (Suc i) = None"
    by (auto split: if_splits)
  show ?case
  proof (cases j)
    case 0
    then show ?thesis using taken by simp
  next
    case (Suc j')
    then show ?thesis using Suc.IH [OF taken(2), of j'] Suc.prems by simp
  qed
qed

lemma archive_name_free:
  assumes "finite (dom disk)"
  shows "\<exists>a. free_archive (Suc (card (dom disk))) disk path stamp 0 = Some a \<and> disk a = None \<and> a \<noteq> path"
proof (cases "free_archive (Suc (card (dom disk))) disk path stamp 0")
  case None
  have "archive_name path stamp ` {..<Suc (card (dom disk))} \<subseteq> dom disk"
    using free_archive_none [OF None] by auto
  then have "card (archive_name path stamp ` {..<Suc (card (dom disk))}) \<le> card (dom disk)"
    using assms by (intro card_mono)
  moreover have "card (archive_name path stamp ` {..<Suc (card (dom disk))}) = Suc (card (dom disk))"
    by (subst card_image) (auto intro!: inj_onI dest: archive_name_inj)
  ultimately show ?thesis by simp
next
  case (Some a)
  then show ?thesis using free_archive_spec [OF Some] by simp
qed

text \<open>
  C34. The search for a free archive name ends: with one try more than there are files it finds a
  name no file has.
\<close>

theorem archive_name_found:
  assumes "finite (dom disk)"
  shows "\<exists>a. free_archive (Suc (card (dom disk))) disk path stamp 0 = Some a \<and> disk a = None \<and> a \<noteq> path"
  by (rule archive_name_free [OF assms])

theorem archive_name_found_witness:
  "\<exists>a. free_archive 3 [''l.T'' \<mapsto> [], ''l.T-1'' \<mapsto> []] ''l'' ''T'' 0 = Some a"
proof -
  have "dom [''l.T'' \<mapsto> [] :: string, ''l.T-1'' \<mapsto> []] = {''l.T-1'', ''l.T''}" by auto
  then show ?thesis
    using archive_name_found [of "[''l.T'' \<mapsto> [], ''l.T-1'' \<mapsto> []]" "''l''" "''T''"] by (auto simp: numeral_3_eq_3)
qed



lemma maybe_rotate_runs:
  assumes nf: "\<forall>n. env_save_fault env n = None" and fin: "finite (dom (fs w))"
    and sr: "should_rotate env ac w = (Inr True, w)"
    and keep: "py_get (ac_retention ac) ''retention_days'' = Inr PNone"
  shows "\<exists>w'. maybe_rotate env ac w = (Inr (), w')"
proof -
  obtain a where a: "free_archive (Suc (card (dom (fs w)))) (fs w) (ac_path ac)
      (env_stamp env (env_clock env (tick w))) 0 = Some a"
    using archive_name_free [OF fin] by blast
  have sw: "sweep_retention env ac u = (Inr [], u)" for u :: "'a disk_scheme"
    using keep by (simp add: sweep_retention_def)
  show ?thesis
    using a by (simp add: maybe_rotate_def bindM_run sr sw write_locked_run [OF nf] Let_def
        del: free_archive.simps)
qed


section \<open>Limits\<close>

lemma univ_nl_split: "s = [] \<or> is_nl (last s) \<Longrightarrow> univ_nl (s @ t) = univ_nl s @ univ_nl t"
proof (induction s rule: univ_nl.induct)
  case (2 c)
  then show ?case by (cases t) (auto simp: is_nl_def)
next
  case (3 c d cs)
  then show ?case by (cases "cs = []") (auto simp: is_nl_def)
qed simp

lemma split_acc_nl:
  "is_nl (last a) \<Longrightarrow> a \<noteq> [] \<Longrightarrow> split_acc acc (a @ b) = split_acc acc a @ split_acc [] b"
proof (induction a arbitrary: acc)
  case Nil
  then show ?case by simp
next
  case (Cons c a)
  then show ?case by (cases "a = []") (auto simp: is_nl_def)
qed

lemma univ_nl_last: "s \<noteq> [] \<Longrightarrow> is_nl (last s) \<Longrightarrow> univ_nl s \<noteq> [] \<and> is_nl (last (univ_nl s))"
proof (induction s rule: univ_nl.induct)
  case (3 c d cs)
  then show ?case by (cases "cs = []") (auto simp: is_nl_def)
qed (auto simp: is_nl_def)

lemma text_lines_split:
  assumes "s = [] \<or> is_nl (last s)"
  shows "text_lines (s @ t) = text_lines s @ text_lines t"
proof (cases "s = []")
  case False
  then show ?thesis
    using assms univ_nl_last [of s] split_acc_nl [of "univ_nl s"]
    by (simp add: text_lines_def univ_nl_split)
qed simp

lemma verify_loop_prefix:
  "verify_loop env n prev r (xs @ ys) = Inr r' \<Longrightarrow> vr_ok r' \<Longrightarrow> vr_ok r \<Longrightarrow>
     \<exists>r1. verify_loop env n prev r xs = Inr r1 \<and> vr_ok r1"
proof (induction xs arbitrary: n prev r)
  case Nil
  then show ?case by simp
next
  case (Cons raw xs)
  show ?case
  proof (cases "strip raw = []")
    case True
    then show ?thesis using Cons by (simp add: Let_def)
  next
    case ne: False
    show ?thesis
    proof (cases "json_loads (env_float_parse env) (strip raw)")
      case (Inl e)
      then show ?thesis using Cons.prems ne by (auto simp: broken_def)
    next
      case (Inr v)
      then obtain d where d: "v = PDict d" using Cons.prems ne by (cases v) auto
      show ?thesis
      proof (cases "is_chained d")
        case False
        then show ?thesis using Cons ne Inr d by simp
      next
        case ch: True
        have h: "hash_matches env d" using Cons.prems ne Inr d ch by (auto simp: broken_def split: if_splits)
        obtain c where c: "continues prev d = Inr c"
          using Cons.prems ne Inr d ch h by (cases "continues prev d") auto
        have acc: "starts_segment d \<or> c"
          using Cons.prems ne Inr d ch h c by (auto simp: broken_def split: if_splits)
        let ?r = "r\<lparr>vr_entries_checked := Suc (vr_entries_checked r),
            vr_segment_boundaries := vr_segment_boundaries r
              @ (if starts_segment d \<and> fst prev \<noteq> PNone then [n] else [])\<rparr>"
        have step: "verify_loop env n prev r (raw # ls)
            = verify_loop env (Suc n) (dget d ''sequence'', dget d ''entry_hash'') ?r ls" for ls
          using ne Inr d ch h c acc by (simp only: verify_loop.simps Let_def if_False sum.case pyval.case) auto
        show ?thesis
          unfolding step using Cons.prems(1) unfolding append_Cons step
          by (rule Cons.IH) (use Cons.prems in simp_all)
      qed
    qed
  qed
qed

text \<open>
  What the chain cannot see: every file that ends with a whole line and is a beginning of an
  accepted file is accepted too, so cutting entries off the end goes unnoticed unless the last hash
  is known from elsewhere.
\<close>

theorem truncation_accepted:
  assumes "verify_chain env (Some (s @ t)) = Inr r" "vr_ok r" "s = [] \<or> is_nl (last s)"
  shows "\<exists>r'. verify_chain env (Some s) = Inr r' \<and> vr_ok r'"
  using assms(1,2) verify_loop_prefix [of env 1 "(PNone, PNone)" verify_start "text_lines s" "text_lines t" r]
  by (simp add: verify_chain_def text_lines_split [OF assms(3)] verify_start_def)

text \<open>
  One line that is JSON but not an object makes the verifier itself fail: after any log the
  chain wrote, such a line raises \<open>AttributeError\<close> instead of being reported.
\<close>

theorem verifier_raises_on_non_object:
  assumes "log_state env rs i h" "json_ok (env_float_repr env) (env_float_parse env) v" "\<not> py_is_dict v"
  shows "verify_chain env (Some (log_text env rs @ json_dumps (env_float_repr env) v @ [CHR 0x0A]))
    = Inl (attr_error v ''keys'')"
proof -
  let ?t = "json_dumps (env_float_repr env) v"
  have rs: "list_all (entry_ok env) rs" using assms(1) by (simp add: log_state_def)
  have re: "reaches env (1, (PNone, PNone), verify_start)
      (map (\<lambda>d. json_dumps (env_float_repr env) (PDict d)) rs)
      (Suc (length rs), link_of i h, verify_start\<lparr>vr_entries_checked := length rs\<rparr>)"
    using assms(1) unfolding log_state_def by blast
  have tl: "text_lines (?t @ [CHR 0x0A]) = [?t]"
    using jl.text_lines_record [OF assms(2), of "[]"] by simp
  have p: "strip ?t = ?t" "json_loads (env_float_parse env) ?t = Inr v" "?t \<noteq> []"
    using jl.strip_dumps [OF assms(2)] jl.loads_dumps [OF assms(2)] jl.dumps_solid [OF assms(2)] by auto
  have "verify_loop env n prev r [?t] = Inl (attr_error v ''keys'')" for n prev r
    using p assms(3) by (cases v) (simp_all add: py_is_dict_def)
  then show ?thesis
    using re unfolding verify_chain_def option.case log_lines [OF rs] tl
    by (simp add: reaches_def)
qed

text \<open>The first character of a torn line, and the next line that is written behind it.\<close>

lemma torn_line:
  assumes "entry_ok env d"
  shows "json_loads fp (''{'' @ json_dumps (env_float_repr env) (PDict d)) = Inl JSONDecodeError"
    "text_lines (''{'' @ entry_line env d) = [''{'' @ json_dumps (env_float_repr env) (PDict d)]"
    "strip (''{'' @ json_dumps (env_float_repr env) (PDict d)) = ''{'' @ json_dumps (env_float_repr env) (PDict d)"
proof -
  let ?t = "json_dumps (env_float_repr env) (PDict d)"
  obtain u where u: "?t = CHR ''{'' # u" by (simp add: json_dumps_def)
  show "json_loads fp (''{'' @ ?t) = Inl JSONDecodeError"
    by (simp add: u json_loads_def skip_ws_def json_ws_def)
  have "CHR 0x0A \<notin> set ?t \<and> CHR 0x0D \<notin> set ?t"
    using jl.dumps_one_line assms unfolding entry_ok_def by blast
  then have "CHR 0x0A \<notin> set (''{'' @ ?t)" "CHR 0x0D \<notin> set (''{'' @ ?t)" by auto
  then show "text_lines (''{'' @ entry_line env d) = [''{'' @ ?t]"
    using univ_nl_append [of "''{'' @ ?t" "[CHR 0x0A]"] split_acc_line [of "''{'' @ ?t" "[]"]
    by (simp add: text_lines_def entry_line_def)
  show "strip (''{'' @ ?t) = ''{'' @ ?t"
    using jl.dumps_solid [of "env_float_repr env" "env_float_parse env" "PDict d"] assms
    by (intro strip_id) (auto simp: entry_ok_def is_space_def)
qed

lemma append_no_rotation:
  assumes "ac_retention ac = PDict c" "\<not> py_truthy (dget c ''enabled'')"
  shows "append_entry env ac entry w = write_locked env ac entry w"
  using assms
  by (simp add: append_entry_def maybe_rotate_def should_rotate_def bindM_run Let_def del: py_get_or.simps)


lemma chained_entries_log:
  assumes "list_all (entry_ok env) rs" "list_all is_chained rs"
  shows "chained_entries env (log_text env rs) = rs"
proof -
  have "text_lines (log_text env rs) = map (\<lambda>d. json_dumps (env_float_repr env) (PDict d)) rs"
    using log_lines [OF assms(1), of "[]"] by simp
  moreover have "List.map_filter (entry_of_line env) (map (\<lambda>d. json_dumps (env_float_repr env) (PDict d)) rs) = rs"
    using assms
  proof (induction rs)
    case (Cons d rs)
    have "entry_of_line env (json_dumps (env_float_repr env) (PDict d)) = Some d"
      using Cons.prems jl.strip_dumps [of "env_float_repr env" "env_float_parse env" "PDict d"]
        jl.loads_dumps [of "env_float_repr env" "env_float_parse env" "PDict d"]
        jl.dumps_solid [of "env_float_repr env" "env_float_parse env" "PDict d"]
      by (simp add: entry_of_line_def entry_ok_def)
    then show ?case using Cons by (simp add: map_filter_Cons)
  qed (simp add: List.map_filter_def)
  ultimately show ?thesis by (simp add: chained_entries_def)
qed

definition example_entry :: pydict where
  "example_entry = [(''user'', PStr ''alice'')]"

lemma example_entry_ok: "entry_ok env example_entry" "\<not> has_key example_entry ''entry_hash''"
  by (simp_all add: example_entry_def entry_ok_def has_key_def)

lemma example_log:
  "\<exists>h. log_state env [linked_entry env 0 GENESIS_HASH example_entry] 1 h"
  using log_state_snoc [OF log_state_Nil example_entry_ok] by simp

definition example_chain :: audit_chain where
  "example_chain = \<lparr>ac_path = ''logs/audit.log'', ac_retention = PDict []\<rparr>"

definition example_disk :: disk where
  "example_disk = world.extend example_world \<lparr>fs = Map.empty\<rparr>"

theorem append_keeps_log_verifiable_witness:
  "\<exists>rs. verify_chain example_env
      (fs (snd (append_entry example_env example_chain example_entry example_disk)) ''logs/audit.log'')
    = Inr (verify_start\<lparr>vr_entries_checked := Suc (length (rs :: pydict list))\<rparr>)"
proof -
  have nf: "\<forall>n. env_save_fault example_env n = None" by (simp add: example_env_def)
  have g: "good_log example_env (fs example_disk (ac_path example_chain))"
    by (simp add: example_disk_def world.extend_def good_log_def)
  obtain d w' where run: "append_entry example_env example_chain example_entry example_disk = (Inr d, w')"
    using append_no_rotation [of example_chain "[]" example_env example_entry example_disk]
      write_locked_run [OF nf, of example_chain example_entry example_disk]
    by (auto simp: example_chain_def Let_def dget_def)
  show ?thesis
    using append_keeps_log_verifiable [OF nf example_entry_ok g run] run
    by (auto simp: example_chain_def)
qed


theorem truncation_accepted_witness:
  "let d = linked_entry example_env 0 GENESIS_HASH example_entry in
   \<exists>d2 r. verify_chain example_env (Some (log_text example_env [d, d2])) = Inr r
     \<and> (\<exists>r'. verify_chain example_env (Some (log_text example_env [d])) = Inr r' \<and> vr_ok r')"
proof -
  let ?d = "linked_entry example_env 0 GENESIS_HASH example_entry"
  obtain h where st: "log_state example_env [?d] 1 h" using example_log by blast
  obtain h' where st': "log_state example_env ([?d] @ [linked_entry example_env 1 h example_entry]) 2 h'"
    using log_state_snoc [OF st example_entry_ok] by auto
  let ?t = "log_text example_env [linked_entry example_env 1 h example_entry]"
  obtain r where v: "verify_chain example_env (Some (log_text example_env [?d] @ ?t)) = Inr r" "vr_ok r"
    using log_state_verifies [OF st'] unfolding log_text_append by (simp add: verify_start_def)
  from truncation_accepted [OF v log_text_last] v(1) show ?thesis
    unfolding Let_def log_text_append [symmetric] by auto
qed

theorem verifier_raises_on_non_object_witness:
  "verify_chain example_env (Some (''5'' @ [CHR 0x0A])) = Inl (attr_error (PInt 5) ''keys'')"
proof -
  have "json_dumps (env_float_repr example_env) (PInt 5) = ''5''"
    unfolding json_dumps_def by simp code_simp
  then show ?thesis
    using verifier_raises_on_non_object [OF log_state_Nil, of example_env "PInt 5"]
    by (simp add: log_text_def py_is_dict_def)
qed


end
