(* ===== verification/Ship.thy ===== *)
theory Ship
  imports AuditLog
begin

text \<open>
  \<open>to_ecs\<close>, \<open>_summary_message\<close> and the class \<open>AuditShipper\<close> of \<open>src/audit.py\<close>: the document an
  audit entry becomes for an external log platform, and its delivery to a syslog host and an HTTP
  endpoint. The state is the parsed configuration and the cached syslog handler.
\<close>

section \<open>The document\<close>

definition summary_message :: "env \<Rightarrow> pydict \<Rightarrow> string result" where
  "summary_message env entry =
     (let action = py_str (env_float_repr env) (py_or (dget entry ''action'') (PStr ''unknown-action''));
          controller = py_str (env_float_repr env) (py_or (dget entry ''controller'') (PStr ''unknown-controller''));
          subject = ''action '' @ squoted action @ '' on controller '' @ squoted controller in
      if py_truthy (dget entry ''blocked_reason'') then
        Inr (subject @ '' blocked ('' @ py_str (env_float_repr env) (dget entry ''blocked_reason'') @ '')'')
      else
        rbind (py_get (py_or (dget entry ''execution'') (PDict [])) ''success'') (\<lambda>success.
        Inr (subject @ '' '' @ (if py_truthy success then ''succeeded'' else ''failed''))))"

definition outcome_of :: "pyval \<Rightarrow> string" where
  "outcome_of success =
     (if success = PNone then ''unknown'' else if py_truthy success then ''success'' else ''failure'')"

definition ecs_fields :: "pydict \<Rightarrow> pyval \<Rightarrow> pyval \<Rightarrow> string \<Rightarrow> pydict" where
  "ecs_fields entry execution success message =
     [(''@timestamp'', dget entry ''timestamp''),
      (''event'', PDict
        [(''kind'', PStr ''event''), (''category'', PList [PStr ''process'']),
         (''type'', PList [PStr (if py_truthy (dget entry ''blocked_reason'') then ''denied'' else ''change'')]),
         (''action'', dget entry ''action''), (''outcome'', PStr (outcome_of success)),
         (''reason'', dget entry ''blocked_reason''), (''sequence'', dget entry ''sequence''),
         (''hash'', dget entry ''entry_hash'')]),
      (''user'', PDict
        [(''name'', dget entry ''user''),
         (''roles'', PList (if py_truthy (dget entry ''role'') then [dget entry ''role''] else []))]),
      (''source'', if py_truthy (dget entry ''client_ip'') then PDict [(''ip'', dget entry ''client_ip'')] else PNone),
      (''service'', PDict [(''name'', PStr SERVICE_NAME), (''type'', PStr SERVICE_NAME)]),
      (''message'', PStr message),
      (''auto_healer'', PDict
        [(''controller'', dget entry ''controller''), (''controller_type'', dget entry ''controller_type''),
         (''parameters'', dget entry ''parameters''), (''execution'', execution),
         (''dry_run'', dget entry ''dry_run''), (''approval_id'', dget entry ''approval_id''),
         (''approval_status'', dget entry ''approval_status''), (''approved_by'', dget entry ''approved_by''),
         (''approver_role'', dget entry ''approver_role''), (''prev_hash'', dget entry ''prev_hash'')])]"

definition to_ecs :: "env \<Rightarrow> pydict \<Rightarrow> pydict result" where
  "to_ecs env entry =
     (let execution = py_or (dget entry ''execution'') (PDict []) in
      rbind (py_get execution ''success'') (\<lambda>success.
      rbind (summary_message env entry) (\<lambda>message.
      Inr (filter (\<lambda>(k, v). v \<noteq> PNone) (ecs_fields entry execution success message)))))"

section \<open>The sinks\<close>

record syslog_handler =
  sl_host :: pyval
  sl_port :: pyval
  sl_protocol :: pyval
  sl_facility :: int

record audit_shipper =
  as_config :: pyval
  as_handler :: "syslog_handler option"

record ship_disk = disk +
  shipper :: audit_shipper

definition shipper_init :: "(string \<Rightarrow> pyval option) \<Rightarrow> file_read \<Rightarrow> audit_shipper" where
  "shipper_init yaml fr = \<lparr>as_config = load_yaml_or_empty yaml fr, as_handler = None\<rparr>"

text \<open>\<open>SysLogHandler.facility_names\<close>.\<close>

definition facility_names :: "(string \<times> int) list" where
  "facility_names =
     [(''auth'', 4), (''authpriv'', 10), (''console'', 14), (''cron'', 9), (''daemon'', 3), (''ftp'', 11),
      (''kern'', 0), (''lpr'', 6), (''mail'', 2), (''news'', 7), (''ntp'', 12), (''security'', 13),
      (''solaris-cron'', 15), (''syslog'', 5), (''user'', 1), (''uucp'', 8), (''local0'', 16), (''local1'', 17),
      (''local2'', 18), (''local3'', 19), (''local4'', 20), (''local5'', 21), (''local6'', 22), (''local7'', 23)]"

definition LOG_LOCAL0 :: int where
  "LOG_LOCAL0 = 16"

definition facility_of :: "pyval \<Rightarrow> int result" where
  "facility_of v =
     (case v of
        PStr s \<Rightarrow> Inr (case map_of facility_names s of None \<Rightarrow> LOG_LOCAL0 | Some n \<Rightarrow> n)
      | _ \<Rightarrow> if py_hashable v then Inr LOG_LOCAL0 else Inl (unhashable v))"

text \<open>A handler is kept while host, port and protocol stay the same.\<close>

definition get_syslog_handler :: "env \<Rightarrow> pyval \<Rightarrow> ('s ship_disk_scheme, syslog_handler) pym" where
  "get_syslog_handler env cfg =
     bindM (liftM (py_get_or cfg ''host'' (PStr ''localhost''))) (\<lambda>host.
     bindM (liftM (py_get_or cfg ''port'' (PInt 514))) (\<lambda>port.
     bindM (liftM (py_get_or cfg ''protocol'' (PStr ''udp''))) (\<lambda>protocol.
     bindM (getM (\<lambda>w. as_handler (shipper w))) (\<lambda>cached.
     case (case cached of
             None \<Rightarrow> None
           | Some h \<Rightarrow> if (sl_host h, sl_port h, sl_protocol h) = (host, port, protocol) then Some h else None) of
       Some h \<Rightarrow> returnM h
     | None \<Rightarrow>
         if protocol \<noteq> PStr ''udp'' \<and> protocol \<noteq> PStr ''tcp'' then
           raiseM (ValueError (''Unsupported syslog protocol '' @ squoted (py_str (env_float_repr env) protocol)
             @ '' (only udp/tcp are supported - see AuditShipper'' @ [CHR 0x27] @ ''s docstring for TLS options)''))
         else
           bindM (liftM (rbind (py_get_or cfg ''facility'' (PStr ''local0'')) facility_of)) (\<lambda>facility.
           bindM next_tick (\<lambda>n.
           case env_syslog_fault env n of
             Some m \<Rightarrow> raiseM (OSError m)
           | None \<Rightarrow>
               (let h = \<lparr>sl_host = host, sl_port = port, sl_protocol = protocol, sl_facility = facility\<rparr> in
                bindM (modifyM (\<lambda>w. w\<lparr>shipper := (shipper w)\<lparr>as_handler := Some h\<rparr>\<rparr>)) (\<lambda>_. returnM h))))))))"

text \<open>\<open>emit\<close> handles its own failures.\<close>

definition emit_syslog :: "syslog_handler \<Rightarrow> string \<Rightarrow> ('s ship_disk_scheme, unit) pym" where
  "emit_syslog h message =
     modifyM (\<lambda>w. w\<lparr>trace := trace w @ [SyslogEffect (sl_host h) (sl_port h) (sl_protocol h) (sl_facility h) message]\<rparr>)"

definition ship_syslog :: "env \<Rightarrow> pydict \<Rightarrow> pyval \<Rightarrow> ('s ship_disk_scheme, unit) pym" where
  "ship_syslog env entry cfg =
     catchM
       (bindM (get_syslog_handler env cfg) (\<lambda>h.
        bindM (liftM (to_ecs env entry)) (\<lambda>doc.
        emit_syslog h (json_dumps (env_float_repr env) (PDict doc)))))
       (\<lambda>_. returnM ())"

fun resolve_headers ::
  "env \<Rightarrow> pydict \<Rightarrow> pydict \<Rightarrow> ('s world_scheme, pydict) pym" where
  "resolve_headers env [] headers = returnM headers"
| "resolve_headers env ((name, value) # rest) headers =
     bindM (resolve_vault_ref env value None) (\<lambda>v.
     resolve_headers env rest (AList.update name v headers))"

text \<open>
  \<open>requests.request\<close> that fails is a \<open>RequestException\<close>; the status of an answer only decides
  whether an error is logged.
\<close>

definition ship_http :: "env \<Rightarrow> pydict \<Rightarrow> pyval \<Rightarrow> ('s ship_disk_scheme, unit) pym" where
  "ship_http env entry cfg =
     bindM (liftM (py_get cfg ''url'')) (\<lambda>url.
     if \<not> py_truthy url then returnM ()
     else
       catchM
         (bindM (liftM (py_get cfg ''headers'')) (\<lambda>v.
          bindM (case py_or v (PDict []) of
                   PDict hs \<Rightarrow> resolve_headers env hs [(''Content-Type'', PStr ''application/json'')]
                 | u \<Rightarrow> raiseM (attr_error u ''items'')) (\<lambda>headers.
          bindM (liftM (py_get_or cfg ''method'' (PStr ''POST''))) (\<lambda>req_method.
          bindM (liftM (to_ecs env entry)) (\<lambda>doc.
          bindM (do_http env
            \<lparr>hr_method = req_method, hr_url = url, hr_headers = headers, hr_json = Some (PDict doc)\<rparr>) (\<lambda>_.
          returnM ()))))))
         (\<lambda>e. case e of VaultUnavailableError _ \<Rightarrow> returnM () | _ \<Rightarrow> raiseM e))"

definition ship :: "env \<Rightarrow> pydict \<Rightarrow> ('s ship_disk_scheme, unit) pym" where
  "ship env entry =
     bindM (getM (\<lambda>w. as_config (shipper w))) (\<lambda>config.
     bindM (liftM (py_get config ''shipping'')) (\<lambda>v.
     let shipping = py_or v (PDict []) in
     bindM (liftM (py_get shipping ''syslog'')) (\<lambda>v1.
     let syslog_cfg = py_or v1 (PDict []) in
     bindM (liftM (py_get syslog_cfg ''enabled'')) (\<lambda>syslog_on.
     bindM (if py_truthy syslog_on then ship_syslog env entry syslog_cfg else returnM ()) (\<lambda>_.
     bindM (liftM (py_get shipping ''http'')) (\<lambda>v2.
     let http_cfg = py_or v2 (PDict []) in
     bindM (liftM (py_get http_cfg ''enabled'')) (\<lambda>http_on.
     if py_truthy http_on then ship_http env entry http_cfg else returnM ())))))))"

end
