(* ===== verification/ShipProps.thy ===== *)
theory ShipProps
  imports Ship AuditChain
begin

text \<open>
  Properties of the mirror of \<open>src/audit.py\<close>: what is delivered, that it reads back, that nothing
  else of the state changes, and when a delivery raises after all.
\<close>

section \<open>The document\<close>

lemma entry_ok_dget:
  assumes "entry_ok env d"
  shows "json_ok (env_float_repr env) (env_float_parse env) (dget d k)"
  using assms by (auto simp: entry_ok_def dget_def list_all_iff split: option.split dest!: map_of_SomeD)

lemma json_ok_or:
  "json_ok fr fp a \<Longrightarrow> json_ok fr fp b \<Longrightarrow> json_ok fr fp (py_or a b)"
  by (simp add: py_or_def)

lemma json_ok_filter:
  "json_ok fr fp (PDict d) \<Longrightarrow> json_ok fr fp (PDict (filter P d))"
  by (auto simp: list_all_iff distinct_map_filter)

lemma to_ecs_ok:
  assumes "entry_ok env entry" "to_ecs env entry = Inr doc"
  shows "json_ok (env_float_repr env) (env_float_parse env) (PDict doc)"
proof -
  let ?x = "py_or (dget entry ''execution'') (PDict [])"
  have x: "json_ok (env_float_repr env) (env_float_parse env) ?x"
    by (intro json_ok_or entry_ok_dget [OF assms(1)]) simp
  have "json_ok (env_float_repr env) (env_float_parse env) (PDict (ecs_fields entry ?x s m))" for s m
    using entry_ok_dget [OF assms(1)] x by (simp add: ecs_fields_def)
  then have "json_ok (env_float_repr env) (env_float_parse env)
      (PDict (filter (\<lambda>(k, v). v \<noteq> PNone) (ecs_fields entry ?x s m)))" for s m
    by (rule json_ok_filter)
  then show ?thesis
    using assms(2) by (auto simp del: json_ok.simps simp: to_ecs_def Let_def rbind_eq_Inr)
qed

lemma dget_filter: "distinct (map fst d) \<Longrightarrow> dget (filter (\<lambda>(k, v). v \<noteq> PNone) d) k = dget d k"
proof (induction d)
  case (Cons p d)
  have "map_of (filter (\<lambda>(k, v). v \<noteq> PNone) d) (fst p) = None"
    using Cons.prems by (force simp: map_of_eq_None_iff)
  then show ?case using Cons by (cases p) (auto simp: dget_def)
qed simp

lemma to_ecs_event:
  assumes "to_ecs env entry = Inr doc"
  shows "\<exists>event. dget doc ''event'' = PDict event \<and> dget event ''hash'' = dget entry ''entry_hash''
    \<and> dget event ''sequence'' = dget entry ''sequence'' \<and> dget event ''action'' = dget entry ''action''
    \<and> dget event ''outcome'' = PStr (case py_get (py_or (dget entry ''execution'') (PDict [])) ''success'' of
         Inr s \<Rightarrow> outcome_of s | Inl _ \<Rightarrow> ''unknown'')"
proof -
  obtain s m where "py_get (py_or (dget entry ''execution'') (PDict [])) ''success'' = Inr s"
    "doc = filter (\<lambda>(k, v). v \<noteq> PNone) (ecs_fields entry (py_or (dget entry ''execution'') (PDict [])) s m)"
    using assms by (auto simp: to_ecs_def Let_def rbind_eq_Inr)
  moreover have "distinct (map fst (ecs_fields entry x s m))" for x s m by (simp add: ecs_fields_def)
  ultimately show ?thesis
    by (simp add: dget_filter) (simp add: ecs_fields_def dget_def)
qed



section \<open>Frame\<close>

definition ship_frame :: "'s ship_disk_scheme \<Rightarrow> 's ship_disk_scheme \<Rightarrow> bool" where
  "ship_frame w w' \<longleftrightarrow>
     tmpfiles w' = tmpfiles w \<and> fs w' = fs w \<and> as_config (shipper w') = as_config (shipper w)
     \<and> ship_disk.more w' = ship_disk.more w \<and> tick w \<le> tick w' \<and> prefix (trace w) (trace w')"

interpretation ship: state_preorder ship_frame
  by unfold_locales (auto simp: ship_frame_def intro: prefix_order.trans)

lemma outer_frame_ship: "outer_frame w w' \<Longrightarrow> ship_frame w w' \<and> shipper w' = shipper w"
  by (cases w; cases w') (auto simp: outer_frame_def ship_frame_def)

lemma outer_ship: "keeps outer_frame m \<Longrightarrow> keeps ship_frame m"
  using outer_frame_ship unfolding keeps_def by blast

lemma handler_frame: "keeps ship_frame (modifyM (\<lambda>w. w\<lparr>shipper := (shipper w)\<lparr>as_handler := h\<rparr>\<rparr>))"
  by (rule ship.keeps_modify) (simp add: ship_frame_def)

lemma get_handler_frame: "keeps ship_frame (get_syslog_handler env cfg)"
  unfolding get_syslog_handler_def
  by (intro ship.keeps_rules keeps_cases handler_frame outer_ship outer_primitives)

lemma emit_frame: "keeps ship_frame (emit_syslog h m)"
  unfolding emit_syslog_def by (rule ship.keeps_modify) (simp add: ship_frame_def)

lemma ship_syslog_frame: "keeps ship_frame (ship_syslog env entry cfg)"
  unfolding ship_syslog_def by (intro ship.keeps_rules keeps_cases get_handler_frame emit_frame)

lemma resolve_headers_outer: "keeps outer_frame (resolve_headers env hs acc)"
proof (induction hs arbitrary: acc)
  case (Cons h hs)
  then show ?case by (cases h) (simp, intro outer.keeps_rules ref_outer Cons.IH)
qed (simp add: outer.keeps_return)

lemma ship_http_frame: "keeps ship_frame (ship_http env entry cfg)"
  unfolding ship_http_def
  by (intro ship.keeps_rules keeps_cases py_exn_case_keeps outer_ship resolve_headers_outer outer_primitives)

lemma ship_keeps: "keeps ship_frame (ship env entry)"
  unfolding ship_def by (intro ship.keeps_rules keeps_cases ship_syslog_frame ship_http_frame)

section \<open>Delivery\<close>

text \<open>Sections that are missing, empty or mappings, and headers that are plain texts.\<close>

definition plain_header :: "string \<times> pyval \<Rightarrow> bool" where
  "plain_header kv \<longleftrightarrow> (\<exists>t. snd kv = PStr t \<and> \<not> startswith t ''vault:'')"

definition shipping_sections :: "pyval \<Rightarrow> pydict \<Rightarrow> pydict \<Rightarrow> bool" where
  "shipping_sections config syslog_cfg http_cfg \<longleftrightarrow>
     (\<exists>s0 s. py_get config ''shipping'' = Inr s0 \<and> py_or s0 (PDict []) = PDict s
        \<and> py_or (dget s ''syslog'') (PDict []) = PDict syslog_cfg
        \<and> py_or (dget s ''http'') (PDict []) = PDict http_cfg)"

definition plain_headers :: "pydict \<Rightarrow> bool" where
  "plain_headers http_cfg \<longleftrightarrow>
     (\<exists>hs. py_or (dget http_cfg ''headers'') (PDict []) = PDict hs \<and> list_all plain_header hs)"

interpretation quiet: state_preorder "\<lambda>w w' :: 's world_scheme. trace w' = trace w"
  by unfold_locales auto

lemma get_handler_quiet: "keeps (\<lambda>w w'. trace w' = trace w) (get_syslog_handler env cfg)"
proof -
  have h: "keeps (\<lambda>w w'. trace w' = trace w)
      (modifyM (\<lambda>w. w\<lparr>shipper := (shipper w)\<lparr>as_handler := h\<rparr>\<rparr>) :: ('s ship_disk_scheme, unit) pym)" for h
    by (rule quiet.keeps_modify) simp
  have "keeps (\<lambda>w w'. trace w' = trace w) (next_tick :: ('s ship_disk_scheme, nat) pym)"
    by (simp add: keeps_def)
  then show ?thesis
    unfolding get_syslog_handler_def by (intro quiet.keeps_rules keeps_cases h)
qed

lemma ship_syslog_run:
  assumes "to_ecs env entry = Inr doc"
  shows "\<exists>w' sys. ship_syslog env entry cfg w = (Inr (), w') \<and> trace w' = trace w @ sys
    \<and> (sys = [] \<or> (\<exists>a b c f. sys = [SyslogEffect a b c f (json_dumps (env_float_repr env) (PDict doc))]))"
proof (cases "get_syslog_handler env cfg w")
  case (Pair r w1)
  then have t: "trace w1 = trace w" by (rule quiet.keeps_run [OF get_handler_quiet])
  show ?thesis
    using Pair t assms by (cases r) (auto simp: ship_syslog_def catchM_def bindM_run emit_syslog_def)
qed

lemma plain_ref:
  "plain_header (k, v) \<Longrightarrow> resolve_vault_ref env v None = returnM v"
  by (auto simp: plain_header_def resolve_vault_ref_def)

lemma plain_headers_resolved:
  "list_all plain_header hs \<Longrightarrow> resolve_headers env hs acc = returnM (alist_merge acc hs)"
proof (induction hs arbitrary: acc)
  case (Cons h hs)
  obtain k v where h: "h = (k, v)" by (cases h)
  have r: "resolve_vault_ref env v None = returnM v" using Cons.prems h plain_ref by auto
  show ?case using Cons by (simp add: h r)
qed simp

lemma ship_http_run:
  assumes "to_ecs env entry = Inr doc" "plain_headers cfg"
  shows "\<exists>w'. ship_http env entry (PDict cfg) w = (Inr (), w')
    \<and> (if py_truthy (dget cfg ''url'')
       then \<exists>m hs. trace w' = trace w @ [HttpEffect \<lparr>hr_method = m, hr_url = dget cfg ''url'', hr_headers = hs,
                         hr_json = Some (PDict doc)\<rparr>]
       else w' = w)"
proof -
  obtain hs where "py_or (dget cfg ''headers'') (PDict []) = PDict hs" "list_all plain_header hs"
    using assms(2) by (auto simp: plain_headers_def)
  moreover obtain m where "py_get_or (PDict cfg) ''method'' (PStr ''POST'') = Inr m" by simp
  ultimately show ?thesis
    using assms(1)
    by (auto simp: ship_http_def catchM_def bindM_run plain_headers_resolved simp del: py_get_or.simps)
qed


text \<open>
  Not every failure is caught: an HTTP header whose configured value is not a text makes
  \<open>ship\<close> raise \<open>AttributeError\<close> into the request that wrote the entry.
\<close>

theorem ship_raises_on_bad_header:
  assumes "shipping_sections (as_config (shipper w)) syslog_cfg http_cfg"
    and "\<not> py_truthy (dget syslog_cfg ''enabled'')" "py_truthy (dget http_cfg ''enabled'')"
    and "py_truthy (dget http_cfg ''url'')" "dget http_cfg ''headers'' = PDict [(name, v)]"
    and "py_truthy v" "\<nexists>t. v = PStr t"
  shows "ship env entry w = (Inl (attr_error v ''startswith''), w)"
proof -
  obtain s0 s where s: "py_get (as_config (shipper w)) ''shipping'' = Inr s0" "py_or s0 (PDict []) = PDict s"
    "py_or (dget s ''syslog'') (PDict []) = PDict syslog_cfg" "py_or (dget s ''http'') (PDict []) = PDict http_cfg"
    using assms(1) by (auto simp: shipping_sections_def)
  have r: "resolve_vault_ref env v None = raiseM (attr_error v ''startswith'')"
    using assms(6,7) by (cases v) (simp_all add: resolve_vault_ref_def)
  have "py_or (PDict [(name, v)]) (PDict []) = PDict [(name, v)]" by (simp add: py_or_def)
  then show ?thesis
    using s assms(2-5)
    by (simp add: r ship_def ship_http_def catchM_def bindM_run attr_error_def Let_def del: py_get_or.simps)
qed

definition example_shipper :: "pyval \<Rightarrow> audit_shipper" where
  "example_shipper headers =
     \<lparr>as_config = PDict [(''shipping'', PDict [(''http'', PDict
        [(''enabled'', PBool True), (''url'', PStr ''https://logs''), (''headers'', headers)])])],
      as_handler = None\<rparr>"

definition example_ship_disk :: "pyval \<Rightarrow> ship_disk" where
  "example_ship_disk headers = disk.extend (world.extend example_world \<lparr>fs = Map.empty\<rparr>) \<lparr>shipper = example_shipper headers\<rparr>"

lemma example_sections:
  "shipping_sections (as_config (shipper (example_ship_disk headers))) []
     [(''enabled'', PBool True), (''url'', PStr ''https://logs''), (''headers'', headers)]"
  by (simp add: example_ship_disk_def disk.extend_def example_shipper_def shipping_sections_def py_or_def dget_def)


theorem ship_raises_on_bad_header_witness:
  "let w = example_ship_disk (PDict [(''X-Shard'', PInt 7)]) in
   ship example_env [(''action'', PStr ''restart'')] w = (Inl (attr_error (PInt 7) ''startswith''), w)"
  unfolding Let_def
  by (rule ship_raises_on_bad_header [OF example_sections, where name = "''X-Shard''"]) (simp_all add: dget_def)

end
