(* ===== verification/Notify.thy ===== *)
theory Notify
  imports Executor Ship
begin

text \<open>
  \<open>src/notifications.py\<close>: the class \<open>NotificationSender\<close> with its five channels. The record holds
  what \<open>__init__\<close> reads from the configuration and the times of the deduplication; a channel's
  method takes it as \<open>self\<close>. Mail is a sequence of steps of the SMTP client, each of which may fail.
\<close>

section \<open>Configuration\<close>

record notification_sender =
  slack_enabled :: pyval
  slack_url :: pyval
  slack_channel :: pyval
  slack_username :: pyval
  slack_notify_on :: pyval
  teams_enabled :: pyval
  teams_url :: pyval
  teams_channel :: pyval
  teams_notify_on :: pyval
  email_enabled :: pyval
  email_smtp_host :: pyval
  email_smtp_port :: pyval
  email_use_tls :: pyval
  email_username :: pyval
  email_password :: pyval
  email_from :: pyval
  email_to :: pyval
  email_notify_on :: pyval
  pagerduty_enabled :: pyval
  pagerduty_routing_key :: pyval
  pagerduty_notify_on :: pyval
  opsgenie_enabled :: pyval
  opsgenie_api_key :: pyval
  opsgenie_notify_on :: pyval
  ns_routing :: pyval
  dedup_enabled :: pyval
  dedup_window_seconds :: pyval
  dedup_seen :: "string \<rightharpoonup> rat"
  ns_templates :: pyval

definition DEFAULT_DEDUP_WINDOW_SECONDS :: int where
  "DEFAULT_DEDUP_WINDOW_SECONDS = 300"

definition PAGERDUTY_EVENTS_URL :: string where
  "PAGERDUTY_EVENTS_URL = ''https://events.pagerduty.com/v2/enqueue''"

definition OPSGENIE_ALERTS_URL :: string where
  "OPSGENIE_ALERTS_URL = ''https://api.opsgenie.com/v2/alerts''"

definition SEVERITY_RANK :: "(string \<times> int) list" where
  "SEVERITY_RANK = [(''info'', 0), (''warning'', 1), (''critical'', 2)]"

definition SEVERITY_TO_PAGERDUTY :: "(string \<times> string) list" where
  "SEVERITY_TO_PAGERDUTY = [(''info'', ''info''), (''warning'', ''warning''), (''critical'', ''critical'')]"

definition SEVERITY_TO_OPSGENIE_PRIORITY :: "(string \<times> string) list" where
  "SEVERITY_TO_OPSGENIE_PRIORITY = [(''info'', ''P5''), (''warning'', ''P3''), (''critical'', ''P1'')]"

definition sender_load_config :: "(string \<Rightarrow> pyval option) \<Rightarrow> file_read \<Rightarrow> pyval result" where
  "sender_load_config yaml fr =
     (case fr of
        Missing \<Rightarrow> Inr (PDict [])
      | Unreadable m \<Rightarrow> Inl (OSError m)
      | Contents s \<Rightarrow>
          (case yaml s of None \<Rightarrow> Inl (OtherError ''YAMLError'') | Some v \<Rightarrow> Inr (py_or v (PDict []))))"

definition both_statuses :: pyval where
  "both_statuses = PList [PStr ''success'', PStr ''failure'']"

text \<open>\<open>config.get(name, {}) or {}\<close>.\<close>

definition section_or_empty :: "pyval \<Rightarrow> string \<Rightarrow> pyval result" where
  "section_or_empty config name = rbind (py_get_or config name (PDict [])) (\<lambda>v. Inr (py_or v (PDict [])))"

definition sender_init :: "(string \<Rightarrow> pyval option) \<Rightarrow> file_read \<Rightarrow> notification_sender result" where
  "sender_init yaml fr =
     rbind (sender_load_config yaml fr) (\<lambda>config.
     rbind (py_get_or config ''slack'' (PDict [])) (\<lambda>slack.
     rbind (py_get_or slack ''enabled'' (PBool False)) (\<lambda>s_enabled.
     rbind (py_get slack ''webhook_url'') (\<lambda>s_url.
     rbind (py_get slack ''channel'') (\<lambda>s_channel.
     rbind (py_get_or slack ''username'' (PStr ''AutoHealerBot'')) (\<lambda>s_username.
     rbind (py_get_or slack ''notify_on'' both_statuses) (\<lambda>s_on.
     rbind (py_get_or config ''teams'' (PDict [])) (\<lambda>teams.
     rbind (py_get_or teams ''enabled'' (PBool False)) (\<lambda>t_enabled.
     rbind (py_get teams ''webhook_url'') (\<lambda>t_url.
     rbind (py_get teams ''channel'') (\<lambda>t_channel.
     rbind (py_get_or teams ''notify_on'' both_statuses) (\<lambda>t_on.
     rbind (section_or_empty config ''email'') (\<lambda>email.
     rbind (py_get_or email ''enabled'' (PBool False)) (\<lambda>e_enabled.
     rbind (py_get email ''smtp_host'') (\<lambda>e_host.
     rbind (py_get_or email ''smtp_port'' (PInt 587)) (\<lambda>e_port.
     rbind (py_get_or email ''use_tls'' (PBool True)) (\<lambda>e_tls.
     rbind (py_get email ''username'') (\<lambda>e_user.
     rbind (py_get email ''password'') (\<lambda>e_password.
     rbind (py_get email ''from_addr'') (\<lambda>e_from.
     rbind (py_get email ''to_addrs'') (\<lambda>e_to.
     rbind (py_get_or email ''notify_on'' both_statuses) (\<lambda>e_on.
     rbind (section_or_empty config ''pagerduty'') (\<lambda>pagerduty.
     rbind (py_get_or pagerduty ''enabled'' (PBool False)) (\<lambda>p_enabled.
     rbind (py_get pagerduty ''routing_key'') (\<lambda>p_key.
     rbind (py_get_or pagerduty ''notify_on'' (PList [PStr ''failure''])) (\<lambda>p_on.
     rbind (section_or_empty config ''opsgenie'') (\<lambda>opsgenie.
     rbind (py_get_or opsgenie ''enabled'' (PBool False)) (\<lambda>o_enabled.
     rbind (py_get opsgenie ''api_key'') (\<lambda>o_key.
     rbind (py_get_or opsgenie ''notify_on'' (PList [PStr ''failure''])) (\<lambda>o_on.
     rbind (section_or_empty config ''routing'') (\<lambda>routing.
     rbind (section_or_empty config ''dedup'') (\<lambda>dedup.
     rbind (py_get_or dedup ''enabled'' (PBool True)) (\<lambda>d_enabled.
     rbind (py_get_or dedup ''window_seconds'' (PInt DEFAULT_DEDUP_WINDOW_SECONDS)) (\<lambda>d_window.
     rbind (section_or_empty config ''templates'') (\<lambda>templates.
     Inr \<lparr>slack_enabled = s_enabled, slack_url = s_url, slack_channel = s_channel, slack_username = s_username,
       slack_notify_on = s_on, teams_enabled = t_enabled, teams_url = t_url, teams_channel = t_channel,
       teams_notify_on = t_on, email_enabled = e_enabled, email_smtp_host = e_host, email_smtp_port = e_port,
       email_use_tls = e_tls, email_username = e_user, email_password = e_password, email_from = e_from,
       email_to = py_or e_to (PList []), email_notify_on = e_on, pagerduty_enabled = p_enabled,
       pagerduty_routing_key = p_key, pagerduty_notify_on = p_on, opsgenie_enabled = o_enabled,
       opsgenie_api_key = o_key, opsgenie_notify_on = o_on, ns_routing = routing, dedup_enabled = d_enabled,
       dedup_window_seconds = d_window, dedup_seen = Map.empty, ns_templates = templates\<rparr>
     )))))))))))))))))))))))))))))))))))"

record notify_disk = ship_disk +
  sender :: notification_sender

section \<open>Severity, deduplication, routing, templates\<close>

definition severity_rank :: "string \<Rightarrow> int" where
  "severity_rank s = (case map_of SEVERITY_RANK s of None \<Rightarrow> 0 | Some n \<Rightarrow> n)"

definition effective_severity :: "pyval \<Rightarrow> string \<Rightarrow> string result" where
  "effective_severity base_severity status =
     (if \<not> py_hashable base_severity then Inl (unhashable base_severity)
      else
        let base = (case base_severity of
                      PStr s \<Rightarrow> if s \<in> fst ` set SEVERITY_RANK then s else ''info''
                    | _ \<Rightarrow> ''info'') in
        Inr (if status = ''failure'' \<and> severity_rank base < severity_rank ''warning'' then ''warning'' else base))"

text \<open>What \<open>_is_duplicate\<close> does between taking and releasing its lock.\<close>

definition dedup_check ::
  "string \<Rightarrow> rat \<Rightarrow> notification_sender \<Rightarrow> bool result \<times> notification_sender" where
  "dedup_check key now s =
     (case dedup_seen s key of
        None \<Rightarrow> (Inr False, s\<lparr>dedup_seen := (dedup_seen s)(key \<mapsto> now)\<rparr>)
      | Some last_sent \<Rightarrow>
          (case num_or_raise ''<'' (dedup_window_seconds s) of
             Inl e \<Rightarrow> (Inl e, s)
           | Inr window \<Rightarrow>
               if now - last_sent < window then (Inr True, s)
               else (Inr False, s\<lparr>dedup_seen := (dedup_seen s)(key \<mapsto> now)\<rparr>)))"

definition is_duplicate :: "env \<Rightarrow> string \<Rightarrow> ('s notify_disk_scheme, bool) pym" where
  "is_duplicate env key =
     bindM (getM sender) (\<lambda>s.
     if \<not> py_truthy (dedup_enabled s) then returnM False
     else
       bindM (time_time env) (\<lambda>now.
       (\<lambda>w. case dedup_check key now (sender w) of (r, s') \<Rightarrow> (r, w\<lparr>sender := s'\<rparr>))))"

definition wants_channel :: "notification_sender \<Rightarrow> string \<Rightarrow> string \<Rightarrow> bool result" where
  "wants_channel s channel severity =
     (if \<not> py_truthy (ns_routing s) then Inr True
      else rbind (py_get_or (ns_routing s) severity (PList [])) (\<lambda>cs. py_in channel cs))"

definition render ::
  "env \<Rightarrow> notification_sender \<Rightarrow> string \<Rightarrow> string \<Rightarrow> pydict \<Rightarrow> string result" where
  "render env s channel default_text kw =
     rbind (py_get (ns_templates s) channel) (\<lambda>own.
     rbind (if py_truthy own then Inr own else py_get (ns_templates s) ''default'') (\<lambda>tmpl.
     if \<not> py_truthy tmpl then Inr default_text
     else
       case format_template env kw tmpl of
         Inr t \<Rightarrow> Inr t
       | Inl e \<Rightarrow> if lookup_error e then Inr default_text else Inl e))"

text \<open>\<open>s.upper()\<close> on ASCII letters; a status is one of two literals.\<close>

definition py_upper :: "string \<Rightarrow> string" where
  "py_upper = map (\<lambda>c. if 97 \<le> (of_char c :: nat) \<and> (of_char c :: nat) \<le> 122 then char_of (of_char c - 32 :: nat) else c)"

text \<open>What is reported: action, controller, user, status, details.\<close>

record event =
  ev_action :: string
  ev_controller :: pyval
  ev_user :: pyval
  ev_status :: string
  ev_details :: pyval

definition event_fields :: "event \<Rightarrow> string \<Rightarrow> pydict" where
  "event_fields ev severity =
     [(''action'', PStr (ev_action ev)), (''controller'', ev_controller ev), (''user'', ev_user ev),
      (''status'', PStr (ev_status ev)), (''severity'', PStr severity),
      (''details'', py_or (ev_details ev) (PStr []))]"

text \<open>\<open>severity or "info"\<close>; the empty text stands for a missing severity.\<close>

definition or_info :: "string \<Rightarrow> string" where
  "or_info severity = (if severity = [] then ''info'' else severity)"

abbreviation NL :: string where
  "NL \<equiv> [CHR 0x0A]"

section \<open>Channels\<close>

definition post_json :: "env \<Rightarrow> pyval \<Rightarrow> (string \<times> pyval) list \<Rightarrow> pydict \<Rightarrow> ('s world_scheme, http_out) pym" where
  "post_json env url headers payload =
     do_http env \<lparr>hr_method = PStr ''POST'', hr_url = url, hr_headers = headers, hr_json = Some (PDict payload)\<rparr>"

definition status_in :: "int list \<Rightarrow> http_out \<Rightarrow> bool" where
  "status_in codes out = (case out of HttpFailed _ \<Rightarrow> False | HttpResponse code _ \<Rightarrow> code \<in> set codes)"

definition slack_default_text :: "env \<Rightarrow> event \<Rightarrow> string" where
  "slack_default_text env ev =
     ''*Auto-Healer Notification*'' @ NL @ ''*Action:* `'' @ ev_action ev @ ''`'' @ NL
     @ ''*Controller:* `'' @ str_of env (ev_controller ev) @ ''`'' @ NL
     @ ''*User:* `'' @ str_of env (ev_user ev) @ ''`'' @ NL @ ''*Status:* `'' @ py_upper (ev_status ev) @ ''`''
     @ (if py_truthy (ev_details ev) then NL @ ''*Details:* '' @ str_of env (ev_details ev) else [])"

definition slack_payload :: "notification_sender \<Rightarrow> string \<Rightarrow> pydict" where
  "slack_payload s t =
     [(''channel'', slack_channel s), (''username'', slack_username s),
      (''attachments'', PList [PDict [(''color'', PStr ''#439FE0''), (''text'', PStr t),
         (''mrkdwn_in'', PList [PStr ''text''])]])]"

definition send_slack_notification ::
  "env \<Rightarrow> notification_sender \<Rightarrow> event \<Rightarrow> string \<Rightarrow> ('s world_scheme, bool) pym" where
  "send_slack_notification env s ev severity =
     (if \<not> py_truthy (slack_enabled s) \<or> \<not> py_truthy (slack_url s) then returnM False
      else
        bindM (liftM (py_in (ev_status ev) (slack_notify_on s))) (\<lambda>listed.
        if \<not> listed then returnM False
        else
          bindM (liftM (render env s ''slack'' (slack_default_text env ev) (event_fields ev (or_info severity)))) (\<lambda>t.
          bindM (post_json env (slack_url s) [] (slack_payload s t)) (\<lambda>out.
          returnM (status_in [200] out)))))"

definition teams_default_text :: "env \<Rightarrow> event \<Rightarrow> string" where
  "teams_default_text env ev =
     ''**Auto-Healer Notification**'' @ NL @ ''**Action:** `'' @ ev_action ev @ ''`'' @ NL
     @ ''**Controller:** `'' @ str_of env (ev_controller ev) @ ''`'' @ NL
     @ ''**User:** `'' @ str_of env (ev_user ev) @ ''`'' @ NL @ ''**Status:** `'' @ py_upper (ev_status ev) @ ''`''
     @ (if py_truthy (ev_details ev) then NL @ ''**Details:** '' @ str_of env (ev_details ev) else [])"

definition teams_payload :: "string \<Rightarrow> pydict" where
  "teams_payload t =
     [(''@type'', PStr ''MessageCard''), (''themeColor'', PStr ''0076D7''),
      (''sections'', PList [PDict [(''text'', PStr t)]])]"

definition send_teams_notification ::
  "env \<Rightarrow> notification_sender \<Rightarrow> event \<Rightarrow> string \<Rightarrow> ('s world_scheme, bool) pym" where
  "send_teams_notification env s ev severity =
     (if \<not> py_truthy (teams_enabled s) \<or> \<not> py_truthy (teams_url s) then returnM False
      else
        bindM (liftM (py_in (ev_status ev) (teams_notify_on s))) (\<lambda>listed.
        if \<not> listed then returnM False
        else
          bindM (liftM (render env s ''teams'' (teams_default_text env ev) (event_fields ev (or_info severity)))) (\<lambda>t.
          bindM (post_json env (teams_url s) [] (teams_payload t)) (\<lambda>out.
          returnM (status_in [200, 201] out)))))"

definition email_default_body :: "env \<Rightarrow> event \<Rightarrow> string \<Rightarrow> string" where
  "email_default_body env ev severity =
     ''Auto-Healer executed '' @ squoted (ev_action ev) @ '' on controller '' @ squoted (str_of env (ev_controller ev))
     @ ''.'' @ NL @ NL @ ''Status: '' @ py_upper (ev_status ev) @ NL @ ''Severity: '' @ or_info severity @ NL
     @ ''Triggered by: '' @ str_of env (ev_user ev) @ NL
     @ (if py_truthy (ev_details ev) then NL @ ''Details:'' @ NL @ str_of env (ev_details ev) @ NL else [])"

definition email_subject :: "env \<Rightarrow> event \<Rightarrow> string" where
  "email_subject env ev =
     ''[Auto-Healer] '' @ ev_action ev @ '' on '' @ str_of env (ev_controller ev) @ '' - '' @ py_upper (ev_status ev)"

text \<open>\<open>", ".join(email_to)\<close>.\<close>

definition join_addresses :: "pyval \<Rightarrow> string result" where
  "join_addresses v =
     rbind (py_iter v) (\<lambda>xs.
     rbind (rmap (\<lambda>x. case x of PStr s \<Rightarrow> Inr s
                     | u \<Rightarrow> Inl (TypeError (''sequence item: expected str instance, '' @ py_type_name u @ '' found''))) xs)
       (\<lambda>ss. Inr (join '', '' ss)))"

definition resolve_if_set :: "env \<Rightarrow> pyval \<Rightarrow> ('s world_scheme, pyval) pym" where
  "resolve_if_set env v = (if py_truthy v then resolve_vault_ref env v None else returnM PNone)"

text \<open>The body of \<open>with smtplib.SMTP(...) as smtp\<close>.\<close>

definition smtp_session ::
  "env \<Rightarrow> notification_sender \<Rightarrow> pyval \<Rightarrow> pyval \<Rightarrow> pyval \<Rightarrow> string \<Rightarrow> string \<Rightarrow> string
     \<Rightarrow> ('s world_scheme, unit) pym" where
  "smtp_session env s username password from_addr to_header subject body =
     bindM (do_smtp env (SmtpConnect (email_smtp_host s) (email_smtp_port s))) (\<lambda>_.
     bindM (if py_truthy (email_use_tls s) then do_smtp env SmtpStartTls else returnM ()) (\<lambda>_.
     bindM (if py_truthy username \<and> py_truthy password then do_smtp env (SmtpLogin username password)
            else returnM ()) (\<lambda>_.
     do_smtp env (SmtpSend from_addr (email_to s) to_header subject body))))"

definition send_email_notification ::
  "env \<Rightarrow> notification_sender \<Rightarrow> event \<Rightarrow> string \<Rightarrow> ('s world_scheme, bool) pym" where
  "send_email_notification env s ev severity =
     (if \<not> py_truthy (email_enabled s) \<or> \<not> py_truthy (email_smtp_host s) \<or> \<not> py_truthy (email_to s)
      then returnM False
      else
        bindM (liftM (py_in (ev_status ev) (email_notify_on s))) (\<lambda>listed.
        if \<not> listed then returnM False
        else
          bindM (liftM (render env s ''email'' (email_default_body env ev severity) (event_fields ev (or_info severity))))
            (\<lambda>body.
          bindM (catchM
                   (bindM (resolve_if_set env (email_username s)) (\<lambda>username.
                    bindM (resolve_if_set env (email_password s)) (\<lambda>password.
                    returnM (Some (username, password)))))
                   (\<lambda>e. case e of VaultUnavailableError _ \<Rightarrow> returnM None | _ \<Rightarrow> raiseM e)) (\<lambda>credentials.
          case credentials of
            None \<Rightarrow> returnM False
          | Some (username, password) \<Rightarrow>
              (let from_addr = py_or (py_or (email_from s) username) (PStr ''auto-healer@localhost'') in
               bindM (liftM (join_addresses (email_to s))) (\<lambda>to_header.
               catchM
                 (bindM (smtp_session env s username password from_addr to_header (email_subject env ev) body)
                    (\<lambda>_. returnM True))
                 (\<lambda>e. case e of OSError _ \<Rightarrow> returnM False | _ \<Rightarrow> raiseM e)))))))"

definition incident_title :: "env \<Rightarrow> event \<Rightarrow> string" where
  "incident_title env ev =
     ''Auto-Healer: '' @ squoted (ev_action ev) @ '' on '' @ squoted (str_of env (ev_controller ev)) @ '' - ''
     @ py_upper (ev_status ev)"

definition lookup_or :: "(string \<times> string) list \<Rightarrow> string \<Rightarrow> string \<Rightarrow> string" where
  "lookup_or table k d = (case map_of table k of None \<Rightarrow> d | Some v \<Rightarrow> v)"

definition pagerduty_payload :: "env \<Rightarrow> event \<Rightarrow> string \<Rightarrow> pyval \<Rightarrow> string \<Rightarrow> pydict" where
  "pagerduty_payload env ev severity routing_key summary =
     [(''routing_key'', routing_key), (''event_action'', PStr ''trigger''),
      (''dedup_key'', PStr (''auto-healer:'' @ ev_action ev @ '':'' @ str_of env (ev_controller ev))),
      (''payload'', PDict
        [(''summary'', PStr summary), (''source'', PStr ''auto-healer''),
         (''severity'', PStr (lookup_or SEVERITY_TO_PAGERDUTY severity ''info'')),
         (''custom_details'', PDict [(''user'', ev_user ev), (''status'', PStr (ev_status ev)),
            (''details'', ev_details ev)])])]"

text \<open>\<open>severity or ("critical" if status == "failure" else "info")\<close>.\<close>

definition paging_severity :: "string \<Rightarrow> string \<Rightarrow> string" where
  "paging_severity severity status =
     (if severity \<noteq> [] then severity else if status = ''failure'' then ''critical'' else ''info'')"

definition send_pagerduty_notification ::
  "env \<Rightarrow> notification_sender \<Rightarrow> event \<Rightarrow> string \<Rightarrow> ('s world_scheme, bool) pym" where
  "send_pagerduty_notification env s ev severity =
     (if \<not> py_truthy (pagerduty_enabled s) \<or> \<not> py_truthy (pagerduty_routing_key s) then returnM False
      else
        bindM (liftM (py_in (ev_status ev) (pagerduty_notify_on s))) (\<lambda>listed.
        if \<not> listed then returnM False
        else
          (let sev = paging_severity severity (ev_status ev) in
           bindM (liftM (render env s ''pagerduty'' (incident_title env ev) (event_fields ev sev))) (\<lambda>summary.
           bindM (catchM
                    (bindM (resolve_vault_ref env (pagerduty_routing_key s) None) (\<lambda>k. returnM (Some k)))
                    (\<lambda>e. case e of VaultUnavailableError _ \<Rightarrow> returnM None | _ \<Rightarrow> raiseM e)) (\<lambda>key.
           case key of
             None \<Rightarrow> returnM False
           | Some routing_key \<Rightarrow>
               bindM (post_json env (PStr PAGERDUTY_EVENTS_URL) [] (pagerduty_payload env ev sev routing_key summary))
                 (\<lambda>out. returnM (status_in [202] out)))))))"

definition opsgenie_payload :: "env \<Rightarrow> event \<Rightarrow> string \<Rightarrow> string \<Rightarrow> pydict" where
  "opsgenie_payload env ev severity message =
     [(''message'', PStr message), (''description'', py_or (ev_details ev) (PStr message)),
      (''priority'', PStr (lookup_or SEVERITY_TO_OPSGENIE_PRIORITY severity ''P5'')),
      (''source'', PStr ''auto-healer''),
      (''details'', PDict [(''user'', ev_user ev), (''controller'', ev_controller ev),
         (''status'', PStr (ev_status ev))])]"

definition send_opsgenie_notification ::
  "env \<Rightarrow> notification_sender \<Rightarrow> event \<Rightarrow> string \<Rightarrow> ('s world_scheme, bool) pym" where
  "send_opsgenie_notification env s ev severity =
     (if \<not> py_truthy (opsgenie_enabled s) \<or> \<not> py_truthy (opsgenie_api_key s) then returnM False
      else
        bindM (liftM (py_in (ev_status ev) (opsgenie_notify_on s))) (\<lambda>listed.
        if \<not> listed then returnM False
        else
          (let sev = paging_severity severity (ev_status ev) in
           bindM (liftM (render env s ''opsgenie'' (incident_title env ev) (event_fields ev sev))) (\<lambda>message.
           bindM (catchM
                    (bindM (resolve_vault_ref env (opsgenie_api_key s) None) (\<lambda>k. returnM (Some k)))
                    (\<lambda>e. case e of VaultUnavailableError _ \<Rightarrow> returnM None | _ \<Rightarrow> raiseM e)) (\<lambda>key.
           case key of
             None \<Rightarrow> returnM False
           | Some api_key \<Rightarrow>
               bindM (post_json env (PStr OPSGENIE_ALERTS_URL)
                   [(''Authorization'', PStr (''GenieKey '' @ str_of env api_key)),
                    (''Content-Type'', PStr ''application/json'')]
                   (opsgenie_payload env ev sev message))
                 (\<lambda>out. returnM (status_in [202] out)))))))"

section \<open>The coordinator\<close>

datatype channel = Slack | Teams | Email | PagerDuty | Opsgenie

fun channel_name :: "channel \<Rightarrow> string" where
  "channel_name Slack = ''slack''"
| "channel_name Teams = ''teams''"
| "channel_name Email = ''email''"
| "channel_name PagerDuty = ''pagerduty''"
| "channel_name Opsgenie = ''opsgenie''"

fun send_channel ::
  "env \<Rightarrow> notification_sender \<Rightarrow> event \<Rightarrow> string \<Rightarrow> channel \<Rightarrow> ('s world_scheme, bool) pym" where
  "send_channel env s ev severity Slack = send_slack_notification env s ev severity"
| "send_channel env s ev severity Teams = send_teams_notification env s ev severity"
| "send_channel env s ev severity Email = send_email_notification env s ev severity"
| "send_channel env s ev severity PagerDuty = send_pagerduty_notification env s ev severity"
| "send_channel env s ev severity Opsgenie = send_opsgenie_notification env s ev severity"

definition CHANNELS :: "channel list" where
  "CHANNELS = [Slack, Teams, Email, PagerDuty, Opsgenie]"

fun fan_out ::
  "env \<Rightarrow> notification_sender \<Rightarrow> event \<Rightarrow> string \<Rightarrow> channel list \<Rightarrow> (string \<times> bool) list
     \<Rightarrow> ('s world_scheme, (string \<times> bool) list) pym" where
  "fan_out env s ev severity [] results = returnM results"
| "fan_out env s ev severity (c # cs) results =
     bindM (liftM (wants_channel s (channel_name c) severity)) (\<lambda>wanted.
     if \<not> wanted then fan_out env s ev severity cs results
     else
       bindM (send_channel env s ev severity c) (\<lambda>sent.
       fan_out env s ev severity cs (results @ [(channel_name c, sent)])))"

definition event_key :: "env \<Rightarrow> event \<Rightarrow> string" where
  "event_key env ev = ev_action ev @ '':'' @ str_of env (ev_controller ev) @ '':'' @ ev_status ev"

definition notify ::
  "env \<Rightarrow> event \<Rightarrow> pyval \<Rightarrow> string option \<Rightarrow> ('s notify_disk_scheme, (string \<times> bool) list) pym" where
  "notify env ev severity dedup_key =
     bindM (liftM (effective_severity severity (ev_status ev))) (\<lambda>sev.
     bindM (is_duplicate env (if opt_true dedup_key then the dedup_key else event_key env ev)) (\<lambda>duplicate.
     if duplicate then returnM []
     else bindM (getM sender) (\<lambda>s. fan_out env s ev sev CHANNELS [])))"

end
