(* ===== verification/Cooldown.thy ===== *)
theory Cooldown
  imports Files
begin

text \<open>
  \<open>src/cooldown.py\<close>: when each key last ran, persisted by rename so that a restart does not reset
  the clock. The state is the dictionary \<open>_last_run\<close>; the file is a component of \<open>files\<close>. Every
  reading of \<open>time.time()\<close> is an argument, in the order the code takes them. A save that fails with
  \<open>OSError\<close> after some of its file-system calls is \<open>Some k\<close>, a save that completes is \<open>None\<close>.

  The locale \<open>cooldown_store\<close> is what the request handlers rely on: with the guard in front of
  every run of a key, runs of that key are at least its cooldown apart.
\<close>

definition MAX_COOLDOWN_RETENTION_SECONDS :: rat where
  "MAX_COOLDOWN_RETENTION_SECONDS = 24 * 60 * 60"

record cooldown_tracker =
  cd_path :: string
  cd_last_run :: pydict

definition make_key :: "string \<Rightarrow> string \<Rightarrow> string option \<Rightarrow> string" where
  "make_key event_type controller_name dedup =
     event_type @ ''|'' @ controller_name @ ''|'' @ (case dedup of None \<Rightarrow> [] | Some d \<Rightarrow> d)"

definition cd_load :: "(string \<Rightarrow> rat option) \<Rightarrow> file_read \<Rightarrow> cooldown_tracker \<Rightarrow> cooldown_tracker" where
  "cd_load fp fr cd =
     (case fr of
        Missing \<Rightarrow> cd
      | Unreadable _ \<Rightarrow> cd
      | Contents s \<Rightarrow>
          (case json_loads fp s of
             Inl _ \<Rightarrow> cd
           | Inr v \<Rightarrow>
               (case v of
                  PDict d \<Rightarrow> cd\<lparr>cd_last_run := alist_merge (cd_last_run cd) d\<rparr>
                | _ \<Rightarrow> cd)))"

definition cd_init :: "(string \<Rightarrow> rat option) \<Rightarrow> string \<Rightarrow> file_read \<Rightarrow> cooldown_tracker" where
  "cd_init fp path fr = cd_load fp fr \<lparr>cd_path = path, cd_last_run = []\<rparr>"

text \<open>\<open>ts < cutoff\<close> is evaluated for every record before any is deleted.\<close>

definition cd_prune :: "rat \<Rightarrow> cooldown_tracker \<Rightarrow> cooldown_tracker result" where
  "cd_prune now cd =
     (let cutoff = now - MAX_COOLDOWN_RETENTION_SECONDS in
      rbind (rmap (\<lambda>(k, ts). rbind (num_or_raise ''<'' ts) (\<lambda>q. Inr (k, q < cutoff))) (cd_last_run cd))
        (\<lambda>flags.
           let stale_keys = map fst (filter snd flags) in
           Inr (cd\<lparr>cd_last_run := filter (\<lambda>(k, v). k \<notin> set stale_keys) (cd_last_run cd)\<rparr>)))"

definition cd_save_ops :: "(rat \<Rightarrow> string) \<Rightarrow> cooldown_tracker \<Rightarrow> fsop list" where
  "cd_save_ops fr cd =
     save_ops (cd_path cd) (map (\<lambda>c. [c]) (json_dumps fr (PDict (cd_last_run cd))))"

definition cd_save ::
  "(rat \<Rightarrow> string) \<Rightarrow> rat \<Rightarrow> nat option \<Rightarrow> cooldown_tracker \<Rightarrow> files
     \<Rightarrow> unit result \<times> cooldown_tracker \<times> files" where
  "cd_save fr now fault cd fs =
     (case cd_prune now cd of
        Inl e \<Rightarrow> (Inl e, cd, fs)
      | Inr cd' \<Rightarrow>
          (let ops = cd_save_ops fr cd' in
           (Inr (), cd', fs_run (case fault of None \<Rightarrow> ops | Some k \<Rightarrow> take k ops) fs)))"

definition seconds_remaining ::
  "string \<Rightarrow> pyval \<Rightarrow> rat \<Rightarrow> cooldown_tracker \<Rightarrow> rat option result" where
  "seconds_remaining key cooldown_seconds now cd =
     (if \<not> py_truthy cooldown_seconds then Inr None
      else
        let last_run = dget (cd_last_run cd) key in
        if last_run = PNone then Inr None
        else
          rbind (num_or_raise ''-'' last_run) (\<lambda>last.
          rbind (num_or_raise ''-'' cooldown_seconds) (\<lambda>c.
          let remaining = c - (now - last) in
          Inr (if 0 < remaining then Some remaining else None))))"

definition cd_record ::
  "(rat \<Rightarrow> string) \<Rightarrow> string \<Rightarrow> rat \<Rightarrow> rat \<Rightarrow> nat option \<Rightarrow> cooldown_tracker \<Rightarrow> files
     \<Rightarrow> unit result \<times> cooldown_tracker \<times> files" where
  "cd_record fr key now now2 fault cd fs =
     cd_save fr now2 fault (cd\<lparr>cd_last_run := AList.update key (PFloat now) (cd_last_run cd)\<rparr>) fs"

section \<open>The interface\<close>

text \<open>
  An attempt is a key, its cooldown, the time it is checked at and the time it is recorded at.
  Attempts take place one after the other; other keys may have other cooldowns.
\<close>

fun timely :: "rat \<Rightarrow> ('k \<times> rat \<times> rat \<times> rat) list \<Rightarrow> bool" where
  "timely now [] = True"
| "timely now ((k, c, t, u) # es) = (now \<le> t \<and> t \<le> u \<and> timely u es)"

locale cooldown_store =
  fixes remaining :: "'k \<Rightarrow> rat \<Rightarrow> rat \<Rightarrow> 's \<Rightarrow> rat option"
    and mark :: "'k \<Rightarrow> rat \<Rightarrow> 's \<Rightarrow> 's"
    and inv :: "'s \<Rightarrow> bool"
    and cap :: rat
  assumes inv_mark: "inv s \<Longrightarrow> inv (mark k t s)"
    and remaining_mark:
      "inv s \<Longrightarrow> 0 < c \<Longrightarrow>
         remaining k c t (mark k u s) = (if t < u + c then Some (u + c - t) else None)"
    and remaining_mark_other:
      "inv s \<Longrightarrow> 0 < c \<Longrightarrow> c \<le> cap \<Longrightarrow> k' \<noteq> k \<Longrightarrow> u \<le> t \<Longrightarrow>
         remaining k' c t (mark k u s) = remaining k' c t s"
begin

text \<open>
  A guarded attempt on \<open>k\<close>: checked at \<open>t\<close>, and when no cooldown is running, executed and marked
  at \<open>u\<close>. The second component collects the executions.
\<close>

definition attempt :: "'k \<times> rat \<times> rat \<times> rat \<Rightarrow> 's \<times> ('k \<times> rat) list \<Rightarrow> 's \<times> ('k \<times> rat) list" where
  "attempt e st =
     (case (e, st) of ((k, c, t, u), (s, done_runs)) \<Rightarrow>
        if remaining k c t s = None then (mark k u s, done_runs @ [(k, u)]) else (s, done_runs))"

text \<open>The executions of \<open>k\<close> are spaced, and from its last one the store reports the rest of \<open>c\<close>.\<close>

definition spaced :: "rat \<Rightarrow> rat list \<Rightarrow> bool" where
  "spaced c us \<longleftrightarrow> sorted_wrt (\<lambda>u v. u + c \<le> v) us"

definition runs_of :: "'k \<Rightarrow> ('k \<times> rat) list \<Rightarrow> rat list" where
  "runs_of k done_runs = map snd (filter (\<lambda>(k', u). k' = k) done_runs)"

definition guarded :: "'k \<Rightarrow> rat \<Rightarrow> rat \<Rightarrow> 's \<times> ('k \<times> rat) list \<Rightarrow> bool" where
  "guarded k c now st \<longleftrightarrow>
     (case st of (s, done_runs) \<Rightarrow>
        inv s \<and> spaced c (runs_of k done_runs)
        \<and> (runs_of k done_runs \<noteq> [] \<longrightarrow>
             (\<forall>t \<ge> now. remaining k c t s
                = (if t < last (runs_of k done_runs) + c then Some (last (runs_of k done_runs) + c - t) else None))))"

lemma runs_of_snoc: "runs_of k (done_runs @ [(k', u)]) = runs_of k done_runs @ (if k' = k then [u] else [])"
  by (simp add: runs_of_def)

lemma spaced_snoc:
  assumes "spaced c us" "0 < c" "us \<noteq> [] \<Longrightarrow> last us + c \<le> v"
  shows "spaced c (us @ [v])"
proof -
  have "u + c \<le> v" if u: "u \<in> set us" for u
  proof -
    have ne: "us \<noteq> []" using u by auto
    show ?thesis
  proof (cases "u = last us")
    case True
    then show ?thesis using assms(3) ne by simp
  next
    case False
    obtain ws where ws: "us = ws @ [last us]" using u by (metis append_butlast_last_id empty_iff empty_set)
    then have "u \<in> set ws" using False u by (metis Un_iff list.set(2) set_append empty_iff insertE list.set(1))
    then have "u + c \<le> last us" using assms(1) ws unfolding spaced_def
      by (metis sorted_wrt_append list.set_intros(1))
    then show ?thesis using assms(2) assms(3) [OF ne] by simp
  qed
  qed
  then show ?thesis using assms(1) by (simp add: spaced_def sorted_wrt_append)
qed

lemma guarded_attempt:
  assumes g: "guarded k c now (s, done_runs)" and c: "0 < c" "c \<le> cap"
    and t: "now \<le> t" "t \<le> u" and same: "k' = k \<Longrightarrow> d = c"
  shows "guarded k c u (attempt (k', d, t, u) (s, done_runs))"
proof (cases "remaining k' d t s = None")
  case False
  then have eq: "attempt (k', d, t, u) (s, done_runs) = (s, done_runs)" by (simp add: attempt_def)
  show ?thesis unfolding eq using g t by (auto simp: guarded_def)
next
  case True
  then have eq: "attempt (k', d, t, u) (s, done_runs) = (mark k' u s, done_runs @ [(k', u)])"
    by (simp add: attempt_def)
  have s: "inv s" "spaced c (runs_of k done_runs)" using g by (auto simp: guarded_def)
  show ?thesis
  proof (cases "k' = k")
    case False
    then show ?thesis
      unfolding eq using g s c t remaining_mark_other [OF s(1) c, of k k' u]
      by (auto simp: guarded_def runs_of_snoc inv_mark)
  next
    case k: True
    have "last (runs_of k done_runs) + c \<le> u" if "runs_of k done_runs \<noteq> []"
    proof -
      have "remaining k c t s
          = (if t < last (runs_of k done_runs) + c then Some (last (runs_of k done_runs) + c - t) else None)"
        using g that t by (auto simp: guarded_def)
      then show ?thesis using True k same t by (auto split: if_splits)
    qed
    then have "spaced c (runs_of k done_runs @ [u])" using s c by (intro spaced_snoc) auto
    then show ?thesis
      unfolding eq using k s c by (auto simp: guarded_def runs_of_snoc inv_mark remaining_mark)
  qed
qed

theorem guarded_run:
  assumes "guarded k c now st" "0 < c" "c \<le> cap" "timely now es"
    and "\<forall>(k', d, t, u) \<in> set es. k' = k \<longrightarrow> d = c"
  shows "spaced c (runs_of k (snd (fold attempt es st)))"
  using assms
proof (induction es arbitrary: now st)
  case Nil
  then show ?case by (auto simp: guarded_def)
next
  case (Cons e es)
  obtain k' d t u where e: "e = (k', d, t, u)" by (cases e)
  obtain s done_runs where st: "st = (s, done_runs)" by (cases st)
  have "guarded k c u (attempt e st)"
    unfolding e st using Cons.prems e st by (intro guarded_attempt) auto
  then show ?case using Cons.prems e by (auto intro!: Cons.IH [of u])
qed

lemma guarded_start: "inv s \<Longrightarrow> guarded k c now (s, [])"
  by (simp add: guarded_def runs_of_def spaced_def)

end

section \<open>The implementation\<close>

text \<open>Every stored time stamp is a number: what \<open>record\<close> writes and \<open>_load\<close> reads back.\<close>

definition cd_wf :: "cooldown_tracker \<Rightarrow> bool" where
  "cd_wf cd \<longleftrightarrow>
     distinct (map fst (cd_last_run cd)) \<and> (\<forall>v \<in> snd ` set (cd_last_run cd). \<exists>q. v = PFloat q)"

definition stamp_of :: "pyval \<Rightarrow> rat" where
  "stamp_of v = (case py_num v of None \<Rightarrow> 0 | Some q \<Rightarrow> q)"

lemma distinct_map_filter_fst: "distinct (map fst d) \<Longrightarrow> distinct (map fst (filter P d))"
  by (rule distinct_map_filter)

lemma flagged_keys: "map fst (filter snd (map (\<lambda>(k, v). (k, P v)) d)) = map fst (filter (\<lambda>(k, v). P v) d)"
  by (induction d) auto

lemma drop_flagged:
  assumes "distinct (map fst d)"
  shows "filter (\<lambda>(k, v). k \<notin> set (map fst (filter (\<lambda>(k, v). P v) d))) d = filter (\<lambda>(k, v). \<not> P v) d"
proof (rule filter_cong [OF refl])
  fix x
  assume x: "x \<in> set d"
  obtain k v where kv: "x = (k, v)" by (rule prod.exhaust)
  have "k \<in> set (map fst (filter (\<lambda>(k, v). P v) d)) \<longleftrightarrow> P v"
  proof
    assume "k \<in> set (map fst (filter (\<lambda>(k, v). P v) d))"
    then obtain w where "(k, w) \<in> set d" "P w" by auto
    then show "P v" using eq_key_imp_eq_value [OF assms] x kv by metis
  next
    assume "P v"
    then show "k \<in> set (map fst (filter (\<lambda>(k, v). P v) d))" using x kv by force
  qed
  then show "(case x of (k, v) \<Rightarrow> k \<notin> set (map fst (filter (\<lambda>(k, v). P v) d))) = (case x of (k, v) \<Rightarrow> \<not> P v)"
    by (simp only: kv prod.case)
qed

lemma cd_prune_wf:
  assumes "cd_wf cd"
  shows "cd_prune now cd = Inr (cd\<lparr>cd_last_run :=
           filter (\<lambda>(k, v). \<not> stamp_of v < now - MAX_COOLDOWN_RETENTION_SECONDS) (cd_last_run cd)\<rparr>)"
proof -
  let ?c = "now - MAX_COOLDOWN_RETENTION_SECONDS" and ?d = "cd_last_run cd"
  let ?g = "\<lambda>(k :: string, ts). (k, stamp_of ts < ?c)"
  have "rmap (\<lambda>(k, ts). rbind (num_or_raise ''<'' ts) (\<lambda>q. Inr (k, q < ?c))) ?d = Inr (map ?g ?d)"
  proof (rule rmap_total)
    fix x
    assume x: "x \<in> set ?d"
    obtain k v where p: "x = (k, v)" by (cases x)
    with x assms obtain q where "v = PFloat q" by (force simp: cd_wf_def)
    then show "(case x of (k, ts) \<Rightarrow> rbind (num_or_raise ''<'' ts) (\<lambda>q. Inr (k, q < ?c))) = Inr (?g x)"
      by (simp add: p num_or_raise_def stamp_of_def)
  qed
  moreover have "filter (\<lambda>(k, v). k \<notin> set (map fst (filter snd (map ?g ?d)))) ?d
      = filter (\<lambda>(k, v). \<not> stamp_of v < ?c) ?d"
    unfolding flagged_keys using assms by (intro drop_flagged) (simp add: cd_wf_def)
  ultimately show ?thesis unfolding cd_prune_def Let_def by (simp only: rbind_simps)
qed

definition cd_mark :: "string \<Rightarrow> rat \<Rightarrow> cooldown_tracker \<Rightarrow> cooldown_tracker" where
  "cd_mark key now cd =
     cd\<lparr>cd_last_run := filter (\<lambda>(k, v). \<not> stamp_of v < now - MAX_COOLDOWN_RETENTION_SECONDS)
          (AList.update key (PFloat now) (cd_last_run cd))\<rparr>"

lemma set_update_snd: "snd ` set (AList.update k v d) \<subseteq> insert v (snd ` set d)"
  by (induction d) auto

lemma cd_wf_update: "cd_wf cd \<Longrightarrow> cd_wf (cd\<lparr>cd_last_run := AList.update k (PFloat q) (cd_last_run cd)\<rparr>)"
  using set_update_snd [of k "PFloat q" "cd_last_run cd"] by (fastforce simp: cd_wf_def)

lemma cd_wf_mark: "cd_wf cd \<Longrightarrow> cd_wf (cd_mark k q cd)"
  using cd_wf_update [of cd k q] by (auto simp: cd_wf_def cd_mark_def distinct_map_filter)

text \<open>One \<open>record\<close> whose two clock readings agree is one \<open>cd_mark\<close>, whatever becomes of the file.\<close>

lemma cd_record_mark:
  "cd_wf cd \<Longrightarrow>
     \<exists>fs'. cd_record fr key now now fault cd fs = (Inr (), cd_mark key now cd, fs')"
  using cd_prune_wf [OF cd_wf_update [of cd key now], of now]
  by (simp add: cd_record_def cd_save_def cd_mark_def Let_def)

definition cd_left :: "string \<Rightarrow> rat \<Rightarrow> rat \<Rightarrow> cooldown_tracker \<Rightarrow> rat option" where
  "cd_left key c now cd = (case seconds_remaining key (PFloat c) now cd of Inl e \<Rightarrow> None | Inr r \<Rightarrow> r)"

lemma cd_left_wf:
  assumes "cd_wf cd" "0 < c"
  shows "cd_left k c t cd =
    (case map_of (cd_last_run cd) k of
       None \<Rightarrow> None
     | Some v \<Rightarrow> if t < stamp_of v + c then Some (stamp_of v + c - t) else None)"
proof (cases "map_of (cd_last_run cd) k")
  case None
  then show ?thesis using assms by (simp add: cd_left_def seconds_remaining_def dget_def)
next
  case (Some v)
  then obtain q where "v = PFloat q" using assms by (force simp: cd_wf_def dest: map_of_SomeD)
  then show ?thesis
    using Some assms
    by (auto simp: cd_left_def seconds_remaining_def dget_def num_or_raise_def Let_def stamp_of_def)
qed

lemma cd_last_run_mark:
  assumes "cd_wf cd"
  shows "map_of (cd_last_run (cd_mark k u cd)) k' =
    (if k' = k then Some (PFloat u)
     else case map_of (cd_last_run cd) k' of
            None \<Rightarrow> None
          | Some v \<Rightarrow> if stamp_of v < u - MAX_COOLDOWN_RETENTION_SECONDS then None else Some v)"
  using assms
  by (auto simp: cd_mark_def map_of_filter_val cd_wf_def stamp_of_def MAX_COOLDOWN_RETENTION_SECONDS_def
      split: option.split)

interpretation cds: cooldown_store cd_left cd_mark cd_wf MAX_COOLDOWN_RETENTION_SECONDS
proof
  fix s k and t :: rat
  assume "cd_wf s"
  then show "cd_wf (cd_mark k t s)" by (rule cd_wf_mark)
next
  fix s k and c t u :: rat
  assume "cd_wf s" "(0 :: rat) < c"
  then show "cd_left k c t (cd_mark k u s) = (if t < u + c then Some (u + c - t) else None)"
    by (simp add: cd_left_wf cd_wf_mark cd_last_run_mark) (simp add: stamp_of_def)
next
  fix s and k k' :: string and c u t :: rat
  assume "cd_wf s" "(0 :: rat) < c" "c \<le> MAX_COOLDOWN_RETENTION_SECONDS" "k' \<noteq> k" "u \<le> t"
  then show "cd_left k' c t (cd_mark k u s) = cd_left k' c t s"
    by (simp add: cd_left_wf cd_wf_mark cd_last_run_mark split: option.split)
qed


section \<open>Properties\<close>

text \<open>
  A guarded run of the tracker itself: an attempt asks \<open>seconds_remaining\<close> and, when it answers
  \<open>None\<close>, executes and calls \<open>record\<close>, whatever becomes of the file.
\<close>

definition cd_attempt ::
  "(rat \<Rightarrow> string) \<Rightarrow> nat option \<Rightarrow> string \<times> rat \<times> rat \<times> rat
     \<Rightarrow> cooldown_tracker \<times> (string \<times> rat) list \<Rightarrow> cooldown_tracker \<times> (string \<times> rat) list" where
  "cd_attempt fr fault e st =
     (case (e, st) of ((k, c, t, u), (cd, done_runs)) \<Rightarrow>
        (case seconds_remaining k (PFloat c) t cd of
           Inr None \<Rightarrow> (fst (snd (cd_record fr k u u fault cd Map.empty)), done_runs @ [(k, u)])
         | _ \<Rightarrow> (cd, done_runs)))"

lemma seconds_remaining_wf:
  assumes "cd_wf cd"
  shows "\<exists>r. seconds_remaining k (PFloat c) t cd = Inr r"
proof (cases "map_of (cd_last_run cd) k")
  case None
  then show ?thesis by (simp add: seconds_remaining_def dget_def)
next
  case (Some v)
  then obtain q where "v = PFloat q" using assms by (force simp: cd_wf_def dest: map_of_SomeD)
  then show ?thesis
    using Some by (simp add: seconds_remaining_def dget_def num_or_raise_def Let_def)
qed

lemma cd_attempt_cds:
  assumes "cd_wf (fst st)"
  shows "cd_attempt fr fault e st = cds.attempt e st"
proof -
  obtain k c t u cd done_runs where e: "e = (k, c, t, u)" "st = (cd, done_runs)"
    by (cases e; cases st)
  obtain r where "seconds_remaining k (PFloat c) t cd = Inr r"
    using assms e seconds_remaining_wf [of cd k c t] by auto
  moreover obtain fs' where "cd_record fr k u u fault cd Map.empty = (Inr (), cd_mark k u cd, fs')"
    using assms e cd_record_mark by fastforce
  ultimately show ?thesis
    by (auto simp: e cd_attempt_def cds.attempt_def cd_left_def split: option.split)
qed

lemma cd_attempts_cds:
  "cd_wf (fst st) \<Longrightarrow> fold (cd_attempt fr fault) es st = fold cds.attempt es st"
proof (induction es arbitrary: st)
  case Nil
  then show ?case by simp
next
  case (Cons e es)
  have "cd_wf (fst (cds.attempt e st))"
    using Cons.prems by (cases e; cases st) (auto simp: cds.attempt_def cd_wf_mark)
  then show ?case using Cons by (simp add: cd_attempt_cds)
qed





text \<open>
  A restart does not reset the clock: whatever file the previous state left, when the save of
  \<open>record\<close> completes, loading the state file into a fresh tracker gives back the same records.
\<close>

theorem cooldown_survives_restart:
  assumes "cd_wf cd" "json_ok fr fp (PDict (cd_last_run cd'))"
    and rec: "cd_record fr key u u2 None cd fs = (Inr (), cd', fs')"
    and "fs' (cd_path cd) = Some text"
  shows "cd_init fp (cd_path cd) (Contents text) = cd'"
proof -
  let ?cd = "cd\<lparr>cd_last_run := AList.update key (PFloat u) (cd_last_run cd)\<rparr>"
  have "cd_path cd' = cd_path cd"
    and "fs' = fs_run (cd_save_ops fr cd') fs"
    using rec cd_prune_wf [OF cd_wf_update [OF assms(1), of key u], of u2]
    by (auto simp: cd_record_def cd_save_def Let_def)
  then have "text = json_dumps fr (PDict (cd_last_run cd'))"
    using assms(4) by (simp add: cd_save_ops_def save_complete concat_map_singleton)
  then have "json_loads fp text = Inr (PDict (cd_last_run cd'))"
    using json_loads_dumps [OF assms(2)] by simp
  then show ?thesis
    using assms(2) \<open>cd_path cd' = cd_path cd\<close>
    by (simp add: cd_init_def cd_load_def alist_merge_empty)
qed

theorem cooldown_survives_restart_witness:
  "cd_init (\<lambda>s. Some 10) ''c'' (Contents
      (the (snd (snd (cd_record (\<lambda>q. ''10.0'') ''k'' 10 10 None \<lparr>cd_path = ''c'', cd_last_run = []\<rparr> Map.empty)) ''c'')))
     = \<lparr>cd_path = ''c'', cd_last_run = [(''k'', PFloat 10)]\<rparr>"
proof -
  let ?cd = "\<lparr>cd_path = ''c'', cd_last_run = []\<rparr>" and ?cd' = "\<lparr>cd_path = ''c'', cd_last_run = [(''k'', PFloat 10)]\<rparr>"
  have wf: "cd_wf ?cd" by (simp add: cd_wf_def)
  obtain fs' where r: "cd_record (\<lambda>q. ''10.0'') ''k'' 10 10 None ?cd Map.empty = (Inr (), ?cd', fs')"
    using cd_record_mark [OF wf, of "\<lambda>q. ''10.0''" "''k''" 10 None Map.empty]
    by (auto simp: cd_mark_def stamp_of_def MAX_COOLDOWN_RETENTION_SECONDS_def)
  have ok: "json_ok (\<lambda>q. ''10.0'') (\<lambda>s. Some 10) (PDict (cd_last_run ?cd'))"
    by (simp add: float_token_def is_numchar_def is_digit_def frac_mark_def)
  have "fs' = fs_run (cd_save_ops (\<lambda>q. ''10.0'') ?cd') Map.empty"
    using r cd_prune_wf [OF cd_wf_update [OF wf, of "''k''" 10], of 10]
    by (simp add: cd_record_def cd_save_def Let_def stamp_of_def MAX_COOLDOWN_RETENTION_SECONDS_def split: sum.splits)
  then have "fs' (cd_path ?cd) = Some (json_dumps (\<lambda>q. ''10.0'') (PDict (cd_last_run ?cd')))"
    by (simp only: cd_save_ops_def save_complete concat_map_singleton list.map_ident cooldown_tracker.simps)
  from cooldown_survives_restart [OF wf ok r this] show ?thesis
    using \<open>fs' (cd_path ?cd) = _\<close> by (simp add: r)
qed

text \<open>
  A crash in the middle of a save is harmless: after any prefix of its file-system calls the
  state file is the one before or the complete new one, never a truncated one.
\<close>

theorem cooldown_save_crash_safe:
  assumes "cd_save fr now (Some n) cd fs = (Inr (), cd', fs')"
  shows "fs' (cd_path cd) = fs (cd_path cd)
    \<or> fs' (cd_path cd) = Some (json_dumps fr (PDict (cd_last_run cd')))"
proof -
  obtain cd2 where p: "cd_prune now cd = Inr cd2"
    using assms by (auto simp: cd_save_def split: sum.splits)
  then have path: "cd_path cd2 = cd_path cd"
    by (auto simp: cd_prune_def Let_def rbind_eq_Inr)
  let ?ops = "cd_save_ops fr cd2"
  have fs': "cd' = cd2" "fs' = fs_run (take n ?ops) fs"
    using assms p by (auto simp: cd_save_def Let_def)
  have "take n ?ops = take (min n (length ?ops)) ?ops" by (simp add: min_def)
  then have "fs' (cd_path cd2) \<in> {fs (cd_path cd2), Some (json_dumps fr (PDict (cd_last_run cd2)))}"
    unfolding fs' cd_save_ops_def
    using save_crash [of "min n (length ?ops)" "cd_path cd2"
        "map (\<lambda>c. [c]) (json_dumps fr (PDict (cd_last_run cd2)))" fs]
    by (simp add: cd_save_ops_def concat_map_singleton)
  then show ?thesis using fs' path by simp
qed

theorem cooldown_save_crash_safe_witness:
  "snd (snd (cd_save (\<lambda>q. ''10.0'') 10 (Some 3) \<lparr>cd_path = ''c'', cd_last_run = [(''k'', PFloat 10)]\<rparr>
      [''c'' \<mapsto> ''{}''])) ''c'' \<in> {Some ''{}'', Some (json_dumps (\<lambda>q. ''10.0'') (PDict [(''k'', PFloat 10)]))}"
proof -
  let ?cd = "\<lparr>cd_path = ''c'', cd_last_run = [(''k'', PFloat 10)]\<rparr>"
  have "cd_prune 10 ?cd = Inr ?cd"
    using cd_prune_wf [of ?cd 10] by (simp add: cd_wf_def stamp_of_def MAX_COOLDOWN_RETENTION_SECONDS_def)
  then obtain fs' where r: "cd_save (\<lambda>q. ''10.0'') 10 (Some 3) ?cd [''c'' \<mapsto> ''{}''] = (Inr (), ?cd, fs')"
    by (simp add: cd_save_def Let_def)
  from cooldown_save_crash_safe [OF r] show ?thesis by (simp add: r)
qed

end
