(* ===== verification/Approvals.thy ===== *)
theory Approvals
  imports Notify Cooldown RateLimit
begin

text \<open>
  The approval queue of \<open>src/main.py\<close>. The module variable \<open>approval_queue\<close> is a list of
  dictionaries that the handlers also hold on to outside the lock, so the model has a heap: an entry
  is an address, the queue is a list of addresses, and an update through a held entry is seen by the
  queue as long as the entry is in it. Addresses are never reused.
\<close>

section \<open>The state of the server\<close>

record server = notify_disk +
  merged_actions :: "pyval option"
  heap :: "pyval list"
  approval_queue :: "nat list"
  approvals_path :: string
  cooldowns :: cooldown_tracker
  limiter :: rate_limiter
  chain :: audit_chain

definition MAX_PROCESSED_APPROVALS :: nat where
  "MAX_PROCESSED_APPROVALS = 500"

section \<open>Entries\<close>

definition new_entry :: "pyval \<Rightarrow> 's server_scheme \<Rightarrow> nat \<times> 's server_scheme" where
  "new_entry v w = (length (heap w), w\<lparr>heap := heap w @ [v]\<rparr>)"

definition get_entry :: "nat \<Rightarrow> ('s server_scheme, pyval) pym" where
  "get_entry a = getM (\<lambda>w. heap w ! a)"

text \<open>\<open>entry[k] = v\<close>.\<close>

definition set_field :: "nat \<Rightarrow> string \<Rightarrow> pyval \<Rightarrow> ('s server_scheme, unit) pym" where
  "set_field a k v =
     bindM (get_entry a) (\<lambda>e.
     case e of
       PDict d \<Rightarrow> modifyM (\<lambda>w. w\<lparr>heap := (heap w)[a := PDict (AList.update k v d)]\<rparr>)
     | u \<Rightarrow> raiseM (TypeError (squoted (py_type_name u) @ '' object does not support item assignment'')))"

definition entry_field :: "nat \<Rightarrow> string \<Rightarrow> ('s server_scheme, pyval) pym" where
  "entry_field a k = bindM (get_entry a) (\<lambda>e. liftM (py_item e k))"

section \<open>Pruning and saving\<close>

text \<open>\<open>[i for i, e in enumerate(approval_queue) if e["status"] != "pending"]\<close>, as addresses with flags.\<close>

definition processed_flags :: "pyval list \<Rightarrow> nat list \<Rightarrow> (nat \<times> bool) list result" where
  "processed_flags h q =
     rmap (\<lambda>a. rbind (py_item (h ! a) ''status'') (\<lambda>st. Inr (a, st \<noteq> PStr ''pending''))) q"

text \<open>The first \<open>excess\<close> processed positions are dropped.\<close>

fun drop_processed :: "nat \<Rightarrow> (nat \<times> bool) list \<Rightarrow> nat list" where
  "drop_processed excess [] = []"
| "drop_processed excess ((a, processed) # q) =
     (if processed \<and> 0 < excess then drop_processed (excess - 1) q else a # drop_processed excess q)"

definition prune_queue :: "pyval list \<Rightarrow> nat list \<Rightarrow> nat list result" where
  "prune_queue h q =
     rbind (processed_flags h q) (\<lambda>flags.
     Inr (drop_processed (length (filter snd flags) - MAX_PROCESSED_APPROVALS) flags))"

definition queue_values :: "'s server_scheme \<Rightarrow> pyval list" where
  "queue_values w = map (\<lambda>a. heap w ! a) (approval_queue w)"

text \<open>
  The write to a temporary file and its renaming: of a save that fails with \<open>OSError\<close> only the
  first calls happen, and the failure is logged and not raised.
\<close>

definition save_approval_queue :: "env \<Rightarrow> ('s server_scheme, unit) pym" where
  "save_approval_queue env =
     bindM (getM (\<lambda>w. prune_queue (heap w) (approval_queue w))) (\<lambda>r.
     bindM (liftM r) (\<lambda>q.
     bindM (modifyM (\<lambda>w. w\<lparr>approval_queue := q\<rparr>)) (\<lambda>_.
     bindM next_tick (\<lambda>n.
     modifyM (\<lambda>w.
       let ops = save_ops (approvals_path w)
             (map (\<lambda>c. [c]) (json_dumps (env_float_repr env) (PList (queue_values w)))) in
       w\<lparr>fs := fs_run (case env_save_fault env n of None \<Rightarrow> ops | Some k \<Rightarrow> take k ops) (fs w)\<rparr>)))))"

section \<open>Loading and finding\<close>

definition enqueue_all :: "pyval list \<Rightarrow> 's server_scheme \<Rightarrow> 's server_scheme" where
  "enqueue_all vs w =
     w\<lparr>heap := heap w @ vs, approval_queue := approval_queue w @ [length (heap w)..<length (heap w) + length vs]\<rparr>"

definition load_approval_queue :: "env \<Rightarrow> ('s server_scheme, unit) pym" where
  "load_approval_queue env =
     bindM (getM (\<lambda>w. fs w (approvals_path w))) (\<lambda>contents.
     case contents of
       None \<Rightarrow> returnM ()
     | Some s \<Rightarrow>
         (case json_loads (env_float_parse env) s of
            Inl _ \<Rightarrow> returnM ()
          | Inr v \<Rightarrow>
              (case v of
                 PList vs \<Rightarrow> modifyM (enqueue_all vs)
               | _ \<Rightarrow> returnM ())))"

fun find_entry :: "pyval list \<Rightarrow> string \<Rightarrow> nat list \<Rightarrow> nat option result" where
  "find_entry h entry_id [] = Inr None"
| "find_entry h entry_id (a # q) =
     rbind (py_item (h ! a) ''id'') (\<lambda>i.
     if i = PStr entry_id then Inr (Some a) else find_entry h entry_id q)"

definition find_approval_entry :: "string \<Rightarrow> ('s server_scheme, nat option) pym" where
  "find_approval_entry entry_id =
     bindM (getM (\<lambda>w. find_entry (heap w) entry_id (approval_queue w))) (\<lambda>r. liftM r)"

text \<open>\<open>{k: v for k, v in entry.items() if k != "result"}\<close> for every entry.\<close>

definition entry_view :: "pyval \<Rightarrow> pyval result" where
  "entry_view e =
     (case e of
        PDict d \<Rightarrow> Inr (PDict (filter (\<lambda>(k, v). k \<noteq> ''result'') d))
      | v \<Rightarrow> Inl (attr_error v ''items''))"

end
