(* ===== verification/Server.thy ===== *)
theory Server
  imports Approvals Kube
begin

text \<open>
  The request handlers of \<open>src/main.py\<close>: \<open>/webhook\<close>, the approval endpoints, the audit endpoints and
  the small ones, with the helpers they share. A handler returns a response or raises; \<open>serve\<close> is
  the middleware around it and the handler for exceptions no other handler takes.

  What runs under \<open>approval_lock\<close> is one definition (\<open>approve_claim\<close>, \<open>approve_no_executable\<close>,
  \<open>approve_store\<close>, \<open>reject_claim\<close>), so that interleavings of requests can be stated over them.
\<close>

section \<open>Responses\<close>

definition json_response :: "int \<Rightarrow> pydict \<Rightarrow> response" where
  "json_response code content = \<lparr>rs_status = code, rs_content = PDict content, rs_headers = []\<rparr>"

definition detail_response :: "int \<Rightarrow> string \<Rightarrow> response" where
  "detail_response code detail = json_response code [(''detail'', PStr detail)]"

definition ok_response :: "pyval \<Rightarrow> response" where
  "ok_response v = \<lparr>rs_status = 200, rs_content = v, rs_headers = []\<rparr>"

text \<open>\<open>ErrorResponse(detail=..., code=..., errors=...).model_dump()\<close>.\<close>

definition error_response :: "string \<Rightarrow> int \<Rightarrow> pyval \<Rightarrow> response" where
  "error_response detail code errors =
     json_response code [(''detail'', PStr detail), (''code'', PInt code), (''errors'', errors)]"

definition http_exception_handler :: "int \<Rightarrow> string \<Rightarrow> response" where
  "http_exception_handler code detail = error_response detail code PNone"

definition validation_exception_handler :: "pyval \<Rightarrow> response" where
  "validation_exception_handler errors = error_response ''Validation error'' 422 errors"

definition unhandled_exception_handler :: "py_exn \<Rightarrow> response" where
  "unhandled_exception_handler e = error_response ''Internal server error'' 500 PNone"

text \<open>A request through the middleware to its handler.\<close>

definition serve ::
  "env \<Rightarrow> string \<Rightarrow> string option \<Rightarrow> ('s server_scheme, response) pym \<Rightarrow> ('s server_scheme, response) pym" where
  "serve env path api_key handler =
     catchM (dispatch env path api_key handler) (\<lambda>e. returnM (unhandled_exception_handler e))"

section \<open>Writing the audit log\<close>

text \<open>\<open>dict(entry)\<close> with the derived fields.\<close>

definition audit_entry_of :: "string \<Rightarrow> pydict \<Rightarrow> pydict result" where
  "audit_entry_of timestamp entry =
     (let execution = py_or (dget entry ''execution'') (PDict []);
          e1 = AList.update ''timestamp'' (PStr timestamp) entry;
          e2 = (if has_key e1 ''client_ip'' then e1 else AList.update ''client_ip'' PNone e1);
          e3 = AList.update ''execution'' execution e2 in
      rbind (py_get execution ''success'') (\<lambda>success.
      rbind (py_get execution ''error'') (\<lambda>err.
      Inr (AList.update ''error'' err (AList.update ''status'' success e3)))))"

definition write_audit_log :: "env \<Rightarrow> pydict \<Rightarrow> ('s server_scheme, unit) pym" where
  "write_audit_log env entry =
     bindM (time_time env) (\<lambda>now.
     bindM (liftM (audit_entry_of (env_iso_time env now) entry)) (\<lambda>audit_entry.
     bindM (getM chain) (\<lambda>ac.
     bindM (append_entry env ac audit_entry) (\<lambda>finalized.
     ship env finalized))))"

section \<open>Rate limits and cooldowns\<close>

definition rate_check :: "env \<Rightarrow> string \<Rightarrow> pyval \<Rightarrow> ('s server_scheme, rat option) pym" where
  "rate_check env key limit =
     bindM (time_time env) (\<lambda>now.
     (\<lambda>w. case rl_check key limit WINDOW_SECONDS now (limiter w) of (r, rl) \<Rightarrow> (r, w\<lparr>limiter := rl\<rparr>)))"

definition cooldown_remaining :: "env \<Rightarrow> string \<Rightarrow> pyval \<Rightarrow> ('s server_scheme, rat option) pym" where
  "cooldown_remaining env key seconds =
     bindM (time_time env) (\<lambda>now.
     bindM (getM (\<lambda>w. seconds_remaining key seconds now (cooldowns w))) (\<lambda>r. liftM r))"

definition cooldown_record :: "env \<Rightarrow> string \<Rightarrow> ('s server_scheme, unit) pym" where
  "cooldown_record env key =
     bindM (time_time env) (\<lambda>now.
     bindM (time_time env) (\<lambda>now2.
     bindM next_tick (\<lambda>n.
     (\<lambda>w. case cd_record (env_float_repr env) key now now2 (env_save_fault env n) (cooldowns w) (fs w) of
            (r, cd, disk) \<Rightarrow> (r, w\<lparr>cooldowns := cd, fs := disk\<rparr>)))))"

definition cooldown_key_for :: "env \<Rightarrow> pyval \<Rightarrow> string \<Rightarrow> pyval \<Rightarrow> pydict \<Rightarrow> string result" where
  "cooldown_key_for env action_config event_type controller_name params =
     rbind (py_get action_config ''cooldown_key_param'') (\<lambda>dedup_param.
     rbind (if py_truthy dedup_param then py_get_key (PDict params) dedup_param PNone else Inr PNone) (\<lambda>dedup_value.
     Inr (make_key event_type (str_of env controller_name)
            (if dedup_value \<noteq> PNone then Some (str_of env dedup_value) else None))))"

definition cooldown_block_audit_entry ::
  "string \<Rightarrow> pyval \<Rightarrow> pydict \<Rightarrow> pyval \<Rightarrow> pyval \<Rightarrow> pyval \<Rightarrow> pydict" where
  "cooldown_block_audit_entry event_type controller_name params api_key role dry_run =
     [(''user'', api_key), (''role'', role), (''action'', PStr event_type), (''controller'', controller_name),
      (''controller_type'', PNone), (''parameters'', PDict params),
      (''execution'', PDict [(''success'', PBool False), (''error'', PStr ''blocked-by-cooldown'')]),
      (''client_ip'', PNone), (''dry_run'', dry_run), (''blocked_reason'', PStr ''cooldown'')]"

text \<open>Rounding half to even, as \<open>round\<close> and the format \<open>.0f\<close> do with the exact value of a float.\<close>

definition round_half_even :: "rat \<Rightarrow> int" where
  "round_half_even q =
     (let f = \<lfloor>q\<rfloor>; d = q - of_int f in
      if d < 1 / 2 then f else if 1 / 2 < d then f + 1 else if even f then f else f + 1)"

definition round_tenth :: "rat \<Rightarrow> pyval" where
  "round_tenth q = PFloat (of_int (round_half_even (10 * q)) / 10)"

definition cooldown_block_response :: "env \<Rightarrow> string \<Rightarrow> pyval \<Rightarrow> rat \<Rightarrow> response" where
  "cooldown_block_response env event_type controller_name remaining =
     json_response 409
       [(''detail'', PStr (''Action '' @ squoted event_type @ '' on controller ''
           @ squoted (str_of env controller_name) @ '' is in cooldown for ''
           @ int_text (round_half_even remaining) @ '' more second(s)'')),
        (''cooldown_remaining_seconds'', round_tenth remaining)]"

definition rate_limit_block_audit_entry :: "string \<Rightarrow> pyval \<Rightarrow> pyval \<Rightarrow> pyval \<Rightarrow> pydict" where
  "rate_limit_block_audit_entry event_type api_key role params =
     [(''user'', api_key), (''role'', role), (''action'', PStr event_type), (''controller'', PNone),
      (''controller_type'', PNone), (''parameters'', params),
      (''execution'', PDict [(''success'', PBool False), (''error'', PStr ''blocked-by-rate-limit'')]),
      (''client_ip'', PNone), (''dry_run'', PNone), (''blocked_reason'', PStr ''rate_limit'')]"

definition rate_limit_block_response :: "rat \<Rightarrow> response" where
  "rate_limit_block_response retry_after =
     \<lparr>rs_status = 429,
      rs_content = PDict
        [(''detail'', PStr (''Rate limit exceeded, retry in '' @ int_text (round_half_even retry_after) @ '' second(s)'')),
         (''retry_after_seconds'', round_tenth retry_after)],
      rs_headers = [(''Retry-After'', int_text (\<lfloor>retry_after\<rfloor> + 1))]\<rparr>"

section \<open>What \<open>/webhook\<close> and the approval share\<close>

definition NO_EXECUTABLE_ERROR :: string where
  "NO_EXECUTABLE_ERROR = ''No playbook, script, command, or kube_action defined for action''"

definition opt_bool :: "bool option \<Rightarrow> pyval" where
  "opt_bool b = (case b of None \<Rightarrow> PNone | Some x \<Rightarrow> PBool x)"

definition opt_dict :: "pydict option \<Rightarrow> pyval" where
  "opt_dict d = (case d of None \<Rightarrow> PNone | Some x \<Rightarrow> PDict x)"

text \<open>\<open>p = action_config.get("parameters", {}).copy(); p.update(payload.parameters or {})\<close>.\<close>

definition merged_params :: "pyval \<Rightarrow> pydict option \<Rightarrow> pydict result" where
  "merged_params action_config parameters =
     rbind (py_get_or action_config ''parameters'' (PDict [])) (\<lambda>v.
     case v of
       PDict d \<Rightarrow> Inr (alist_merge d (case parameters of None \<Rightarrow> [] | Some ps \<Rightarrow> ps))
     | PList xs \<Rightarrow> Inl (attr_error v ''update'')
     | _ \<Rightarrow> Inl (attr_error v ''copy''))"

definition chosen_controller :: "webhook_payload \<Rightarrow> pyval \<Rightarrow> pyval result" where
  "chosen_controller payload action_config =
     (if opt_true (wp_controller_override payload) then Inr (opt_str (wp_controller_override payload))
      else py_get action_config ''default_controller'')"

text \<open>\<open>not dry_run and cooldown_seconds\<close> guards the check and the record.\<close>

definition cooldown_applies :: "webhook_payload \<Rightarrow> pyval \<Rightarrow> bool" where
  "cooldown_applies payload cooldown_seconds \<longleftrightarrow>
     \<not> py_truthy (opt_bool (wp_dry_run payload)) \<and> py_truthy cooldown_seconds"

definition result_event :: "string \<Rightarrow> pyval \<Rightarrow> pyval \<Rightarrow> exec_result \<Rightarrow> event" where
  "result_event event_type controller_name user r =
     \<lparr>ev_action = event_type, ev_controller = controller_name, ev_user = user,
      ev_status = (if er_success r then ''success'' else ''failure''),
      ev_details = py_or (dget (as_dict r) ''stdout'') (dget (as_dict r) ''error'')\<rparr>"

text \<open>The audit entry, the report and the severity lookup after an execution.\<close>

definition log_and_notify ::
  "env \<Rightarrow> pydict \<Rightarrow> event \<Rightarrow> pyval \<Rightarrow> ('s server_scheme, unit) pym" where
  "log_and_notify env audit_entry ev action_config =
     bindM (write_audit_log env audit_entry) (\<lambda>_.
     bindM (liftM (py_get action_config ''severity'')) (\<lambda>severity.
     bindM (notify env ev severity None) (\<lambda>_. returnM ())))"

section \<open>The webhook\<close>

text \<open>Reading the body: the JSON value with the validated payload, or the response that refuses it.\<close>

definition parse_payload :: "env \<Rightarrow> string \<Rightarrow> response + pydict \<times> webhook_payload" where
  "parse_payload env body =
     (case json_loads (env_float_parse env) body of
        Inr (PDict raw) \<Rightarrow>
          (case env_payload env raw of
             Inr payload \<Rightarrow> Inr (raw, payload)
           | Inl errors \<Rightarrow>
               Inl (json_response 400 [(''detail'', PStr ''Invalid payload''), (''errors'', errors)]))
      | _ \<Rightarrow> Inl (detail_response 400 ''Malformed JSON payload''))"

definition queue_for_approval ::
  "env \<Rightarrow> pydict \<Rightarrow> pyval \<Rightarrow> pyval \<Rightarrow> pyval \<Rightarrow> ('s server_scheme, response) pym" where
  "queue_for_approval env raw_payload api_key role controller_name =
     bindM next_tick (\<lambda>n.
     let entry_id = env_uuid env n;
         approval_entry = PDict
           [(''id'', PStr entry_id), (''payload'', PDict raw_payload), (''status'', PStr ''pending''),
            (''result'', PNone), (''requested_by'', api_key), (''role'', role), (''controller'', controller_name)] in
     bindM (modifyM (enqueue_all [approval_entry])) (\<lambda>_.
     bindM (save_approval_queue env) (\<lambda>_.
     returnM (ok_response (PDict
       [(''approval_id'', PStr entry_id), (''status'', PStr ''pending''),
        (''detail'', PStr ''Action requires approval before execution.'')])))))"

text \<open>From the cooldown check to the response.\<close>

definition webhook_execute ::
  "env \<Rightarrow> webhook_payload \<Rightarrow> pyval \<Rightarrow> pyval \<Rightarrow> pyval \<Rightarrow> pyval \<Rightarrow> pyval \<Rightarrow> pyval \<Rightarrow> pydict
     \<Rightarrow> ('s server_scheme, response) pym" where
  "webhook_execute env payload api_key role client_ip action_config controller_name controller_config params =
     (let event_type = wp_event_type payload; dry_run = opt_bool (wp_dry_run payload) in
     bindM (liftM (py_get_or action_config ''cooldown_seconds'' (PInt 0))) (\<lambda>cooldown_seconds.
     bindM (liftM (cooldown_key_for env action_config event_type controller_name params)) (\<lambda>cd_key.
     bindM (if cooldown_applies payload cooldown_seconds
            then cooldown_remaining env cd_key cooldown_seconds else returnM None) (\<lambda>remaining.
     case remaining of
       Some rest \<Rightarrow>
         bindM (write_audit_log env
           (cooldown_block_audit_entry event_type controller_name params api_key role dry_run)) (\<lambda>_.
         returnM (cooldown_block_response env event_type controller_name rest))
     | None \<Rightarrow>
         bindM (execute_action env action_config controller_config params (py_truthy dry_run)) (\<lambda>exec.
         case exec of
           None \<Rightarrow> returnM (detail_response 400 NO_EXECUTABLE_ERROR)
         | Some r \<Rightarrow>
             bindM (if cooldown_applies payload cooldown_seconds then cooldown_record env cd_key else returnM ()) (\<lambda>_.
             bindM (liftM (py_get controller_config ''type'')) (\<lambda>controller_type.
             bindM (log_and_notify env
               [(''user'', api_key), (''role'', role), (''action'', PStr event_type), (''controller'', controller_name),
                (''controller_type'', controller_type), (''parameters'', PDict params),
                (''execution'', PDict (as_dict r)), (''client_ip'', client_ip), (''dry_run'', dry_run)]
               (result_event event_type controller_name api_key r) action_config) (\<lambda>_.
             returnM (ok_response (PDict
               [(''action'', PStr event_type), (''controller'', controller_name), (''parameters'', PDict params),
                (''role'', role), (''controller_type'', controller_type), (''execution'', PDict (as_dict r)),
                (''dry_run'', dry_run)]))))))))))"

text \<open>The gates in front of it: role, key, controller override, controller.\<close>

definition webhook_authorize ::
  "env \<Rightarrow> webhook_payload \<Rightarrow> pyval \<Rightarrow> pyval \<Rightarrow> pyval \<Rightarrow> ('s server_scheme, response + pyval \<times> pyval) pym" where
  "webhook_authorize env payload api_key role action_config =
     (let event_type = wp_event_type payload in
     bindM (has_permission env role ''execute_actions'') (\<lambda>may_execute.
     if \<not> py_truthy may_execute then
       returnM (Inl (detail_response 403 ''Executing actions is not permitted for your role''))
     else
       bindM (is_action_allowed_for_key env api_key (PStr event_type)) (\<lambda>action_ok.
       if \<not> action_ok then
         returnM (Inl (detail_response 403 (''Action '' @ squoted event_type @ '' is not permitted for your API key'')))
       else
         bindM (liftM (chosen_controller payload action_config)) (\<lambda>controller_name.
         bindM (if opt_true (wp_controller_override payload) then has_permission env role ''controller_override''
                else returnM (PBool True)) (\<lambda>may_override.
         if \<not> py_truthy may_override then
           returnM (Inl (detail_response 403 ''Controller override not permitted for your role''))
         else
           bindM (get_controller_config env controller_name) (\<lambda>controller_config.
           if \<not> py_truthy controller_config then returnM (Inl (detail_response 400 ''Unknown controller''))
           else
             bindM (is_controller_allowed_for_key env api_key controller_name) (\<lambda>controller_ok.
             if \<not> controller_ok then
               returnM (Inl (detail_response 403
                 (''Controller '' @ squoted (str_of env controller_name) @ '' is not permitted for your API key'')))
             else returnM (Inr (controller_name, controller_config)))))))))"

text \<open>A rate limit: allowed, or the refusal after its audit entry.\<close>

definition rate_gate ::
  "env \<Rightarrow> string \<Rightarrow> pyval result \<Rightarrow> webhook_payload \<Rightarrow> pyval \<Rightarrow> pyval \<Rightarrow> ('s server_scheme, response option) pym" where
  "rate_gate env key limit payload api_key role =
     bindM (liftM limit) (\<lambda>l.
     bindM (rate_check env key l) (\<lambda>retry_after.
     case retry_after of
       None \<Rightarrow> returnM None
     | Some s \<Rightarrow>
         bindM (write_audit_log env
           (rate_limit_block_audit_entry (wp_event_type payload) api_key role (opt_dict (wp_parameters payload)))) (\<lambda>_.
         returnM (Some (rate_limit_block_response s)))))"

definition webhook ::
  "env \<Rightarrow> string \<Rightarrow> pyval \<Rightarrow> pyval \<Rightarrow> ('s server_scheme, response) pym" where
  "webhook env body api_key client_ip =
     (case parse_payload env body of
        Inl refusal \<Rightarrow> returnM refusal
      | Inr (raw_payload, payload) \<Rightarrow>
          (let event_type = wp_event_type payload in
          bindM (get_role_from_api_key env api_key) (\<lambda>role.
          bindM (getM limiter) (\<lambda>rl.
          bindM (rate_gate env (''caller:'' @ str_of env api_key) (limit_for_role rl role) payload api_key role)
            (\<lambda>caller_refused.
          case caller_refused of
            Some refusal \<Rightarrow> returnM refusal
          | None \<Rightarrow>
              bindM (getM merged_actions) (\<lambda>merged.
              bindM (get_action_config env merged (PStr event_type)) (\<lambda>action_config.
              if \<not> py_truthy action_config then returnM (detail_response 400 ''Unknown action/event_type'')
              else
                bindM (getM limiter) (\<lambda>rl2.
                bindM (rate_gate env (''action:'' @ event_type) (limit_for_action rl2 event_type) payload api_key role)
                  (\<lambda>action_refused.
                case action_refused of
                  Some refusal \<Rightarrow> returnM refusal
                | None \<Rightarrow>
                    bindM (webhook_authorize env payload api_key role action_config) (\<lambda>authorized.
                    case authorized of
                      Inl refusal \<Rightarrow> returnM refusal
                    | Inr (controller_name, controller_config) \<Rightarrow>
                        bindM (liftM (merged_params action_config (wp_parameters payload))) (\<lambda>params.
                        if py_truthy (opt_bool (wp_approval_required payload)) then
                          queue_for_approval env raw_payload api_key role controller_name
                        else
                          webhook_execute env payload api_key role client_ip action_config controller_name
                            controller_config params)))))))))))"

section \<open>Approvals\<close>

definition list_approvals :: "env \<Rightarrow> pyval \<Rightarrow> ('s server_scheme, response) pym" where
  "list_approvals env api_key =
     bindM (get_role_from_api_key env api_key) (\<lambda>role.
     bindM (has_permission env role ''approvals_read'') (\<lambda>may_read.
     if \<not> py_truthy may_read then returnM (detail_response 403 ''Forbidden'')
     else
       bindM (getM (\<lambda>w. rmap entry_view (queue_values w))) (\<lambda>views.
       bindM (liftM views) (\<lambda>vs. returnM (ok_response (PList vs))))))"

text \<open>What an approval carries from under the lock to its execution.\<close>

record claim =
  cl_entry :: nat
  cl_payload :: webhook_payload
  cl_action_config :: pyval
  cl_controller_name :: pyval
  cl_controller_config :: pyval
  cl_params :: pydict
  cl_cooldown_seconds :: pyval
  cl_key :: string

text \<open>\<open>WebhookPayload(**entry["payload"])\<close>.\<close>

definition stored_payload :: "env \<Rightarrow> pyval \<Rightarrow> webhook_payload result" where
  "stored_payload env v =
     (case v of
        PDict d \<Rightarrow>
          (case env_payload env d of
             Inr payload \<Rightarrow> Inr payload
           | Inl errors \<Rightarrow> Inl (ValueError ''validation error for WebhookPayload''))
      | u \<Rightarrow> Inl (TypeError (''argument after ** must be a mapping, not '' @ py_type_name u)))"

text \<open>\<open>a() or b() or c()\<close> of the three negated checks, in order, none after the first that decides.\<close>

definition requester_allowed ::
  "env \<Rightarrow> pyval \<Rightarrow> pyval \<Rightarrow> string \<Rightarrow> pyval \<Rightarrow> ('s server_scheme, bool) pym" where
  "requester_allowed env requester_key requester_role event_type controller_name =
     bindM (has_permission env requester_role ''execute_actions'') (\<lambda>p.
     if \<not> py_truthy p then returnM False
     else
       bindM (is_action_allowed_for_key env requester_key (PStr event_type)) (\<lambda>a.
       if \<not> a then returnM False
       else is_controller_allowed_for_key env requester_key controller_name))"

definition REASON_NOT_PERMITTED :: string where
  "REASON_NOT_PERMITTED = ''Requester is no longer permitted to execute this action/controller''"

text \<open>
  How an approval and a rejection begin under the lock: the entry with this id, which must be pending
  and requested by another key.
\<close>

definition pending_entry ::
  "env \<Rightarrow> string \<Rightarrow> string \<Rightarrow> pyval \<Rightarrow> ('s server_scheme, response + nat) pym" where
  "pending_entry env verb approval_id api_key =
     bindM (find_approval_entry approval_id) (\<lambda>found.
     case found of
       None \<Rightarrow> returnM (Inl (detail_response 404 ''Approval not found''))
     | Some a \<Rightarrow>
         bindM (entry_field a ''status'') (\<lambda>status.
         if status \<noteq> PStr ''pending'' then returnM (Inl (detail_response 400 (''Already '' @ str_of env status)))
         else
           bindM (entry_field a ''requested_by'') (\<lambda>requester_key.
           if requester_key = api_key then
             returnM (Inl (detail_response 403 (''You cannot '' @ verb @ '' your own request'')))
           else returnM (Inr a))))"

text \<open>
  What the block of an approval finds: a response that ends the request, a requester that has lost
  the permission, or a claim.
\<close>

datatype decision = Refuse response | Deny nat | Grant claim

definition approve_decide ::
  "env \<Rightarrow> string \<Rightarrow> pyval \<Rightarrow> pyval \<Rightarrow> ('s server_scheme, decision) pym" where
  "approve_decide env approval_id api_key approver_role =
     bindM (pending_entry env ''approve'' approval_id api_key) (\<lambda>entry.
     case entry of
       Inl refusal \<Rightarrow> returnM (Refuse refusal)
     | Inr a \<Rightarrow>
         bindM (entry_field a ''payload'') (\<lambda>raw.
         bindM (liftM (stored_payload env raw)) (\<lambda>payload.
         let event_type = wp_event_type payload; dry_run = opt_bool (wp_dry_run payload) in
         bindM (getM merged_actions) (\<lambda>merged.
         bindM (get_action_config env merged (PStr event_type)) (\<lambda>action_config.
         bindM (liftM (chosen_controller payload action_config)) (\<lambda>controller_name.
         bindM (get_controller_config env controller_name) (\<lambda>controller_config.
         bindM (entry_field a ''requested_by'') (\<lambda>requester_key.
         bindM (entry_field a ''role'') (\<lambda>requester_role.
         bindM (requester_allowed env requester_key requester_role event_type controller_name) (\<lambda>allowed.
         if \<not> allowed then returnM (Deny a)
         else
           bindM (liftM (merged_params action_config (wp_parameters payload))) (\<lambda>params.
           bindM (liftM (py_get_or action_config ''cooldown_seconds'' (PInt 0))) (\<lambda>cooldown_seconds.
           bindM (liftM (cooldown_key_for env action_config event_type controller_name params)) (\<lambda>cd_key.
           bindM (if cooldown_applies payload cooldown_seconds
                  then cooldown_remaining env cd_key cooldown_seconds else returnM None) (\<lambda>remaining.
           case remaining of
             Some rest \<Rightarrow>
               bindM (write_audit_log env
                 (cooldown_block_audit_entry event_type controller_name params api_key approver_role dry_run)) (\<lambda>_.
               returnM (Refuse (cooldown_block_response env event_type controller_name rest)))
           | None \<Rightarrow>
               returnM (Grant \<lparr>cl_entry = a, cl_payload = payload, cl_action_config = action_config,
                 cl_controller_name = controller_name, cl_controller_config = controller_config,
                 cl_params = params, cl_cooldown_seconds = cooldown_seconds, cl_key = cd_key\<rparr>)))))))))))))))"

text \<open>The first block under the lock: the response that ends the request, or the claimed entry.\<close>

definition approve_claim ::
  "env \<Rightarrow> string \<Rightarrow> pyval \<Rightarrow> pyval \<Rightarrow> ('s server_scheme, response + claim) pym" where
  "approve_claim env approval_id api_key approver_role =
     bindM (approve_decide env approval_id api_key approver_role) (\<lambda>d.
     case d of
       Refuse refusal \<Rightarrow> returnM (Inl refusal)
     | Deny a \<Rightarrow>
         bindM (set_field a ''status'' (PStr ''rejected'')) (\<lambda>_.
         bindM (set_field a ''result'' (PDict [(''error'', PStr REASON_NOT_PERMITTED)])) (\<lambda>_.
         bindM (save_approval_queue env) (\<lambda>_.
         returnM (Inl (detail_response 403 REASON_NOT_PERMITTED)))))
     | Grant c \<Rightarrow>
         bindM (set_field (cl_entry c) ''status'' (PStr ''approved'')) (\<lambda>_.
         bindM (set_field (cl_entry c) ''approved_by'' api_key) (\<lambda>_.
         bindM (set_field (cl_entry c) ''approver_role'' approver_role) (\<lambda>_.
         bindM (save_approval_queue env) (\<lambda>_.
         returnM (Inr c))))))"

text \<open>Outside the lock.\<close>

definition approve_execute :: "env \<Rightarrow> claim \<Rightarrow> ('s server_scheme, exec_result option) pym" where
  "approve_execute env c =
     execute_action env (cl_action_config c) (cl_controller_config c) (cl_params c)
       (py_truthy (opt_bool (wp_dry_run (cl_payload c))))"

definition approve_no_executable :: "env \<Rightarrow> claim \<Rightarrow> ('s server_scheme, response) pym" where
  "approve_no_executable env c =
     bindM (set_field (cl_entry c) ''status'' (PStr ''rejected'')) (\<lambda>_.
     bindM (set_field (cl_entry c) ''result'' (PDict [(''error'', PStr NO_EXECUTABLE_ERROR)])) (\<lambda>_.
     bindM (save_approval_queue env) (\<lambda>_.
     returnM (detail_response 400 NO_EXECUTABLE_ERROR))))"

definition approve_store :: "env \<Rightarrow> claim \<Rightarrow> exec_result \<Rightarrow> ('s server_scheme, unit) pym" where
  "approve_store env c r =
     bindM (set_field (cl_entry c) ''result'' (PDict (as_dict r))) (\<lambda>_. save_approval_queue env)"

definition approve_report ::
  "env \<Rightarrow> string \<Rightarrow> pyval \<Rightarrow> pyval \<Rightarrow> claim \<Rightarrow> exec_result \<Rightarrow> ('s server_scheme, response) pym" where
  "approve_report env approval_id api_key approver_role c r =
     bindM (entry_field (cl_entry c) ''requested_by'') (\<lambda>requested_by.
     bindM (entry_field (cl_entry c) ''role'') (\<lambda>role.
     bindM (liftM (py_get (cl_controller_config c) ''type'')) (\<lambda>controller_type.
     bindM (log_and_notify env
       [(''user'', requested_by), (''role'', role), (''action'', PStr (wp_event_type (cl_payload c))),
        (''controller'', cl_controller_name c), (''controller_type'', controller_type),
        (''parameters'', PDict (cl_params c)), (''execution'', PDict (as_dict r)), (''client_ip'', PNone),
        (''dry_run'', opt_bool (wp_dry_run (cl_payload c))), (''approval_id'', PStr approval_id),
        (''approval_status'', PStr ''approved''), (''approved_by'', api_key), (''approver_role'', approver_role)]
       (result_event (wp_event_type (cl_payload c)) (cl_controller_name c) requested_by r)
       (cl_action_config c)) (\<lambda>_.
     returnM (ok_response (PDict [(''status'', PStr ''approved''), (''result'', PDict (as_dict r))]))))))"

definition approve_run ::
  "env \<Rightarrow> string \<Rightarrow> pyval \<Rightarrow> pyval \<Rightarrow> claim \<Rightarrow> ('s server_scheme, response) pym" where
  "approve_run env approval_id api_key approver_role c =
     bindM (approve_execute env c) (\<lambda>exec.
     case exec of
       None \<Rightarrow> approve_no_executable env c
     | Some r \<Rightarrow>
         bindM (if cooldown_applies (cl_payload c) (cl_cooldown_seconds c) then cooldown_record env (cl_key c)
                else returnM ()) (\<lambda>_.
         bindM (approve_store env c r) (\<lambda>_.
         approve_report env approval_id api_key approver_role c r)))"

definition approve_approval :: "env \<Rightarrow> string \<Rightarrow> pyval \<Rightarrow> ('s server_scheme, response) pym" where
  "approve_approval env approval_id api_key =
     bindM (get_role_from_api_key env api_key) (\<lambda>approver_role.
     bindM (has_permission env approver_role ''approve_actions'') (\<lambda>may_approve.
     if \<not> py_truthy may_approve then
       returnM (detail_response 403 ''Approving actions is not permitted for your role'')
     else
       bindM (approve_claim env approval_id api_key approver_role) (\<lambda>claimed.
       case claimed of
         Inl refusal \<Rightarrow> returnM refusal
       | Inr c \<Rightarrow> approve_run env approval_id api_key approver_role c)))"

text \<open>The block of a rejection under the lock: the response that ends the request, or the entry.\<close>

definition reject_claim ::
  "env \<Rightarrow> string \<Rightarrow> pyval \<Rightarrow> pyval \<Rightarrow> ('s server_scheme, response + nat) pym" where
  "reject_claim env approval_id api_key approver_role =
     bindM (pending_entry env ''reject'' approval_id api_key) (\<lambda>entry.
     case entry of
       Inl refusal \<Rightarrow> returnM (Inl refusal)
     | Inr a \<Rightarrow>
         bindM (set_field a ''status'' (PStr ''rejected'')) (\<lambda>_.
         bindM (set_field a ''result'' (PDict [(''error'', PStr ''Rejected by approver'')])) (\<lambda>_.
         bindM (set_field a ''approved_by'' api_key) (\<lambda>_.
         bindM (set_field a ''approver_role'' approver_role) (\<lambda>_.
         bindM (save_approval_queue env) (\<lambda>_.
         returnM (Inr a)))))))"

definition reject_approval :: "env \<Rightarrow> string \<Rightarrow> pyval \<Rightarrow> ('s server_scheme, response) pym" where
  "reject_approval env approval_id api_key =
     bindM (get_role_from_api_key env api_key) (\<lambda>approver_role.
     bindM (has_permission env approver_role ''approve_actions'') (\<lambda>may_approve.
     if \<not> py_truthy may_approve then
       returnM (detail_response 403 ''Rejecting actions is not permitted for your role'')
     else
       bindM (reject_claim env approval_id api_key approver_role) (\<lambda>claimed.
       case claimed of
         Inl refusal \<Rightarrow> returnM refusal
       | Inr a \<Rightarrow>
           bindM (entry_field a ''requested_by'') (\<lambda>requested_by.
           bindM (entry_field a ''role'') (\<lambda>role.
           bindM (entry_field a ''payload'') (\<lambda>payload.
           bindM (liftM (py_get payload ''event_type'')) (\<lambda>event_type.
           bindM (entry_field a ''controller'') (\<lambda>controller.
           bindM (liftM (py_get payload ''parameters'')) (\<lambda>parameters.
           bindM (liftM (py_get_or payload ''dry_run'' (PBool False))) (\<lambda>dry_run.
           bindM (write_audit_log env
             [(''user'', requested_by), (''role'', role), (''action'', event_type), (''controller'', controller),
              (''controller_type'', PNone), (''parameters'', parameters),
              (''execution'', PDict [(''success'', PBool False), (''error'', PStr ''Rejected by approver'')]),
              (''client_ip'', PNone), (''dry_run'', dry_run), (''approval_id'', PStr approval_id),
              (''approval_status'', PStr ''rejected''), (''approved_by'', api_key), (''approver_role'', approver_role)]) (\<lambda>_.
           returnM (json_response 200 [(''status'', PStr ''rejected'')]))))))))))))"

section \<open>The audit endpoints\<close>

record audit_query =
  aq_start :: "string option"
  aq_end :: "string option"
  aq_action :: "string option"
  aq_user :: "string option"
  aq_role :: "string option"
  aq_controller :: "string option"
  aq_limit :: int

text \<open>\<open>a < b\<close> for strings.\<close>

fun str_less :: "string \<Rightarrow> string \<Rightarrow> bool" where
  "str_less [] [] = False"
| "str_less [] (y # ys) = True"
| "str_less (x # xs) [] = False"
| "str_less (x # xs) (y # ys) =
     (if x = y then str_less xs ys else (of_char x :: nat) < of_char y)"

definition text_of :: "pyval \<Rightarrow> string result" where
  "text_of v =
     (case v of PStr s \<Rightarrow> Inr s | u \<Rightarrow> Inl (TypeError (''< not supported between '' @ py_type_name u @ '' and str'')))"

text \<open>\<open>wanted and entry.get(k) != wanted\<close>.\<close>

definition field_differs :: "pyval \<Rightarrow> string \<Rightarrow> string option \<Rightarrow> bool result" where
  "field_differs entry k wanted =
     (if opt_true wanted then rbind (py_get entry k) (\<lambda>v. Inr (v \<noteq> opt_str wanted)) else Inr False)"

definition outside_dates :: "pyval \<Rightarrow> audit_query \<Rightarrow> bool result" where
  "outside_dates entry q =
     (if opt_true (aq_start q) \<or> opt_true (aq_end q) then
        rbind (py_get entry ''timestamp'') (\<lambda>ts.
        if \<not> py_truthy ts then Inr False
        else
          rbind (if opt_true (aq_start q) then rbind (text_of ts) (\<lambda>t. Inr (str_less t (the (aq_start q)))) else Inr False)
            (\<lambda>too_early.
          if too_early then Inr True
          else if opt_true (aq_end q) then rbind (text_of ts) (\<lambda>t. Inr (str_less (the (aq_end q)) t))
          else Inr False))
      else Inr False)"

definition filter_audit_entry :: "pyval \<Rightarrow> audit_query \<Rightarrow> bool result" where
  "filter_audit_entry entry q =
     rbind (outside_dates entry q) (\<lambda>outside.
     if outside then Inr False
     else rbind (field_differs entry ''action'' (aq_action q)) (\<lambda>d1.
       if d1 then Inr False
       else rbind (field_differs entry ''user'' (aq_user q)) (\<lambda>d2.
         if d2 then Inr False
         else rbind (field_differs entry ''role'' (aq_role q)) (\<lambda>d3.
           if d3 then Inr False
           else rbind (field_differs entry ''controller'' (aq_controller q)) (\<lambda>d4. Inr (\<not> d4))))))"

text \<open>
  The loop over the lines, last line first; a line that does not parse or cannot be compared is
  skipped, and the limit is looked at after a match.
\<close>

fun audit_scan :: "env \<Rightarrow> audit_query \<Rightarrow> string list \<Rightarrow> pyval list \<Rightarrow> pyval list" where
  "audit_scan env q [] results = results"
| "audit_scan env q (line # lines) results =
     (case rbind (json_loads (env_float_parse env) line)
             (\<lambda>entry. rbind (filter_audit_entry entry q) (\<lambda>ok. Inr (entry, ok))) of
        Inl _ \<Rightarrow> audit_scan env q lines results
      | Inr (entry, ok) \<Rightarrow>
          if \<not> ok then audit_scan env q lines results
          else if aq_limit q \<le> int (length results) + 1 then results @ [entry]
          else audit_scan env q lines (results @ [entry]))"

definition get_audit :: "env \<Rightarrow> pyval \<Rightarrow> audit_query \<Rightarrow> ('s server_scheme, response) pym" where
  "get_audit env api_key q =
     bindM (get_role_from_api_key env api_key) (\<lambda>role.
     bindM (has_permission env role ''audit_read'') (\<lambda>may_read.
     if \<not> py_truthy may_read then returnM (detail_response 403 ''Forbidden'')
     else
       bindM (getM (\<lambda>w. fs w (ac_path (chain w)))) (\<lambda>contents.
       returnM (ok_response (PList
         (case contents of None \<Rightarrow> [] | Some s \<Rightarrow> audit_scan env q (rev (text_lines s)) []))))))"

definition verify_report :: "verify_result \<Rightarrow> pydict" where
  "verify_report r =
     [(''ok'', PBool (vr_ok r)), (''entries_checked'', PInt (int (vr_entries_checked r))),
      (''legacy_entries'', PInt (int (vr_legacy_entries r))),
      (''segment_boundaries'', PList (map (\<lambda>n. PInt (int n)) (vr_segment_boundaries r))),
      (''first_broken_line'', case vr_first_broken_line r of None \<Rightarrow> PNone | Some n \<Rightarrow> PInt (int n)),
      (''detail'', opt_str (vr_detail r))]"

definition get_audit_verify :: "env \<Rightarrow> pyval \<Rightarrow> ('s server_scheme, response) pym" where
  "get_audit_verify env api_key =
     bindM (get_role_from_api_key env api_key) (\<lambda>role.
     bindM (has_permission env role ''audit_read'') (\<lambda>may_read.
     if \<not> py_truthy may_read then returnM (detail_response 403 ''Forbidden'')
     else
       bindM (getM (\<lambda>w. fs w (ac_path (chain w)))) (\<lambda>contents.
       bindM (liftM (verify_chain env contents)) (\<lambda>r. returnM (ok_response (PDict (verify_report r)))))))"

section \<open>Small endpoints and start-up\<close>

definition can_override_controller :: "env \<Rightarrow> pyval \<Rightarrow> ('s server_scheme, response) pym" where
  "can_override_controller env api_key =
     bindM (get_role_from_api_key env api_key) (\<lambda>role.
     bindM (has_permission env role ''controller_override'') (\<lambda>allowed.
     returnM (if py_truthy allowed then ok_response (PDict [(''allowed'', PBool True), (''role'', role)])
       else json_response 403 [(''allowed'', PBool False), (''role'', role), (''detail'', PStr ''Forbidden'')])))"

text \<open>\<open>os.getenv("API_VERSION", "0.1.0")\<close> is the argument.\<close>

definition probe_response :: "string \<Rightarrow> string option \<Rightarrow> response" where
  "probe_response status api_version =
     ok_response (PDict [(''status'', PStr status),
       (''version'', PStr (case api_version of None \<Rightarrow> ''0.1.0'' | Some v \<Rightarrow> v))])"

definition protected_response :: response where
  "protected_response = ok_response (PDict [(''message'', PStr ''You have accessed a protected endpoint!'')])"

text \<open>The \<open>lifespan\<close> handler on the two directory listings.\<close>

definition lifespan :: "env \<Rightarrow> string list \<Rightarrow> string list \<Rightarrow> ('s server_scheme, unit) pym" where
  "lifespan env playbooks scripts =
     bindM (load_actions_config env) (\<lambda>config.
     bindM (liftM (merge_actions (discover_actions playbooks scripts) config)) (\<lambda>merged.
     bindM (modifyM (\<lambda>w. w\<lparr>merged_actions := Some merged\<rparr>)) (\<lambda>_.
     load_approval_queue env)))"

section \<open>Routing\<close>

text \<open>
  The decorated endpoints with what their request carries besides the key: a body and the address of
  the client, an approval id, query parameters.
\<close>

datatype request =
    Health
  | Live
  | Ready
  | Protected
  | CanOverrideController
  | Webhook string pyval
  | ListApprovals
  | ApproveApproval string
  | RejectApproval string
  | GetAudit audit_query
  | GetAuditVerify

fun request_path :: "request \<Rightarrow> string" where
  "request_path Health = ''/health''"
| "request_path Live = ''/live''"
| "request_path Ready = ''/ready''"
| "request_path Protected = ''/protected''"
| "request_path CanOverrideController = ''/can-override-controller''"
| "request_path (Webhook _ _) = ''/webhook''"
| "request_path ListApprovals = ''/approvals''"
| "request_path (ApproveApproval i) = ''/approvals/'' @ i @ ''/approve''"
| "request_path (RejectApproval i) = ''/approvals/'' @ i @ ''/reject''"
| "request_path (GetAudit _) = ''/audit''"
| "request_path GetAuditVerify = ''/audit/verify''"

fun handle :: "env \<Rightarrow> string option \<Rightarrow> request \<Rightarrow> pyval \<Rightarrow> ('s server_scheme, response) pym" where
  "handle env version Health key = returnM (probe_response ''ok'' version)"
| "handle env version Live key = returnM (probe_response ''live'' version)"
| "handle env version Ready key = returnM (probe_response ''ready'' version)"
| "handle env version Protected key = returnM protected_response"
| "handle env version CanOverrideController key = can_override_controller env key"
| "handle env version (Webhook body client_ip) key = webhook env body key client_ip"
| "handle env version ListApprovals key = list_approvals env key"
| "handle env version (ApproveApproval i) key = approve_approval env i key"
| "handle env version (RejectApproval i) key = reject_approval env i key"
| "handle env version (GetAudit q) key = get_audit env key q"
| "handle env version GetAuditVerify key = get_audit_verify env key"

definition answer :: "env \<Rightarrow> string option \<Rightarrow> request \<Rightarrow> string option \<Rightarrow> ('s server_scheme, response) pym" where
  "answer env version req api_key = serve env (request_path req) api_key (handle env version req (opt_str api_key))"

end
