(* ===== verification/NotifyProps.thy ===== *)
theory NotifyProps
  imports Notify Cooldown ExecProps ShipProps
begin

text \<open>
  Properties of the notification sender: how often an event is reported, which channels are
  contacted, in which order a mail is sent, and when \<open>notify\<close> can raise.
\<close>

section \<open>Deduplication\<close>

text \<open>
  The deduplication is a cooldown store with one window for every key: the interface of
  \<open>Cooldown\<close> applies to it.
\<close>

definition dedup_remaining :: "string \<Rightarrow> rat \<Rightarrow> rat \<Rightarrow> notification_sender \<Rightarrow> rat option" where
  "dedup_remaining key window now s =
     (case dedup_seen s key of
        None \<Rightarrow> None
      | Some last_sent \<Rightarrow> if now - last_sent < window then Some (last_sent + window - now) else None)"

definition dedup_mark :: "string \<Rightarrow> rat \<Rightarrow> notification_sender \<Rightarrow> notification_sender" where
  "dedup_mark key now s = s\<lparr>dedup_seen := (dedup_seen s)(key \<mapsto> now)\<rparr>"

interpretation dedup: cooldown_store dedup_remaining dedup_mark "\<lambda>s. True" cap for cap
  by unfold_locales (auto simp: dedup_remaining_def dedup_mark_def)

lemma dedup_check_store:
  assumes "py_num (dedup_window_seconds s) = Some window"
  shows "dedup_check key now s =
    (if dedup_remaining key window now s = None then (Inr False, dedup_mark key now s) else (Inr True, s))"
  using assms by (auto simp: dedup_check_def dedup_remaining_def dedup_mark_def num_or_raise_def split: option.split)

text \<open>Reports of (key, time) checked one after the other; the second component collects those sent.\<close>

definition report :: "string \<times> rat \<Rightarrow> notification_sender \<times> (string \<times> rat) list
    \<Rightarrow> notification_sender \<times> (string \<times> rat) list" where
  "report e st =
     (case (e, st) of ((key, now), (s, sent)) \<Rightarrow>
        (case dedup_check key now s of (r, s') \<Rightarrow> (s', if r = Inr False then sent @ [(key, now)] else sent)))"

lemma report_window: "dedup_window_seconds (fst (report e st)) = dedup_window_seconds (fst st)"
  by (auto simp: report_def dedup_check_def split: prod.splits option.splits sum.splits)

lemma report_attempt:
  assumes "py_num (dedup_window_seconds s) = Some window"
  shows "report (k, t) (s, sent) = dedup.attempt (k, window, t, t) (s, sent)"
  by (simp add: report_def dedup.attempt_def dedup_check_store [OF assms] split: if_split)

lemma report_run:
  assumes "py_num (dedup_window_seconds (fst st)) = Some window"
  shows "fold report es st = fold dedup.attempt (map (\<lambda>(k, t). (k, window, t, t)) es) st"
  using assms
proof (induction es arbitrary: st)
  case (Cons e es)
  obtain s sent where st: "st = (s, sent)" by (cases st)
  obtain k t where e: "e = (k, t)" by (cases e)
  have "py_num (dedup_window_seconds (fst (report e st))) = Some window" using Cons.prems by (simp add: report_window)
  from Cons.IH [OF this] show ?case
    using report_attempt [of s window k t sent] Cons.prems by (simp add: st e)
qed simp

lemma timely_reports:
  "sorted (now # map snd es) \<Longrightarrow> timely now (map (\<lambda>(k, t). (k, window, t, t)) es)"
  by (induction es arbitrary: now) auto

text \<open>
  C39. No notification storm: with a positive deduplication window, whatever reports arrive in
  whatever order of keys, those of one key that are sent are at least the window apart.
\<close>

theorem reports_are_spaced:
  assumes "py_num (dedup_window_seconds s) = Some window" "0 < window" "sorted (map snd es)"
  shows "sorted_wrt (\<lambda>t u. t + window \<le> u) (map snd (filter (\<lambda>(k', t). k' = k) (snd (fold report es (s, [])))))"
proof -
  define now where "now = (case es of [] \<Rightarrow> 0 | e # _ \<Rightarrow> snd e)"
  have t: "timely now (map (\<lambda>(k, t). (k, window, t, t)) es)"
    using assms(3) by (intro timely_reports) (cases es; auto simp: now_def)
  have g: "dedup.guarded k window now (s, [])"
    by (simp add: dedup.guarded_def dedup.runs_of_def dedup.spaced_def)
  have "dedup.spaced window (dedup.runs_of k (snd (fold dedup.attempt (map (\<lambda>(k, t). (k, window, t, t)) es) (s, []))))"
    using assms(2) t by (intro dedup.guarded_run [OF g, of window]) auto
  then show ?thesis
    using report_run [of "(s, [])" window es] assms(1) by (simp add: dedup.spaced_def dedup.runs_of_def)
qed

text \<open>An example sender: everything off but the mail and the pager.\<close>

definition example_sender :: notification_sender where
  "example_sender =
     \<lparr>slack_enabled = PBool False, slack_url = PNone, slack_channel = PNone, slack_username = PStr ''AutoHealerBot'',
      slack_notify_on = both_statuses, teams_enabled = PBool False, teams_url = PNone, teams_channel = PNone,
      teams_notify_on = both_statuses, email_enabled = PBool True, email_smtp_host = PStr ''smtp.example.com'',
      email_smtp_port = PInt 587, email_use_tls = PBool True, email_username = PStr ''u'', email_password = PStr ''p'',
      email_from = PNone, email_to = PList [PStr ''oncall@example.com''], email_notify_on = both_statuses,
      pagerduty_enabled = PBool True, pagerduty_routing_key = PStr ''key'',
      pagerduty_notify_on = PList [PStr ''failure''], opsgenie_enabled = PBool False, opsgenie_api_key = PNone,
      opsgenie_notify_on = PList [PStr ''failure''], ns_routing = PDict [], dedup_enabled = PBool True,
      dedup_window_seconds = PInt 300, dedup_seen = Map.empty, ns_templates = PDict []\<rparr>"

theorem reports_are_spaced_witness:
  "snd (fold report [(''a'', 0), (''b'', 10), (''a'', 20), (''a'', 300)] (example_sender, []))
     = [(''a'', 0), (''b'', 10), (''a'', 300)]
   \<and> sorted_wrt (\<lambda>t u. t + 300 \<le> u) (map snd (filter (\<lambda>(k', t). k' = ''a'')
       (snd (fold report [(''a'', 0), (''b'', 10), (''a'', 20), (''a'', 300)] (example_sender, [])))))"
proof (rule conjI)
  show "snd (fold report [(''a'', 0), (''b'', 10), (''a'', 20), (''a'', 300)] (example_sender, []))
      = [(''a'', 0), (''b'', 10), (''a'', 300)]"
    by (simp add: report_def dedup_check_def example_sender_def num_or_raise_def)
  show "sorted_wrt (\<lambda>t u. t + 300 \<le> u) (map snd (filter (\<lambda>(k', t). k' = ''a'')
       (snd (fold report [(''a'', 0), (''b'', 10), (''a'', 20), (''a'', 300)] (example_sender, [])))))"
    by (rule reports_are_spaced) (simp_all add: example_sender_def)
qed

section \<open>Severity\<close>

text \<open>
  The severity of a report is one of the three known ones; a failure is never reported below
  \<open>warning\<close>, and a known severity of the action is never lowered.
\<close>

theorem severity_never_lowered:
  assumes "effective_severity base status = Inr sev"
  shows "sev \<in> fst ` set SEVERITY_RANK
    \<and> (status = ''failure'' \<longrightarrow> severity_rank ''warning'' \<le> severity_rank sev)
    \<and> (\<forall>b. base = PStr b \<longrightarrow> severity_rank b \<le> severity_rank sev)
    \<and> (status \<noteq> ''failure'' \<longrightarrow> sev = (case base of PStr b \<Rightarrow> if b \<in> fst ` set SEVERITY_RANK then b else ''info'' | _ \<Rightarrow> ''info''))"
  using assms
  by (cases base) (auto simp: effective_severity_def SEVERITY_RANK_def severity_rank_def Let_def py_hashable_def split: if_splits)

theorem severity_never_lowered_witness:
  "severity_rank ''warning'' \<le> severity_rank ''critical'' \<and> effective_severity (PStr ''info'') ''failure'' = Inr ''warning''"
  using severity_never_lowered [of "PStr ''critical''" "''failure''" "''critical''"]
  by (simp add: effective_severity_def SEVERITY_RANK_def severity_rank_def Let_def py_hashable_def)

section \<open>Mail\<close>

text \<open>Reading a secret only adds HTTP requests.\<close>

definition is_http :: "effect \<Rightarrow> bool" where
  "is_http e = (case e of HttpEffect _ \<Rightarrow> True | _ \<Rightarrow> False)"

definition http_only :: "'s world_scheme \<Rightarrow> 's world_scheme \<Rightarrow> bool" where
  "http_only w w' \<longleftrightarrow> (\<exists>new. trace w' = trace w @ new \<and> list_all is_http new)"

interpretation http: state_preorder http_only
  by unfold_locales (force simp: http_only_def)+

lemma http_primitives:
  "keeps http_only (time_time env)" "keeps http_only (do_http env req)" "keeps http_only (read_path env p)"
  "keeps http_only next_tick" "keeps http_only (modifyM (\<lambda>w. w\<lparr>vault := f w\<rparr>))"
  by (simp_all add: keeps_def http_only_def is_http_def)

lemma secret_http: "keeps http_only (get_secret env p)"
  unfolding get_secret_def fetch_secret_def resolve_token_def ensure_kubernetes_token_def login_kubernetes_def
  by (intro http.keeps_rules keeps_cases http_primitives)

lemma ref_http: "keeps http_only (resolve_vault_ref env v d)"
  unfolding resolve_vault_ref_def by (intro http.keeps_rules keeps_cases secret_http)

lemma resolve_if_set_http: "keeps http_only (resolve_if_set env v)"
  unfolding resolve_if_set_def by (intro http.keeps_rules ref_http)

lemma do_smtp_run:
  "do_smtp env p w =
     ((case env_smtp env (tick w) p of SmtpOk \<Rightarrow> Inr () | SmtpRefused m \<Rightarrow> Inl (OSError m) | SmtpRaised m \<Rightarrow> Inl (OtherError m)),
      w\<lparr>tick := Suc (tick w), trace := trace w @ [SmtpEffect p]\<rparr>)"
  by (simp add: do_smtp_def bindM_run raiseM_def split: smtp_out.split)

definition mail_steps ::
  "notification_sender \<Rightarrow> pyval \<Rightarrow> pyval \<Rightarrow> pyval \<Rightarrow> string \<Rightarrow> string \<Rightarrow> string \<Rightarrow> smtp_op list" where
  "mail_steps s username password from_addr to_header subject body =
     [SmtpConnect (email_smtp_host s) (email_smtp_port s)]
     @ (if py_truthy (email_use_tls s) then [SmtpStartTls] else [])
     @ (if py_truthy username \<and> py_truthy password then [SmtpLogin username password] else [])
     @ [SmtpSend from_addr (email_to s) to_header subject body]"

fun smtp_steps :: "env \<Rightarrow> smtp_op list \<Rightarrow> ('s world_scheme, unit) pym" where
  "smtp_steps env [] = returnM ()"
| "smtp_steps env (p # ps) = bindM (do_smtp env p) (\<lambda>_. smtp_steps env ps)"

lemma bindM_return: "bindM m returnM = m"
  by (auto simp: bindM_def returnM_def split: prod.split sum.split)

lemma smtp_session_steps:
  "smtp_session env s u p f t subj body = smtp_steps env (mail_steps s u p f t subj body)"
  by (simp add: smtp_session_def mail_steps_def bindM_return)

lemma smtp_steps_run:
  "\<exists>done_steps. trace (snd (smtp_steps env ps w)) = trace w @ map SmtpEffect done_steps \<and> prefix done_steps ps
    \<and> (fst (smtp_steps env ps w) = Inr () \<longrightarrow> done_steps = ps)"
proof (induction ps arbitrary: w)
  case (Cons p ps)
  let ?w = "w\<lparr>tick := Suc (tick w), trace := trace w @ [SmtpEffect p]\<rparr>"
  show ?case
  proof (cases "env_smtp env (tick w) p")
    case SmtpOk
    obtain done_steps where d: "trace (snd (smtp_steps env ps ?w)) = trace ?w @ map SmtpEffect done_steps"
      "prefix done_steps ps" "fst (smtp_steps env ps ?w) = Inr () \<longrightarrow> done_steps = ps"
      using Cons.IH by blast
    show ?thesis
      using d SmtpOk by (intro exI [of _ "p # done_steps"]) (simp add: bindM_run do_smtp_run)
  qed (auto simp: bindM_run do_smtp_run intro!: exI [of _ "[p]"])
qed simp



section \<open>Failures\<close>

definition plain_secret :: "pyval \<Rightarrow> bool" where
  "plain_secret v \<longleftrightarrow> \<not> py_truthy v \<or> (\<exists>t. v = PStr t \<and> \<not> startswith t ''vault:'')"

lemma plain_secret_ref: "plain_secret v \<Longrightarrow> resolve_vault_ref env v None = returnM v"
  by (auto simp: plain_secret_def resolve_vault_ref_def)

definition is_plist :: "pyval \<Rightarrow> bool" where
  "is_plist v \<longleftrightarrow> (\<exists>xs. v = PList xs)"

definition sane_routing :: "pyval \<Rightarrow> bool" where
  "sane_routing v \<longleftrightarrow> \<not> py_truthy v \<or> (\<exists>d. v = PDict d \<and> list_all (\<lambda>kv. is_plist (snd kv)) d)"

text \<open>
  A configuration of the right shape: lists where lists belong, a number as window, no templates,
  plain credentials.
\<close>

definition sane_sender :: "notification_sender \<Rightarrow> bool" where
  "sane_sender s \<longleftrightarrow>
     is_plist (slack_notify_on s) \<and> is_plist (teams_notify_on s) \<and> is_plist (email_notify_on s)
     \<and> is_plist (pagerduty_notify_on s) \<and> is_plist (opsgenie_notify_on s)
     \<and> sane_routing (ns_routing s) \<and> ns_templates s = PDict []
     \<and> py_num (dedup_window_seconds s) \<noteq> None \<and> (\<exists>addrs. email_to s = PList (map PStr addrs))
     \<and> plain_secret (email_username s) \<and> plain_secret (email_password s)
     \<and> plain_secret (pagerduty_routing_key s) \<and> plain_secret (opsgenie_api_key s)"

lemma sane_render: "sane_sender s \<Longrightarrow> render env s c t kw = Inr t"
  by (simp add: render_def sane_sender_def dget_def)

lemma sane_listed: "is_plist v \<Longrightarrow> \<exists>b. py_in k v = Inr b"
  by (auto simp: is_plist_def)

lemma total_lift: "\<exists>x. r = Inr x \<Longrightarrow> total (liftM r)"
  by (auto simp: total_def)

lemma total_post: "total (post_json env url hs payload)"
  by (simp add: total_def post_json_def)

lemma total_slack: "sane_sender s \<Longrightarrow> total (send_slack_notification env s ev sev)"
  unfolding send_slack_notification_def
  by (intro total_if total_bind total_return total_lift total_post) (auto simp: sane_render sane_sender_def sane_listed)

lemma total_teams: "sane_sender s \<Longrightarrow> total (send_teams_notification env s ev sev)"
  unfolding send_teams_notification_def
  by (intro total_if total_bind total_return total_lift total_post) (auto simp: sane_render sane_sender_def sane_listed)

lemma total_option: "total m \<Longrightarrow> (\<And>x. total (f x)) \<Longrightarrow> total (case p of None \<Rightarrow> m | Some x \<Rightarrow> f x)"
  by (cases p) auto

lemma total_prod: "(\<And>a b. total (f a b)) \<Longrightarrow> total (case p of (a, b) \<Rightarrow> f a b)"
  by (cases p) simp

lemma catch_returnM: "catchM (returnM x) h = returnM x" "catchM (Pair (Inr x)) h = returnM x"
  by (simp_all add: catchM_def returnM_def)

lemma total_pagerduty: "sane_sender s \<Longrightarrow> total (send_pagerduty_notification env s ev sev)"
  unfolding send_pagerduty_notification_def Let_def
  by (intro total_if total_bind total_return total_lift total_post total_option)
    (auto simp: sane_render sane_sender_def sane_listed plain_secret_ref catch_returnM total_return)

lemma total_opsgenie: "sane_sender s \<Longrightarrow> total (send_opsgenie_notification env s ev sev)"
  unfolding send_opsgenie_notification_def Let_def
  by (intro total_if total_bind total_return total_lift total_post total_option)
    (auto simp: sane_render sane_sender_def sane_listed plain_secret_ref catch_returnM total_return)

lemma join_addresses_texts: "join_addresses (PList (map PStr addrs)) = Inr (join '', '' addrs)"
proof -
  have "rmap (\<lambda>x. case x of PStr s \<Rightarrow> Inr s
      | u \<Rightarrow> Inl (TypeError (''sequence item: expected str instance, '' @ py_type_name u @ '' found''))) (map PStr addrs)
    = Inr (map (\<lambda>x. case x of PStr s \<Rightarrow> s | _ \<Rightarrow> []) (map PStr addrs))"
    by (rule rmap_total) auto
  moreover have "map (\<lambda>x. case x of PStr s \<Rightarrow> s | _ \<Rightarrow> []) (map PStr addrs) = addrs" by (induction addrs) simp_all
  ultimately show ?thesis by (simp only: join_addresses_def py_iter.simps rbind_simps)
qed

lemma smtp_steps_error:
  assumes "\<forall>n p m. env_smtp env n p \<noteq> SmtpRaised m"
  shows "fst (smtp_steps env ps w) = Inl e \<Longrightarrow> \<exists>m. e = OSError m"
proof (induction ps arbitrary: w)
  case (Cons p ps)
  then show ?case
    using assms by (cases "env_smtp env (tick w) p") (auto simp: bindM_run do_smtp_run)
qed simp

lemma total_email:
  assumes "sane_sender s" "\<forall>n p m. env_smtp env n p \<noteq> SmtpRaised m"
  shows "total (send_email_notification env s ev sev)"
proof -
  obtain addrs where to: "email_to s = PList (map PStr addrs)" using assms(1) by (auto simp: sane_sender_def)
  have creds: "resolve_if_set env (email_username s) = returnM (if py_truthy (email_username s) then email_username s else PNone)"
    "resolve_if_set env (email_password s) = returnM (if py_truthy (email_password s) then email_password s else PNone)"
    using assms(1) by (simp_all add: resolve_if_set_def plain_secret_ref sane_sender_def)
  have smtp: "total (catchM (bindM (smtp_session env s u p f t subj body) (\<lambda>_. returnM True))
      (\<lambda>e. case e of OSError _ \<Rightarrow> returnM False | _ \<Rightarrow> raiseM e))" for u p f t subj body
    unfolding total_def
  proof
    fix w
    obtain r w1 where r: "smtp_steps env (mail_steps s u p f t subj body) w = (r, w1)" by fastforce
    have "r = Inl e \<Longrightarrow> \<exists>m. e = OSError m" for e
      using smtp_steps_error [OF assms(2), of "mail_steps s u p f t subj body" w] r by simp
    then show "\<exists>x w'. catchM (bindM (smtp_session env s u p f t subj body) (\<lambda>_. returnM True))
        (\<lambda>e. case e of OSError _ \<Rightarrow> returnM False | _ \<Rightarrow> raiseM e) w = (Inr x, w')"
      using r by (cases r) (force simp: catchM_def bindM_run smtp_session_steps)+
  qed
  have c: "catchM (bindM (resolve_if_set env (email_username s)) (\<lambda>username.
        bindM (resolve_if_set env (email_password s)) (\<lambda>password. returnM (Some (username, password))))) h
      = returnM (Some (if py_truthy (email_username s) then email_username s else PNone,
          if py_truthy (email_password s) then email_password s else PNone))" for h
    by (simp only: creds bindM_simps catch_returnM)
  have listed: "\<exists>b. py_in (ev_status ev) (email_notify_on s) = Inr b"
    using assms(1) by (simp add: sane_sender_def sane_listed)
  show ?thesis
    unfolding send_email_notification_def Let_def to join_addresses_texts c
    by (intro total_if total_bind total_return total_lift total_option total_prod listed smtp)
      (auto simp: sane_render [OF assms(1)] to)
qed

lemma total_channel:
  "sane_sender s \<Longrightarrow> \<forall>n p m. env_smtp env n p \<noteq> SmtpRaised m \<Longrightarrow> total (send_channel env s ev sev c)"
  by (cases c) (simp_all add: total_slack total_teams total_email total_pagerduty total_opsgenie)

lemma sane_wants:
  assumes "sane_sender s"
  shows "\<exists>b. wants_channel s c sev = Inr b"
proof (cases "py_truthy (ns_routing s)")
  case True
  then obtain d where d: "ns_routing s = PDict d" "list_all (\<lambda>kv. is_plist (snd kv)) d"
    using assms by (auto simp: sane_sender_def sane_routing_def)
  have "is_plist (case map_of d sev of None \<Rightarrow> PList [] | Some v \<Rightarrow> v)"
    using d(2) by (auto simp: is_plist_def list_all_iff split: option.split dest!: map_of_SomeD)
  then show ?thesis using d(1) sane_listed by (auto simp: wants_channel_def)
qed (auto simp: wants_channel_def)

lemma total_fan_out:
  assumes "sane_sender s" "\<forall>n p m. env_smtp env n p \<noteq> SmtpRaised m"
  shows "total (fan_out env s ev sev cs results)"
proof (induction cs arbitrary: results)
  case (Cons c cs)
  show ?case
    unfolding fan_out.simps
    by (intro total_bind total_if total_lift sane_wants [OF assms(1)] total_channel [OF assms] Cons.IH)
qed (simp add: total_return)

lemma is_duplicate_run:
  assumes "py_num (dedup_window_seconds (sender w)) = Some window"
  shows "\<exists>b w1 f. is_duplicate env k w = (Inr b, w1) \<and> sender w1 = (sender w)\<lparr>dedup_seen := f\<rparr>"
proof (cases "py_truthy (dedup_enabled (sender w))")
  case True
  have "\<exists>b f. dedup_check k now (sender w) = (Inr b, (sender w)\<lparr>dedup_seen := f\<rparr>)" for now
    by (cases "dedup_remaining k window now (sender w)")
      (auto simp: dedup_check_store [OF assms] dedup_mark_def intro: exI [of _ "dedup_seen (sender w)"])
  then obtain b f where d: "dedup_check k (env_clock env (tick w)) (sender w) = (Inr b, (sender w)\<lparr>dedup_seen := f\<rparr>)"
    by blast
  then show ?thesis
    using True
    by (intro exI [of _ b] exI [of _ "w\<lparr>tick := Suc (tick w), sender := (sender w)\<lparr>dedup_seen := f\<rparr>\<rparr>"] exI [of _ f])
      (simp add: is_duplicate_def bindM_run)
next
  case False
  then show ?thesis by (auto simp: is_duplicate_def intro: exI [of _ "dedup_seen (sender w)"])
qed

lemma notify_total:
  assumes "sane_sender (sender w)" "py_hashable severity" "\<forall>n p m. env_smtp env n p \<noteq> SmtpRaised m"
  shows "\<exists>results w'. notify env ev severity key w = (Inr results, w')"
proof -
  obtain sev where sev: "effective_severity severity (ev_status ev) = Inr sev"
    using assms(2) by (simp add: effective_severity_def Let_def)
  let ?k = "if opt_true key then the key else event_key env ev"
  obtain window where "py_num (dedup_window_seconds (sender w)) = Some window"
    using assms(1) by (auto simp: sane_sender_def)
  from is_duplicate_run [OF this] obtain b w1 f where
    d: "is_duplicate env ?k w = (Inr b, w1)" and w1: "sender w1 = (sender w)\<lparr>dedup_seen := f\<rparr>"
    by blast
  have s1: "sane_sender (sender w1)" using assms(1) unfolding w1 by (simp add: sane_sender_def)
  obtain results w' where "fan_out env (sender w1) ev sev CHANNELS [] w1 = (Inr results, w')"
    using total_fan_out [OF s1 assms(3)] unfolding total_def by meson
  then show ?thesis
    using sev d by (cases b) (simp_all add: notify_def bindM_run)
qed


text \<open>
  But a template is not checked: a template text with a stray brace makes \<open>notify\<close> raise
  \<open>ValueError\<close> out of the first channel that renders it, after the event has been marked as
  reported, so that the next report of the event is suppressed.
\<close>

theorem bad_template_raises:
  assumes "sane_sender (sender w \<lparr>ns_templates := PDict []\<rparr>)" "ns_templates (sender w) = PDict [(''default'', PStr ''}'')]"
    and "py_hashable severity" "\<not> py_truthy (ns_routing (sender w))" "py_truthy (dedup_enabled (sender w))"
    and "dedup_seen (sender w) (event_key env ev) = None" "py_truthy (slack_enabled (sender w))"
    and "py_truthy (slack_url (sender w))" "py_in (ev_status ev) (slack_notify_on (sender w)) = Inr True"
  shows "\<exists>m w'. notify env ev severity None w = (Inl (ValueError m), w')
    \<and> dedup_seen (sender w') (event_key env ev) = Some (env_clock env (tick w)) \<and> trace w' = trace w"
proof -
  obtain sev where sev: "effective_severity severity (ev_status ev) = Inr sev"
    using assms(3) by (simp add: effective_severity_def Let_def)
  define w1 where "w1 = w\<lparr>tick := Suc (tick w), sender := (sender w)\<lparr>dedup_seen := (dedup_seen (sender w))(event_key env ev \<mapsto> env_clock env (tick w))\<rparr>\<rparr>"
  have d: "is_duplicate env (event_key env ev) w = (Inr False, w1)"
    using assms(5,6) by (simp add: is_duplicate_def dedup_check_def bindM_run w1_def)
  have r: "\<exists>m. render env (sender w1) c t kw = Inl (ValueError m)" if "c \<noteq> ''default''" for c t kw
    using assms(2) that by (simp add: render_def w1_def dget_def format_template_def lookup_error_def)
  obtain m where m: "render env (sender w1) ''slack'' (slack_default_text env ev) (event_fields ev (or_info sev)) = Inl (ValueError m)"
    using r [of "''slack''"] by auto
  have "send_channel env (sender w1) ev sev Slack w1 = (Inl (ValueError m), w1)"
    using assms(7-9) m by (simp add: send_slack_notification_def w1_def bindM_run)
  moreover have "wants_channel (sender w1) (channel_name Slack) sev = Inr True"
    using assms(4) by (simp add: wants_channel_def w1_def)
  ultimately have "notify env ev severity None w = (Inl (ValueError m), w1)"
    using sev d by (simp add: notify_def opt_true_def CHANNELS_def bindM_run)
  then show ?thesis by (simp add: w1_def)
qed

definition example_notify_disk :: "notification_sender \<Rightarrow> notify_disk" where
  "example_notify_disk s = ship_disk.extend (example_ship_disk (PDict [])) \<lparr>sender = s\<rparr>"

definition example_event :: event where
  "example_event = \<lparr>ev_action = ''restart'', ev_controller = PStr ''web1'', ev_user = PStr ''k'', ev_status = ''failure'',
     ev_details = PNone\<rparr>"

lemma sane_example: "sane_sender example_sender"
  by (auto simp: sane_sender_def example_sender_def is_plist_def both_statuses_def sane_routing_def plain_secret_def
      startswith_def intro!: exI [of _ "[''oncall@example.com'']"])


theorem bad_template_raises_witness:
  "let s = example_sender\<lparr>ns_templates := PDict [(''default'', PStr ''}'')], slack_enabled := PBool True,
             slack_url := PStr ''https://hooks.slack.com''\<rparr> in
   \<exists>m w'. notify example_env example_event PNone None (example_notify_disk s) = (Inl (ValueError m), w')"
proof -
  define s where "s = example_sender\<lparr>ns_templates := PDict [(''default'', PStr ''}'')], slack_enabled := PBool True,
             slack_url := PStr ''https://hooks.slack.com''\<rparr>"
  have e: "sender (example_notify_disk s) = s" by (simp add: example_notify_disk_def ship_disk.extend_def)
  have sane: "sane_sender (s\<lparr>ns_templates := PDict []\<rparr>)"
    using sane_example by (simp add: s_def sane_sender_def)
  have listed: "py_in (ev_status example_event) (slack_notify_on s) = Inr True"
    by (simp add: s_def example_sender_def both_statuses_def example_event_def)
  have "\<exists>m w'. notify example_env example_event PNone None (example_notify_disk s) = (Inl (ValueError m), w')
      \<and> dedup_seen (sender w') (event_key example_env example_event) = Some (env_clock example_env (tick (example_notify_disk s)))
      \<and> trace w' = trace (example_notify_disk s)"
    by (rule bad_template_raises)
      (simp_all add: e sane listed, simp_all add: s_def example_sender_def py_hashable_def)
  then show ?thesis unfolding Let_def s_def [symmetric] by blast
qed

end
