(* ===== verification/Frames.thy ===== *)
theory Frames
  imports Server NotifyProps
begin

text \<open>
  What each part of a request leaves alone: executing an action keeps everything but the world,
  writing the audit log and shipping keep the approval queue, and only \<open>execute_action\<close> starts
  processes or talks to a cluster.
\<close>

section \<open>Executing an action\<close>

definition inner_frame :: "'s world_scheme \<Rightarrow> 's world_scheme \<Rightarrow> bool" where
  "inner_frame w w' \<longleftrightarrow> world.more w' = world.more w"

interpretation inner: state_preorder inner_frame
  by unfold_locales (auto simp: inner_frame_def)

lemma outer_inner: "keeps outer_frame m \<Longrightarrow> keeps inner_frame m"
  by (auto simp: keeps_def outer_frame_def inner_frame_def)

lemma inner_primitives:
  "keeps inner_frame (time_time env)" "keeps inner_frame (do_http env req)" "keeps inner_frame (do_proc env cmd)"
  "keeps inner_frame (read_path env p)" "keeps inner_frame next_tick"
  "keeps inner_frame (modifyM (\<lambda>w. w\<lparr>tmpfiles := g w\<rparr>))" "keeps inner_frame (modifyM (\<lambda>w. w\<lparr>trace := t w\<rparr>))"
  "keeps inner_frame (modifyM (unlink_all ps))" "keeps inner_frame (do_smtp env step)"
  by (simp_all add: keeps_def inner_frame_def unlink_all_def do_smtp_run)

lemma inner_unlink: "inner_frame w (unlink_all ps w)"
  by (simp add: inner_frame_def unlink_all_def)

lemma ref_inner: "keeps inner_frame (resolve_vault_ref env v d)"
  by (rule outer_inner [OF ref_outer])

lemma secret_file_inner: "keeps inner_frame (resolve_secret_file env v d)"
  unfolding resolve_secret_file_def mkstemp_def write_tmp_def
  by (intro inner.keeps_rules keeps_cases inner_primitives ref_inner)

lemma subprocess_inner: "keeps inner_frame (subprocess_run env cmd)"
  unfolding subprocess_run_def by (intro inner.keeps_rules keeps_cases inner_primitives)

lemma kube_call_inner: "keeps inner_frame (kube_call env conf op args)"
  unfolding kube_call_def by (intro inner.keeps_rules keeps_cases inner_primitives)

lemma cleaning_inner: "keeps inner_frame m \<Longrightarrow> keeps inner_frame (cleaning ps m)"
  unfolding cleaning_def by (intro inner.keeps_rules keeps_cases inner_primitives)

lemma configuration_inner: "keeps inner_frame (build_kube_configuration env c)"
  unfolding build_kube_configuration_def read_token_def Let_def
  by (intro inner.keeps_rules keeps_cases inner_primitives secret_file_inner cleaning_inner kube_call_inner)

lemma exn_case_keeps:
  "(\<And>m. keeps R (f m)) \<Longrightarrow> keeps R n \<Longrightarrow> keeps R (case e of VaultUnavailableError m \<Rightarrow> f m | _ \<Rightarrow> n)"
  "(\<And>s r b t. keeps R (g s r b t)) \<Longrightarrow> keeps R n \<Longrightarrow> keeps R (case e of ApiException s r b t \<Rightarrow> g s r b t | _ \<Rightarrow> n)"
  "(\<And>m. keeps R (f m)) \<Longrightarrow> keeps R n \<Longrightarrow> keeps R (case e of OSError m \<Rightarrow> f m | _ \<Rightarrow> n)"
  by (cases e; simp)+

lemma remote_inner: "keeps inner_frame (run_remote env c a ps dry)"
  unfolding run_remote_def resolve_ssh_key_def Let_def
  by (intro inner.keeps_rules keeps_cases exn_case_keeps inner.keeps_finally inner_unlink subprocess_inner secret_file_inner)

lemma drain_inner: "keeps inner_frame (drain_pods env conf pods r)"
proof (induction pods arbitrary: r)
  case (Cons p pods)
  have "keeps inner_frame (evict env conf q r)" for q r
    unfolding evict_def by (intro inner.keeps_rules exn_case_keeps kube_call_inner)
  then show ?case unfolding drain_pods.simps by (intro inner.keeps_rules Cons.IH)
qed (simp add: inner.keeps_return)

lemma handler_inner: "keeps inner_frame (kube_handler env verb conf rendered)"
  unfolding kube_handler_def kube_rollout_restart_def kube_delete_pod_def kube_scale_def
    kube_cordon_node_def kube_uncordon_node_def kube_drain_node_def kube_patch_configmap_def
    set_unschedulable_def Let_def
  by (intro keeps_cases inner.keeps_rules kube_call_inner drain_inner inner_primitives)

lemma kube_inner: "keeps inner_frame (run_kube_action env c a ps dry)"
  unfolding run_kube_action_def
  by (intro keeps_cases inner.keeps_rules inner.keeps_finally inner_unlink configuration_inner handler_inner)

lemma execute_inner: "keeps inner_frame (execute_action env ac cc ps dry)"
  unfolding execute_action_def run_playbook_def run_script_def run_command_def Let_def
  by (intro keeps_cases inner.keeps_rules kube_inner remote_inner subprocess_inner)

section \<open>Writing the audit log\<close>

definition log_frame :: "'s disk_scheme \<Rightarrow> 's disk_scheme \<Rightarrow> bool" where
  "log_frame w w' \<longleftrightarrow> disk.more w' = disk.more w \<and> tmpfiles w' = tmpfiles w \<and> trace w' = trace w \<and> vault w' = vault w"

interpretation logf: state_preorder log_frame
  by unfold_locales (auto simp: log_frame_def)

lemma log_primitives:
  "keeps log_frame (time_time env)" "keeps log_frame next_tick"
  "keeps log_frame (modifyM (\<lambda>w. w\<lparr>fs := f w\<rparr>))" "keeps log_frame (modifyM (rename_file p q))"
  by (simp_all add: keeps_def log_frame_def rename_file_def)

lemma write_locked_frame: "keeps log_frame (write_locked env ac e)"
  unfolding write_locked_def append_file_def by (intro logf.keeps_rules keeps_cases log_primitives)

lemma sweep_loop_frame: "keeps log_frame (sweep_loop env d b c cs del)"
proof (induction cs arbitrary: del)
  case (Cons f cs)
  have "keeps log_frame (sweep_step env d b c f del)" for del
    unfolding sweep_step_def Let_def by (intro logf.keeps_rules keeps_cases log_primitives)
  then show ?case unfolding sweep_loop.simps by (intro logf.keeps_rules Cons.IH)
qed (simp add: logf.keeps_return)

lemma should_rotate_frame: "keeps log_frame (should_rotate env ac)"
proof -
  have s: "keeps R m \<Longrightarrow> (\<And>t. keeps R (f t)) \<Longrightarrow> keeps R (case s of IsoAware t \<Rightarrow> f t | _ \<Rightarrow> m)" for R m f s
    by (cases s) simp_all
  show ?thesis
    unfolding should_rotate_def Let_def by (intro logf.keeps_rules keeps_cases log_primitives s)
qed

lemma append_entry_frame: "keeps log_frame (append_entry env ac e)"
  unfolding append_entry_def maybe_rotate_def sweep_retention_def Let_def
  by (intro logf.keeps_rules keeps_cases log_primitives write_locked_frame sweep_loop_frame should_rotate_frame)

section \<open>The approval queue\<close>

text \<open>\<open>calm\<close>: the approval queue and what a running server never replaces stay as they are.\<close>

definition calm :: "'s server_scheme \<Rightarrow> 's server_scheme \<Rightarrow> bool" where
  "calm w w' \<longleftrightarrow> heap w' = heap w \<and> approval_queue w' = approval_queue w \<and> merged_actions w' = merged_actions w
     \<and> approvals_path w' = approvals_path w \<and> chain w' = chain w \<and> as_config (shipper w') = as_config (shipper w)
     \<and> tmpfiles w' = tmpfiles w"

interpretation calm: state_preorder calm
  by unfold_locales (auto simp: calm_def)

lemma outer_calm: "keeps outer_frame m \<Longrightarrow> keeps calm m"
proof -
  have "calm w w'" if "outer_frame w w'" for w w' :: "'s server_scheme"
    using that by (cases w; cases w') (auto simp: outer_frame_def calm_def)
  then show "keeps outer_frame m \<Longrightarrow> keeps calm m" unfolding keeps_def by blast
qed

lemma log_calm: "keeps log_frame m \<Longrightarrow> keeps calm m"
proof -
  have "calm w w'" if "log_frame w w'" for w w' :: "'s server_scheme"
    using that by (cases w; cases w') (auto simp: log_frame_def calm_def)
  then show "keeps log_frame m \<Longrightarrow> keeps calm m" unfolding keeps_def by blast
qed

lemma ship_calm: "keeps ship_frame m \<Longrightarrow> keeps calm m"
proof -
  have "calm w w'" if "ship_frame w w'" for w w' :: "'s server_scheme"
    using that by (cases w; cases w') (auto simp: ship_frame_def calm_def)
  then show "keeps ship_frame m \<Longrightarrow> keeps calm m" unfolding keeps_def by blast
qed

lemma execute_calm: "keeps calm (execute_action env ac cc ps dry)"
  unfolding keeps_def
proof
  fix w :: "'s server_scheme"
  have "inner_frame w (snd (execute_action env ac cc ps dry w))"
    using execute_inner unfolding keeps_def by blast
  moreover have "tmpfiles (snd (execute_action env ac cc ps dry w)) = tmpfiles w"
    using execute_files unfolding keeps_def by blast
  ultimately show "calm w (snd (execute_action env ac cc ps dry w))"
    by (cases w; cases "snd (execute_action env ac cc ps dry w)") (auto simp: inner_frame_def calm_def)
qed

lemma write_audit_log_calm: "keeps calm (write_audit_log env e)"
  unfolding write_audit_log_def
  by (intro calm.keeps_rules log_calm [OF append_entry_frame] ship_calm [OF ship_keeps] outer_calm outer_primitives)

lemma rate_check_calm: "keeps calm (rate_check env k l)"
proof -
  have c: "keeps calm (\<lambda>w. case rl_check k l WINDOW_SECONDS now (limiter w) of (r, rl) \<Rightarrow> (r, w\<lparr>limiter := rl\<rparr>))" for now
    by (auto simp: keeps_def calm_def split: prod.split)
  show ?thesis unfolding rate_check_def by (intro calm.keeps_rules c outer_calm outer_primitives)
qed

lemma rate_gate_calm: "keeps calm (rate_gate env k l p a r)"
  unfolding rate_gate_def by (intro calm.keeps_rules keeps_cases rate_check_calm write_audit_log_calm)

lemma cooldown_remaining_calm: "keeps calm (cooldown_remaining env k s)"
  unfolding cooldown_remaining_def by (intro calm.keeps_rules outer_calm outer_primitives)

lemma cooldown_record_calm: "keeps calm (cooldown_record env k)"
proof -
  have c: "keeps calm (\<lambda>w. case cd_record fr k now now2 fault (cooldowns w) (fs w) of
      (r, cd, disk) \<Rightarrow> (r, w\<lparr>cooldowns := cd, fs := disk\<rparr>))" for fr now now2 fault
    by (auto simp: keeps_def calm_def split: prod.split)
  show ?thesis unfolding cooldown_record_def by (intro calm.keeps_rules c outer_calm outer_primitives)
qed

lemma channel_inner: "keeps inner_frame (send_channel env s ev sev c)"
proof -
  have p: "keeps inner_frame (post_json env url hs payload)" for env url hs payload
    unfolding post_json_def by (rule inner_primitives)
  show ?thesis
    by (cases c; simp; unfold send_slack_notification_def send_teams_notification_def send_email_notification_def
        send_pagerduty_notification_def send_opsgenie_notification_def smtp_session_def resolve_if_set_def Let_def;
        intro inner.keeps_rules keeps_cases exn_case_keeps p ref_inner inner_primitives)
qed

lemma fan_out_inner: "keeps inner_frame (fan_out env s ev sev cs results)"
  by (induction cs arbitrary: results)
    (auto intro!: inner.keeps_rules channel_inner)

lemma inner_calm: "keeps inner_frame m \<Longrightarrow> keeps (\<lambda>w w'. tmpfiles w' = tmpfiles w) m \<Longrightarrow> keeps calm m"
proof -
  have "calm w w'" if "inner_frame w w'" "tmpfiles w' = tmpfiles w" for w w' :: "'s server_scheme"
    using that by (cases w; cases w') (auto simp: inner_frame_def calm_def)
  then show "keeps inner_frame m \<Longrightarrow> keeps (\<lambda>w w'. tmpfiles w' = tmpfiles w) m \<Longrightarrow> keeps calm m"
    unfolding keeps_def by blast
qed

lemma channel_files: "keeps_files (send_channel env s ev sev c)"
proof -
  have p: "keeps_files (post_json env url hs payload)" for env url hs payload
    unfolding post_json_def by (intro outer_files outer_primitives)
  have m: "keeps_files (do_smtp env step)" for env step by (simp add: keeps_def do_smtp_run)
  have r: "keeps_files (resolve_vault_ref env v d)" for env v d by (intro outer_files ref_outer)
  show ?thesis
    by (cases c; simp; unfold send_slack_notification_def send_teams_notification_def send_email_notification_def
        send_pagerduty_notification_def send_opsgenie_notification_def smtp_session_def resolve_if_set_def Let_def;
        intro files.keeps_rules keeps_cases exn_case_keeps p r m)
qed

lemma fan_out_files: "keeps_files (fan_out env s ev sev cs results)"
  by (induction cs arbitrary: results) (auto intro!: files.keeps_rules channel_files)

lemma is_duplicate_calm: "keeps calm (is_duplicate env k)"
proof -
  have c: "keeps calm (\<lambda>w. case dedup_check k now (sender w) of (r, s') \<Rightarrow> (r, w\<lparr>sender := s'\<rparr>))" for now
    by (auto simp: keeps_def calm_def split: prod.split)
  show ?thesis unfolding is_duplicate_def by (intro calm.keeps_rules c outer_calm outer_primitives)
qed

lemma notify_calm: "keeps calm (notify env ev sev key)"
  unfolding notify_def
  by (intro calm.keeps_rules is_duplicate_calm inner_calm fan_out_inner fan_out_files)

lemma log_and_notify_calm: "keeps calm (log_and_notify env e ev ac)"
  unfolding log_and_notify_def by (intro calm.keeps_rules write_audit_log_calm notify_calm)

lemmas calm_parts = calm.keeps_rules keeps_cases rate_gate_calm cooldown_remaining_calm cooldown_record_calm
  write_audit_log_calm log_and_notify_calm execute_calm
  outer_calm [OF role_outer] outer_calm [OF has_permission_outer] outer_calm [OF action_allowed_outer]
  outer_calm [OF controller_allowed_outer] outer_calm [OF action_config_outer] outer_calm [OF controller_config_outer]

lemma authorize_calm: "keeps calm (webhook_authorize env p k r ac)"
  unfolding webhook_authorize_def Let_def by (intro calm_parts)

lemma webhook_execute_calm: "keeps calm (webhook_execute env p k r ip ac cn cc ps)"
  unfolding webhook_execute_def Let_def by (intro calm_parts)

section \<open>Processes and cluster calls\<close>

lemma infra_more: "keeps_infra (modifyM (\<lambda>w. w\<lparr>fs := f w\<rparr>))"
  by (simp add: keeps_def infra_def)

lemma log_infra: "keeps log_frame m \<Longrightarrow> keeps_infra m"
  by (auto simp: keeps_def log_frame_def infra_def)

lemma infra_effects: "infra (w\<lparr>tick := n, trace := trace w @ [SmtpEffect x]\<rparr>) = infra w"
  by (simp add: infra_def is_infra_def)

lemma smtp_infra: "keeps_infra (do_smtp env step)"
  by (simp add: keeps_def do_smtp_run infra_effects)

lemma post_infra: "keeps_infra (post_json env url hs payload)"
  unfolding post_json_def by (rule infra_primitives)

lemma channel_infra: "keeps_infra (send_channel env s ev sev c)"
  by (cases c; simp; unfold send_slack_notification_def send_teams_notification_def send_email_notification_def
      send_pagerduty_notification_def send_opsgenie_notification_def smtp_session_def resolve_if_set_def Let_def;
      intro infra.keeps_rules keeps_cases exn_case_keeps post_infra ref_infra smtp_infra)

lemma fan_out_infra: "keeps_infra (fan_out env s ev sev cs results)"
  by (induction cs arbitrary: results) (auto intro!: infra.keeps_rules channel_infra)

lemma is_duplicate_infra: "keeps_infra (is_duplicate env k)"
proof -
  have "keeps_infra (\<lambda>w. case dedup_check k now (sender w) of (r, s') \<Rightarrow> (r, w\<lparr>sender := s'\<rparr>))" for now
    by (auto simp: keeps_def infra_def split: prod.split)
  then show ?thesis unfolding is_duplicate_def by (intro infra.keeps_rules infra_primitives)
qed

lemma notify_infra: "keeps_infra (notify env ev sev key)"
  unfolding notify_def by (intro infra.keeps_rules is_duplicate_infra fan_out_infra)

lemma resolve_headers_infra: "keeps_infra (resolve_headers env hs acc)"
proof (induction hs arbitrary: acc)
  case (Cons h hs)
  then show ?case by (cases h) (simp, intro infra.keeps_rules ref_infra Cons.IH)
qed (simp add: infra.keeps_return)

lemma ship_infra: "keeps_infra (ship env e)"
proof -
  have h: "keeps_infra (modifyM (\<lambda>w. w\<lparr>shipper := (shipper w)\<lparr>as_handler := x\<rparr>\<rparr>))" for x
    by (simp add: keeps_def infra_def)
  have m: "keeps_infra (emit_syslog x t)" for x t
    by (simp add: keeps_def infra_def is_infra_def emit_syslog_def)
  show ?thesis
    unfolding ship_def ship_syslog_def ship_http_def get_syslog_handler_def Let_def
    by (intro infra.keeps_rules keeps_cases exn_case_keeps h m infra_primitives resolve_headers_infra)
qed

lemma write_audit_log_infra: "keeps_infra (write_audit_log env e)"
  unfolding write_audit_log_def
  by (intro infra.keeps_rules infra_primitives log_infra [OF append_entry_frame] ship_infra)

end
