(* ===== verification/ApprovalProps.thy ===== *)
theory ApprovalProps
  imports Approvals NotifyProps
begin

text \<open>
  Properties of the approval queue as a store: what a save drops, that a save is complete or not
  at all, and that loading gives the queue back.
\<close>

section \<open>Pruning\<close>

definition is_processed :: "pyval list \<Rightarrow> nat \<Rightarrow> bool" where
  "is_processed h a \<longleftrightarrow> py_item (h ! a) ''status'' \<noteq> Inr (PStr ''pending'')"

lemma processed_flags_map:
  "processed_flags h q = Inr flags \<Longrightarrow> flags = map (\<lambda>a. (a, is_processed h a)) q"
  by (induction q arbitrary: flags) (auto simp: processed_flags_def rbind_eq_Inr is_processed_def)

lemma drop_processed_pending:
  "filter (\<lambda>a. \<not> f a) (drop_processed n (map (\<lambda>a. (a, f a)) q)) = filter (\<lambda>a. \<not> f a) q"
  by (induction q arbitrary: n) auto

lemma drop_processed_done:
  "filter f (drop_processed n (map (\<lambda>a. (a, f a)) q)) = drop n (filter f q)"
  by (induction q arbitrary: n) (auto simp: drop_Cons')

lemma drop_processed_subseq: "subseq (drop_processed n flags) (map fst flags)"
  by (induction n flags rule: drop_processed.induct) auto

text \<open>
  C18. Saving never loses work that is still to be done: the pruned queue has the same pending
  entries in the same order, of the processed ones it keeps the newest, at most 500 of them, and it
  reorders nothing.
\<close>

theorem prune_keeps_pending:
  assumes "prune_queue h q = Inr q'"
  shows "filter (\<lambda>a. \<not> is_processed h a) q' = filter (\<lambda>a. \<not> is_processed h a) q
    \<and> filter (is_processed h) q' = drop (length (filter (is_processed h) q) - MAX_PROCESSED_APPROVALS) (filter (is_processed h) q)
    \<and> length (filter (is_processed h) q') \<le> MAX_PROCESSED_APPROVALS \<and> subseq q' q"
proof -
  obtain flags where f: "processed_flags h q = Inr flags"
    and q': "q' = drop_processed (length (filter snd flags) - MAX_PROCESSED_APPROVALS) flags"
    using assms by (auto simp: prune_queue_def rbind_eq_Inr)
  have flags: "flags = map (\<lambda>a. (a, is_processed h a)) q" by (rule processed_flags_map [OF f])
  have "length (filter snd flags) = length (filter (is_processed h) q)"
    by (simp add: flags filter_map comp_def)
  then show ?thesis
    using drop_processed_subseq [of _ flags]
    by (simp add: q' flags drop_processed_pending drop_processed_done comp_def)
qed

theorem prune_keeps_pending_witness:
  "let h = PDict [(''id'', PStr ''a''), (''status'', PStr ''pending'')] # replicate 501 (PDict [(''status'', PStr ''approved'')]) in
   prune_queue h [1, 0, 2] = Inr [1, 0, 2] \<and> filter (\<lambda>a. \<not> is_processed h a) [1, 0, 2] = [0]"
proof -
  define h where "h = PDict [(''id'', PStr ''a''), (''status'', PStr ''pending'')] # replicate 501 (PDict [(''status'', PStr ''approved'')])"
  have p: "py_item (h ! 0) ''status'' = Inr (PStr ''pending'')" "py_item (h ! 1) ''status'' = Inr (PStr ''approved'')"
    "py_item (h ! 2) ''status'' = Inr (PStr ''approved'')"
    by (simp_all add: h_def nth_Cons')
  then have r: "prune_queue h [1, 0, 2] = Inr [1, 0, 2]"
    by (simp add: prune_queue_def processed_flags_def MAX_PROCESSED_APPROVALS_def)
  have "filter (\<lambda>a. \<not> is_processed h a) [1, 0, 2] = [0]" using p by (simp add: is_processed_def)
  then show ?thesis
    using prune_keeps_pending [OF r] r unfolding h_def [symmetric] Let_def by simp
qed

section \<open>Saving and loading\<close>

lemma save_run:
  assumes "prune_queue (heap w) (approval_queue w) = Inr q"
  shows "save_approval_queue env w = (Inr (),
    w\<lparr>tick := Suc (tick w), approval_queue := q,
      fs := fs_run (let ops = save_ops (approvals_path w) (map (\<lambda>c. [c]) (json_dumps (env_float_repr env)
              (PList (map (\<lambda>a. heap w ! a) q)))) in
            case env_save_fault env (tick w) of None \<Rightarrow> ops | Some k \<Rightarrow> take k ops) (fs w)\<rparr>)"
  using assms by (simp add: save_approval_queue_def bindM_run queue_values_def Let_def split: option.split)

lemma save_complete_text:
  "fs_run (save_ops p (map (\<lambda>c. [c]) s)) disk p = Some s"
proof -
  have "concat (map (\<lambda>c. [c]) s) = s" by (induction s) auto
  then show ?thesis by (simp add: save_complete)
qed

text \<open>The values the queue refers to, as they will be read back.\<close>

lemma load_values:
  assumes "json_ok (env_float_repr env) (env_float_parse env) (PList vs)"
    and "fs w (approvals_path w) = Some (json_dumps (env_float_repr env) (PList vs))"
    and "heap w = []" "approval_queue w = []"
  shows "\<exists>w'. load_approval_queue env w = (Inr (), w') \<and> queue_values w' = vs"
proof -
  have "json_loads (env_float_parse env) (json_dumps (env_float_repr env) (PList vs)) = Inr (PList vs)"
    by (rule jl.loads_dumps [OF assms(1)])
  moreover have "map ((!) vs) [0..<length vs] = vs" by (rule map_nth)
  ultimately show ?thesis
    using assms(2-4) by (simp add: load_approval_queue_def enqueue_all_def queue_values_def)
qed

text \<open>
  C19. Approvals survive a restart: a save that completes leaves a file from which a new process
  loads exactly the entries of the queue, in order and with every field; a save that is cut off at
  any file-system call leaves the file as it was or complete.
\<close>

theorem approvals_survive_restart:
  assumes "save_approval_queue env w = (Inr (), w')"
    and "json_ok (env_float_repr env) (env_float_parse env) (PList (queue_values w'))"
    and fault: "\<And>k. env_save_fault env (tick w) = Some k \<Longrightarrow>
      k \<le> length (save_ops (approvals_path w) (map (\<lambda>c. [c]) (json_dumps (env_float_repr env) (PList (queue_values w')))))"
    and new: "heap v = []" "approval_queue v = []" "approvals_path v = approvals_path w" "fs v = fs w'"
  shows "(fs w' (approvals_path w) = fs w (approvals_path w)
      \<or> (\<exists>v'. load_approval_queue env v = (Inr (), v') \<and> queue_values v' = queue_values w'))
    \<and> (env_save_fault env (tick w) = None \<longrightarrow>
      (\<exists>v'. load_approval_queue env v = (Inr (), v') \<and> queue_values v' = queue_values w'))"
proof -
  obtain q where q: "prune_queue (heap w) (approval_queue w) = Inr q"
    using assms(1) by (auto simp: save_approval_queue_def bindM_run liftM_def split: sum.splits)
  let ?s = "json_dumps (env_float_repr env) (PList (map (\<lambda>a. heap w ! a) q))"
  have qv: "queue_values w' = map (\<lambda>a. heap w ! a) q"
    using assms(1) by (auto simp: save_run [OF q] queue_values_def)
  have load: "\<exists>v'. load_approval_queue env v = (Inr (), v') \<and> queue_values v' = queue_values w'"
    if "fs w' (approvals_path w) = Some ?s"
    using load_values [of env "queue_values w'" v] assms(2) new that by (simp add: qv)
  have full: "fs w' (approvals_path w) = Some ?s" if "env_save_fault env (tick w) = None"
    using assms(1) that by (auto simp: save_run [OF q] save_complete_text)
  have "fs w' (approvals_path w) = fs w (approvals_path w)
      \<or> (\<exists>v'. load_approval_queue env v = (Inr (), v') \<and> queue_values v' = queue_values w')"
  proof (cases "env_save_fault env (tick w)")
    case None
    then show ?thesis using load full by blast
  next
    case (Some k)
    have c: "concat (map (\<lambda>c. [c]) ?s) = ?s" by (induction ?s) auto
    have k: "k \<le> length (save_ops (approvals_path w) (map (\<lambda>c. [c]) ?s))" using fault [OF Some] by (simp add: qv)
    have "fs w' = fs_run (take k (save_ops (approvals_path w) (map (\<lambda>c. [c]) ?s))) (fs w)"
      using assms(1) Some by (auto simp: save_run [OF q])
    then have "fs w' (approvals_path w) = fs w (approvals_path w) \<or> fs w' (approvals_path w) = Some ?s"
      using save_crash [OF k, of "fs w"] unfolding c by auto
    then show ?thesis using load by blast
  qed
  then show ?thesis using load full by blast
qed

text \<open>A server for examples: one pending request of the key \<open>alice\<close>.\<close>

definition example_approval :: pyval where
  "example_approval = PDict
     [(''id'', PStr ''r1''), (''payload'', PDict [(''event_type'', PStr ''restart'')]), (''status'', PStr ''pending''),
      (''result'', PNone), (''requested_by'', PStr ''alice''), (''role'', PStr ''operator''),
      (''controller'', PStr ''local'')]"

definition example_server :: server where
  "example_server = notify_disk.extend (example_notify_disk example_sender)
     \<lparr>merged_actions = Some (PDict [(''restart'', PDict [(''command'', PStr ''systemctl restart nginx''),
          (''default_controller'', PStr ''local''), (''cooldown_seconds'', PInt 300)])]),
      heap = [example_approval], approval_queue = [0], approvals_path = ''logs/approvals.json'',
      cooldowns = \<lparr>cd_path = ''logs/cooldowns.json'', cd_last_run = []\<rparr>,
      limiter = \<lparr>rl_config = PDict [], rl_hits = Map.empty\<rparr>,
      chain = \<lparr>ac_path = ''logs/audit.log'', ac_retention = PDict []\<rparr>\<rparr>"

lemma example_server_simps:
  "heap example_server = [example_approval]" "approval_queue example_server = [0]"
  "approvals_path example_server = ''logs/approvals.json''" "tick example_server = 0" "trace example_server = []"
  "fs example_server = Map.empty" "tmpfiles example_server = []"
  "cooldowns example_server = \<lparr>cd_path = ''logs/cooldowns.json'', cd_last_run = []\<rparr>"
  "limiter example_server = \<lparr>rl_config = PDict [], rl_hits = Map.empty\<rparr>"
  "chain example_server = \<lparr>ac_path = ''logs/audit.log'', ac_retention = PDict []\<rparr>"
  "sender example_server = example_sender" "shipper example_server = example_shipper (PDict [])"
  "merged_actions example_server = Some (PDict [(''restart'', PDict [(''command'', PStr ''systemctl restart nginx''),
          (''default_controller'', PStr ''local''), (''cooldown_seconds'', PInt 300)])])"
  by (simp_all add: example_server_def notify_disk.extend_def example_notify_disk_def ship_disk.extend_def
      example_ship_disk_def disk.extend_def world.extend_def example_world_def)

theorem approvals_survive_restart_witness:
  "let w' = snd (save_approval_queue example_env example_server);
       v = example_server\<lparr>heap := [], approval_queue := [], fs := fs w'\<rparr>
   in \<exists>v'. load_approval_queue example_env v = (Inr (), v') \<and> queue_values v' = [example_approval]"
proof -
  obtain q where q: "prune_queue (heap example_server) (approval_queue example_server) = Inr q" "q = [0]"
    by (simp add: example_server_simps prune_queue_def processed_flags_def example_approval_def)
  obtain w' where w': "save_approval_queue example_env example_server = (Inr (), w')"
    using save_run [OF q(1)] by blast
  define v where "v = example_server\<lparr>heap := [], approval_queue := [], fs := fs w'\<rparr>"
  have qv: "queue_values w' = [example_approval]"
    using w' save_run [OF q(1), of example_env] q(2) by (auto simp: queue_values_def example_server_simps)
  have nf: "env_save_fault example_env n = None" for n by (simp add: example_env_def)
  have "json_ok (env_float_repr example_env) (env_float_parse example_env) (PList (queue_values w'))"
    by (simp add: qv example_approval_def)
  from approvals_survive_restart [OF w' this, of v] nf
  have "\<exists>v'. load_approval_queue example_env v = (Inr (), v') \<and> queue_values v' = queue_values w'"
    by (simp add: v_def)
  then show ?thesis unfolding Let_def w' snd_conv v_def [symmetric] qv .
qed

end
