(* ===== verification/LifeCycle.thy ===== *)
theory LifeCycle
  imports Frames ApprovalProps
begin

text \<open>
  The life of an approval request as an abstract machine over tickets, and the refinement: every
  handler of \<open>src/main.py\<close>, whatever it returns or raises, performs steps of this machine on the
  entries of the approval queue.
\<close>

section \<open>The abstract machine\<close>

datatype phase = Pending | Approved | Rejected | Unknown

text \<open>Who asked, where the request stands, and who signed it.\<close>

record ticket =
  tk_by :: "pyval option"
  tk_phase :: phase
  tk_signed :: "pyval option"

definition stands :: "ticket list \<Rightarrow> nat \<Rightarrow> phase \<Rightarrow> bool" where
  "stands ts a p \<longleftrightarrow> a < length ts \<and> tk_phase (ts ! a) = p"

text \<open>The steps a caller with key \<open>k\<close> can cause.\<close>

inductive life_step :: "pyval \<Rightarrow> ticket list \<Rightarrow> ticket list \<Rightarrow> bool" for k :: pyval where
  submit: "life_step k ts (ts @ [\<lparr>tk_by = Some k, tk_phase = Pending, tk_signed = None\<rparr>])"
| approve: "stands ts a Pending \<Longrightarrow> tk_by (ts ! a) \<noteq> Some k \<Longrightarrow>
    life_step k ts (ts[a := (ts ! a)\<lparr>tk_phase := Approved, tk_signed := Some k\<rparr>])"
| reject: "stands ts a Pending \<Longrightarrow> tk_by (ts ! a) \<noteq> Some k \<Longrightarrow>
    life_step k ts (ts[a := (ts ! a)\<lparr>tk_phase := Rejected, tk_signed := Some k\<rparr>])"
| expire: "stands ts a Pending \<Longrightarrow> tk_by (ts ! a) \<noteq> Some k \<Longrightarrow>
    life_step k ts (ts[a := (ts ! a)\<lparr>tk_phase := Rejected\<rparr>])"
| withdraw: "stands ts a Approved \<Longrightarrow> tk_signed (ts ! a) = Some k \<Longrightarrow>
    life_step k ts (ts[a := (ts ! a)\<lparr>tk_phase := Rejected\<rparr>])"

definition lives :: "pyval \<Rightarrow> ticket list \<Rightarrow> ticket list \<Rightarrow> bool" where
  "lives k = (life_step k)\<^sup>*\<^sup>*"

inductive_cases life_stepE: "life_step k ts ts'"

text \<open>
  What the machine guarantees: a request is never approved by its requester, never leaves a final
  phase except by withdrawal, and nobody changes who asked for it.
\<close>

definition four_eyes :: "ticket list \<Rightarrow> bool" where
  "four_eyes ts \<longleftrightarrow> (\<forall>t\<in>set ts. tk_phase t = Approved \<longrightarrow> tk_signed t \<noteq> None \<and> tk_signed t \<noteq> tk_by t)"

lemma step_four_eyes: "life_step k ts ts' \<Longrightarrow> four_eyes ts \<Longrightarrow> four_eyes ts'"
  unfolding four_eyes_def by (erule life_stepE) (auto simp: stands_def dest!: set_update_subset_insert [THEN subsetD])

lemma lives_four_eyes: "lives k ts ts' \<Longrightarrow> four_eyes ts \<Longrightarrow> four_eyes ts'"
  unfolding lives_def by (induction rule: rtranclp_induct) (auto intro: step_four_eyes)

text \<open>What happens to one ticket.\<close>

definition later :: "phase \<Rightarrow> phase \<Rightarrow> bool" where
  "later p q \<longleftrightarrow> q = p \<or> p = Pending \<and> q \<in> {Approved, Rejected} \<or> p = Approved \<and> q = Rejected"

lemma step_monotone:
  assumes "life_step k ts ts'" "a < length ts"
  shows "a < length ts' \<and> tk_by (ts' ! a) = tk_by (ts ! a) \<and> later (tk_phase (ts ! a)) (tk_phase (ts' ! a))"
  using assms by (elim life_stepE) (auto simp: stands_def later_def nth_append nth_list_update)

lemma later_trans: "later p q \<Longrightarrow> later q r \<Longrightarrow> later p r"
  by (auto simp: later_def)

lemma lives_monotone:
  assumes "lives k ts ts'" "a < length ts"
  shows "a < length ts' \<and> tk_by (ts' ! a) = tk_by (ts ! a) \<and> later (tk_phase (ts ! a)) (tk_phase (ts' ! a))"
  using assms unfolding lives_def
proof (induction rule: rtranclp_induct)
  case base
  then show ?case by (simp add: later_def)
next
  case (step ys zs)
  then show ?case using step_monotone [OF step.hyps(2), of a] by (auto intro: later_trans)
qed

section \<open>The abstraction\<close>

definition entry_get :: "pyval \<Rightarrow> string \<Rightarrow> pyval option" where
  "entry_get e k = (case e of PDict d \<Rightarrow> map_of d k | _ \<Rightarrow> None)"

definition phase_of :: "pyval \<Rightarrow> phase" where
  "phase_of e =
     (if entry_get e ''status'' = Some (PStr ''pending'') then Pending
      else if entry_get e ''status'' = Some (PStr ''approved'') then Approved
      else if entry_get e ''status'' = Some (PStr ''rejected'') then Rejected
      else Unknown)"

definition ticket_of :: "pyval \<Rightarrow> ticket" where
  "ticket_of e = \<lparr>tk_by = entry_get e ''requested_by'', tk_phase = phase_of e, tk_signed = entry_get e ''approved_by''\<rparr>"

definition tickets :: "'s server_scheme \<Rightarrow> ticket list" where
  "tickets w = map ticket_of (heap w)"

text \<open>The queue refers to entries of the heap, to each once.\<close>

definition queue_ok :: "'s server_scheme \<Rightarrow> bool" where
  "queue_ok w \<longleftrightarrow> (\<forall>a\<in>set (approval_queue w). a < length (heap w)) \<and> distinct (approval_queue w)"

lemma entry_get_simps [simp]:
  "entry_get (PDict d) k = map_of d k" "entry_get PNone k = None"
  by (simp_all add: entry_get_def)

lemma py_item_entry: "py_item e k = Inr v \<longleftrightarrow> entry_get e k = Some v"
  by (cases e) (auto simp: entry_get_def split: option.splits)

text \<open>One step of the server: well-formed to well-formed, by steps of the machine.\<close>

definition refines :: "pyval \<Rightarrow> 's server_scheme \<Rightarrow> 's server_scheme \<Rightarrow> bool" where
  "refines k w w' \<longleftrightarrow> queue_ok w \<longrightarrow> queue_ok w' \<and> lives k (tickets w) (tickets w')"

interpretation ref: state_preorder "refines k" for k
  by unfold_locales (auto simp: refines_def lives_def)

lemma calm_refines: "calm w w' \<Longrightarrow> refines k w w'"
  by (auto simp: calm_def refines_def queue_ok_def tickets_def lives_def)

lemma calm_keeps_refines: "keeps calm m \<Longrightarrow> keeps (refines k) m"
  by (auto simp: keeps_def intro: calm_refines)

section \<open>Changes of the heap\<close>

lemma set_field_run:
  "heap w ! a = PDict d \<Longrightarrow>
     set_field a k v w = (Inr (), w\<lparr>heap := (heap w)[a := PDict (AList.update k v d)]\<rparr>)"
  by (simp add: set_field_def get_entry_def)

lemma prune_queue_subset: "prune_queue h q = Inr q' \<Longrightarrow> subseq q' q"
proof -
  assume p: "prune_queue h q = Inr q'"
  then obtain flags where f: "processed_flags h q = Inr flags"
    and q': "q' = drop_processed (length (filter snd flags) - MAX_PROCESSED_APPROVALS) flags"
    by (auto simp: prune_queue_def rbind_eq_Inr)
  have "map fst flags = q" by (simp add: processed_flags_map [OF f] comp_def)
  then show ?thesis using drop_processed_subseq [of _ flags] q' by metis
qed

text \<open>A save keeps the entries, and its queue is a part of the queue before.\<close>

lemma save_effect:
  assumes "save_approval_queue env w = (r, w')"
  shows "heap w' = heap w \<and> subseq (approval_queue w') (approval_queue w)"
proof (cases "prune_queue (heap w) (approval_queue w)")
  case (Inl e)
  then show ?thesis using assms by (auto simp: save_approval_queue_def bindM_run)
next
  case (Inr q)
  then show ?thesis using assms prune_queue_subset [OF Inr] by (auto simp: save_run [OF Inr])
qed

lemma subseq_distinct: "subseq q q' \<Longrightarrow> distinct q' \<Longrightarrow> distinct q"
  by (induction rule: list_emb.induct) (auto dest: list_emb_set)

lemma subseq_queue_ok:
  "subseq q q' \<Longrightarrow> (\<forall>a\<in>set q'. a < n) \<and> distinct q' \<Longrightarrow> (\<forall>a\<in>set q. a < n) \<and> distinct q"
  using subseq_distinct [of q q'] by (auto dest: list_emb_set)

lemma save_refines: "keeps (refines k) (save_approval_queue env)"
  unfolding keeps_def
proof
  fix w :: "'s server_scheme"
  obtain r w' where s: "save_approval_queue env w = (r, w')" by (cases "save_approval_queue env w")
  from save_effect [OF s] subseq_queue_ok [of "approval_queue w'" "approval_queue w" "length (heap w)"]
  show "refines k w (snd (save_approval_queue env w))"
    by (auto simp: s refines_def queue_ok_def tickets_def lives_def)
qed

section \<open>What a block finds under the lock\<close>

text \<open>\<open>m\<close>, run in \<open>s\<close>, returns only values with \<open>P\<close>.\<close>

definition returns :: "('a \<Rightarrow> bool) \<Rightarrow> ('s, 'a) pym \<Rightarrow> bool" where
  "returns P m \<longleftrightarrow> (\<forall>s x s'. m s = (Inr x, s') \<longrightarrow> P x)"

lemma returns_rules:
  "P x \<Longrightarrow> returns P (returnM x)" "returns P (raiseM e)"
  "(\<And>y. returns P (f y)) \<Longrightarrow> returns P (bindM l f)"
  "returns P m \<Longrightarrow> returns P n \<Longrightarrow> returns P (if b then m else n)"
  "returns P m \<Longrightarrow> (\<And>z. returns P (g z)) \<Longrightarrow> returns P (case p of None \<Rightarrow> m | Some z \<Rightarrow> g z)"
  by (auto simp: returns_def dest!: bindM_run_Inr split: option.split)

text \<open>The entry of the queue that a caller with key \<open>k\<close> may decide.\<close>

definition claimable :: "'s server_scheme \<Rightarrow> pyval \<Rightarrow> nat \<Rightarrow> bool" where
  "claimable w k a \<longleftrightarrow> a \<in> set (approval_queue w)
     \<and> (\<exists>d. heap w ! a = PDict d \<and> map_of d ''status'' = Some (PStr ''pending'')
       \<and> map_of d ''requested_by'' \<noteq> None \<and> map_of d ''requested_by'' \<noteq> Some k)"

lemma find_entry_in: "find_entry h i q = Inr (Some a) \<Longrightarrow> a \<in> set q \<and> py_item (h ! a) ''id'' = Inr (PStr i)"
  by (induction q) (auto simp: rbind_eq_Inr split: if_splits)

lemma pending_entry_run:
  assumes "pending_entry env v i k w = (r, w')"
  shows "w' = w \<and> (\<forall>a. r = Inr (Inr a) \<longrightarrow> claimable w k a \<and> py_item (heap w ! a) ''id'' = Inr (PStr i))"
proof (cases "find_entry (heap w) i (approval_queue w)")
  case (Inl e)
  then show ?thesis using assms by (auto simp: pending_entry_def find_approval_entry_def bindM_run)
next
  case (Inr found)
  show ?thesis
  proof (cases found)
    case None
    then show ?thesis using assms Inr by (auto simp: pending_entry_def find_approval_entry_def bindM_run)
  next
    case (Some a)
    have run: "(bindM (entry_field a ''status'') (\<lambda>status.
         if status \<noteq> PStr ''pending'' then returnM (Inl (detail_response 400 (''Already '' @ str_of env status)))
         else
           bindM (entry_field a ''requested_by'') (\<lambda>requester_key.
           if requester_key = k then
             returnM (Inl (detail_response 403 (''You cannot '' @ v @ '' your own request'')))
           else returnM (Inr a)))) w = (r, w')"
      using assms Inr Some by (simp add: pending_entry_def find_approval_entry_def bindM_run)
    note a = find_entry_in [OF Inr [unfolded Some]]
    have c: "claimable w k a"
      if "py_item (heap w ! a) ''status'' = Inr (PStr ''pending'')" "py_item (heap w ! a) ''requested_by'' = Inr q" "q \<noteq> k" for q
      using a that by (cases "heap w ! a") (auto simp: claimable_def split: option.splits)
    show ?thesis
      using run a c
      by (cases "py_item (heap w ! a) ''status''"; cases "py_item (heap w ! a) ''requested_by''")
        (auto simp: entry_field_def get_entry_def bindM_run split: if_splits dest: c)
  qed
qed

lemma pending_entry_calm: "keeps calm (pending_entry env v i k)"
  unfolding keeps_def
proof
  fix w :: "'s server_scheme"
  have "snd (pending_entry env v i k w) = w" using pending_entry_run by (metis prod.collapse)
  then show "calm w (snd (pending_entry env v i k w))" by (simp add: calm.R_refl)
qed

lemma requester_allowed_calm: "keeps calm (requester_allowed env q r e c)"
  unfolding requester_allowed_def by (intro calm_parts)

lemma returns_after:
  "bindM m f s = (Inr x, s') \<Longrightarrow> (\<And>y s1. m s = (Inr y, s1) \<Longrightarrow> returns P (f y)) \<Longrightarrow> P x"
  unfolding returns_def by (blast dest: bindM_run_Inr)

lemma approve_decide_calm: "keeps calm (approve_decide env i k role)"
  unfolding approve_decide_def Let_def entry_field_def get_entry_def
  by (intro calm_parts pending_entry_calm requester_allowed_calm)

lemma approve_decide_run:
  assumes "approve_decide env i k role w = (Inr d, w')"
  shows "case d of Refuse _ \<Rightarrow> True | Deny a \<Rightarrow> claimable w k a | Grant c \<Rightarrow> claimable w k (cl_entry c)"
proof (rule returns_after [OF assms [unfolded approve_decide_def]], goal_cases)
  case (1 e w1)
  show ?case
  proof (cases e)
    case (Inl r)
    then show ?thesis by (simp add: returns_rules)
  next
    case (Inr a)
    then have c: "claimable w k a" using pending_entry_run [OF 1] by simp
    show ?thesis unfolding Inr sum.case Let_def by (intro returns_rules) (simp_all add: c)
  qed
qed

section \<open>Every block refines the machine\<close>

lemma tickets_update:
  "tickets (w\<lparr>heap := (heap w)[a := e]\<rparr>) = (tickets w)[a := ticket_of e]"
  by (simp add: tickets_def map_update)

lemma claimable_stands:
  assumes "queue_ok w" "claimable w k a"
  shows "stands (tickets w) a Pending \<and> tk_by (tickets w ! a) \<noteq> Some k"
  using assms by (auto simp: claimable_def queue_ok_def stands_def tickets_def ticket_of_def phase_of_def)

text \<open>No entry that was decided before has changed.\<close>

definition settled_same :: "'s server_scheme \<Rightarrow> 's server_scheme \<Rightarrow> bool" where
  "settled_same w w' \<longleftrightarrow> (\<forall>a<length (tickets w). tk_phase (tickets w ! a) \<noteq> Pending \<longrightarrow>
     a < length (tickets w') \<and> tickets w' ! a = tickets w ! a)"

interpretation settled: state_preorder settled_same
  by unfold_locales (auto simp: settled_same_def)

lemma calm_settled: "calm w w' \<Longrightarrow> settled_same w w'"
  by (auto simp: calm_def settled_same_def tickets_def)

lemma pending_settled:
  "stands (tickets w) a Pending \<Longrightarrow> tickets w' = (tickets w)[a := t] \<Longrightarrow> settled_same w w'"
  by (auto simp: settled_same_def stands_def nth_list_update)

text \<open>An entry that was signed by \<open>k\<close> and stands approved.\<close>

definition held :: "pyval \<Rightarrow> nat \<Rightarrow> 's server_scheme \<Rightarrow> bool" where
  "held k a w \<longleftrightarrow> stands (tickets w) a Approved \<and> tk_signed (tickets w ! a) = Some k"

lemma heldE:
  assumes "held k a w"
  obtains d where "a < length (heap w)" "heap w ! a = PDict d" "map_of d ''status'' = Some (PStr ''approved'')"
    "map_of d ''approved_by'' = Some k"
  using assms
  by (cases "heap w ! a")
    (auto simp: held_def stands_def tickets_def ticket_of_def phase_of_def entry_get_def split: if_splits)

text \<open>Writing the fields \<open>xs\<close> of an entry, then saving.\<close>

fun set_fields :: "nat \<Rightarrow> (string \<times> pyval) list \<Rightarrow> ('s server_scheme, unit) pym" where
  "set_fields a [] = returnM ()"
| "set_fields a ((x, v) # xs) = bindM (set_field a x v) (\<lambda>_. set_fields a xs)"

lemma set_fields_run:
  "a < length (heap w) \<Longrightarrow> heap w ! a = PDict d \<Longrightarrow>
     set_fields a xs w = (Inr (), w\<lparr>heap := (heap w)[a := PDict (alist_merge d xs)]\<rparr>)"
proof (induction xs arbitrary: w d)
  case Nil
  then show ?case using list_update_id [of "heap w" a] by simp
next
  case (Cons p xs)
  then show ?case by (cases p) (simp add: bindM_run set_field_run)
qed

text \<open>
  Writing fields of an entry and saving, whether or not the save succeeds, is the step of the
  machine the new fields make of it.
\<close>

lemma write_entry_refines:
  assumes "queue_ok w" and e: "a < length (heap w)" "heap w ! a = PDict d"
    and step: "(tickets w)[a := ticket_of (PDict (alist_merge d xs))] = tickets w
      \<or> life_step k (tickets w) ((tickets w)[a := ticket_of (PDict (alist_merge d xs))])"
    and run: "bindM (set_fields a xs) (\<lambda>_. bindM (save_approval_queue env) (\<lambda>_. returnM x)) w = (r, w')"
  shows "refines k w w' \<and> tickets w' = (tickets w)[a := ticket_of (PDict (alist_merge d xs))]
    \<and> subseq (approval_queue w') (approval_queue w)"
proof -
  let ?w = "w\<lparr>heap := (heap w)[a := PDict (alist_merge d xs)]\<rparr>"
  obtain s w2 where s: "save_approval_queue env ?w = (s, w2)" by (cases "save_approval_queue env ?w")
  have w': "w' = w2" using run s by (auto simp: bindM_run set_fields_run [OF e] split: sum.splits)
  have t: "tickets w' = (tickets w)[a := ticket_of (PDict (alist_merge d xs))]"
    using save_effect [OF s] by (simp add: w' tickets_def map_update)
  have "refines k ?w w2" using save_refines s by (metis ref.keeps_run)
  moreover have "queue_ok ?w" using assms(1) by (simp add: queue_ok_def)
  ultimately have "queue_ok w2" by (simp add: refines_def)
  then show ?thesis using t step save_effect [OF s] by (auto simp: refines_def w' lives_def)
qed

lemma queue_for_approval_refines: "keeps (refines k) (queue_for_approval env raw k role cn)"
proof -
  have step: "refines k w (enqueue_all [e] w)"
    if "entry_get e ''requested_by'' = Some k" "phase_of e = Pending" "entry_get e ''approved_by'' = None"
    for e and w :: "'s server_scheme"
    using life_step.submit [of k "tickets w"] that
    by (auto simp: refines_def queue_ok_def enqueue_all_def tickets_def ticket_of_def lives_def)
  show ?thesis
    unfolding queue_for_approval_def Let_def
    by (intro ref.keeps_bind ref.keeps_return save_refines ref.keeps_modify step
        calm_keeps_refines [OF outer_calm [OF outer_primitives(5)]])
      (simp_all add: phase_of_def)
qed

text \<open>The blocks of the handlers write one entry and save.\<close>

definition write_entry :: "env \<Rightarrow> nat \<Rightarrow> (string \<times> pyval) list \<Rightarrow> 'a \<Rightarrow> ('s server_scheme, 'a) pym" where
  "write_entry env a xs x = bindM (set_fields a xs) (\<lambda>_. bindM (save_approval_queue env) (\<lambda>_. returnM x))"

lemma approve_claim_writes:
  "approve_claim env i k role = bindM (approve_decide env i k role) (\<lambda>d.
     case d of
       Refuse refusal \<Rightarrow> returnM (Inl refusal)
     | Deny a \<Rightarrow> write_entry env a
         [(''status'', PStr ''rejected''), (''result'', PDict [(''error'', PStr REASON_NOT_PERMITTED)])]
         (Inl (detail_response 403 REASON_NOT_PERMITTED))
     | Grant c \<Rightarrow> write_entry env (cl_entry c)
         [(''status'', PStr ''approved''), (''approved_by'', k), (''approver_role'', role)] (Inr c))"
  unfolding approve_claim_def
  by (intro arg_cong [where f = "bindM _"] ext) (auto simp: write_entry_def bindM_assoc split: decision.split)

lemma reject_claim_writes:
  "reject_claim env i k role = bindM (pending_entry env ''reject'' i k) (\<lambda>entry.
     case entry of
       Inl refusal \<Rightarrow> returnM (Inl refusal)
     | Inr a \<Rightarrow> write_entry env a
         [(''status'', PStr ''rejected''), (''result'', PDict [(''error'', PStr ''Rejected by approver'')]),
          (''approved_by'', k), (''approver_role'', role)] (Inr a))"
  unfolding reject_claim_def
  by (intro arg_cong [where f = "bindM _"] ext) (auto simp: write_entry_def bindM_assoc split: sum.split)

lemma no_executable_writes:
  "approve_no_executable env c = write_entry env (cl_entry c)
     [(''status'', PStr ''rejected''), (''result'', PDict [(''error'', PStr NO_EXECUTABLE_ERROR)])]
     (detail_response 400 NO_EXECUTABLE_ERROR)"
  by (simp add: approve_no_executable_def write_entry_def bindM_assoc)

lemma bindM_returnM: "bindM m returnM = m"
  by (auto simp: bindM_def returnM_def split: prod.splits sum.splits)

lemma store_writes:
  "approve_store env c r = write_entry env (cl_entry c) [(''result'', PDict (as_dict r))] ()"
  by (simp add: approve_store_def write_entry_def bindM_assoc bindM_returnM)

lemma claimableE:
  assumes "queue_ok w" "claimable w k a"
  obtains d where "a < length (heap w)" "heap w ! a = PDict d" "map_of d ''status'' = Some (PStr ''pending'')"
    "map_of d ''requested_by'' \<noteq> Some k" "tickets w ! a = ticket_of (PDict d)" "a < length (tickets w)"
  using assms by (auto simp: claimable_def queue_ok_def tickets_def)

lemma approve_claim_run:
  assumes ok: "queue_ok w" and run: "approve_claim env i k role w = (r, w')"
  shows "refines k w w' \<and> settled_same w w' \<and> (\<forall>c. r = Inr (Inr c) \<longrightarrow> stands (tickets w) (cl_entry c) Pending
    \<and> tk_by (tickets w ! cl_entry c) \<noteq> Some k
    \<and> tickets w' = (tickets w)[cl_entry c := (tickets w ! cl_entry c)\<lparr>tk_phase := Approved, tk_signed := Some k\<rparr>])"
proof -
  obtain dr w1 where d: "approve_decide env i k role w = (dr, w1)" by (cases "approve_decide env i k role w")
  have calm: "calm w w1" using calm.keeps_run [OF approve_decide_calm d] .
  have t1: "tickets w1 = tickets w" and ok1: "queue_ok w1"
    using calm ok by (auto simp: calm_def tickets_def queue_ok_def)
  have cl: "claimable w1 k a" if "claimable w k a" for a
    using that calm by (auto simp: calm_def claimable_def)
  have whole: "refines k w w' \<and> settled_same w w'" if "refines k w1 w'" "settled_same w1 w'"
    using ref.R_trans [OF calm_refines [OF calm] that(1)] settled.R_trans [OF calm_settled [OF calm] that(2)] ..
  show ?thesis
  proof (cases dr)
    case (Inl e)
    then show ?thesis using run d calm by (auto simp: approve_claim_writes bindM_run intro: calm_refines calm_settled)
  next
    case (Inr dec)
    note found = approve_decide_run [OF d [unfolded Inr]]
    show ?thesis
    proof (cases dec)
      case (Refuse x)
      then show ?thesis using run d calm Inr by (auto simp: approve_claim_writes bindM_run intro: calm_refines calm_settled)
    next
      case (Deny a)
      then have c: "claimable w1 k a" using found cl by simp
      from claimableE [OF ok1 c] obtain e where e: "a < length (heap w1)" "heap w1 ! a = PDict e" and t: "tickets w1 ! a = ticket_of (PDict e)" by blast
      have run': "write_entry env a [(''status'', PStr ''rejected''), (''result'', PDict [(''error'', PStr REASON_NOT_PERMITTED)])]
          (Inl (detail_response 403 REASON_NOT_PERMITTED)) w1 = (r, w')"
        using run d Inr Deny by (simp add: approve_claim_writes bindM_run)
      have "refines k w1 w' \<and> tickets w' = (tickets w1)[a := (tickets w1 ! a)\<lparr>tk_phase := Rejected\<rparr>]"
        using write_entry_refines [where k = k, OF ok1 e _ run' [unfolded write_entry_def]]
          life_step.expire [of "tickets w1" a k] claimable_stands [OF ok1 c]
        by (simp add: t ticket_of_def phase_of_def)
      moreover have "r \<noteq> Inr (Inr x)" for x
        using run' by (auto simp: write_entry_def bindM_run set_fields_run [OF e] split: prod.splits sum.splits)
      ultimately show ?thesis
        using whole pending_settled [of w1 a] claimable_stands [OF ok1 c] by blast
    next
      case (Grant cm)
      let ?a = "cl_entry cm"
      have c: "claimable w1 k ?a" using found cl Grant by simp
      from claimableE [OF ok1 c] obtain e where e: "?a < length (heap w1)" "heap w1 ! ?a = PDict e" and t: "tickets w1 ! ?a = ticket_of (PDict e)" by blast
      have run': "write_entry env ?a [(''status'', PStr ''approved''), (''approved_by'', k), (''approver_role'', role)] (Inr cm) w1 = (r, w')"
        using run d Inr Grant by (simp add: approve_claim_writes bindM_run)
      have "refines k w1 w' \<and> tickets w' = (tickets w1)[?a := (tickets w1 ! ?a)\<lparr>tk_phase := Approved, tk_signed := Some k\<rparr>]"
        using write_entry_refines [where k = k, OF ok1 e _ run' [unfolded write_entry_def]]
          life_step.approve [of "tickets w1" ?a k] claimable_stands [OF ok1 c]
        by (simp add: t ticket_of_def phase_of_def)
      moreover have "x = cm" if "r = Inr (Inr x)" for x
        using run' that by (auto simp: write_entry_def bindM_run set_fields_run [OF e] split: prod.splits sum.splits)
      ultimately show ?thesis
        using whole pending_settled [of w1 ?a] claimable_stands [OF ok1 c] unfolding t1 by blast
    qed
  qed
qed

lemma reject_claim_run:
  assumes run: "reject_claim env i k role w = (r, w')"
  shows "refines k w w' \<and> (queue_ok w \<longrightarrow> settled_same w w')"
proof -
  obtain er w1 where p: "pending_entry env ''reject'' i k w = (er, w1)" by (cases "pending_entry env ''reject'' i k w")
  note pe = pending_entry_run [OF p]
  show ?thesis
  proof (cases "\<exists>a. er = Inr (Inr a) \<and> queue_ok w")
    case False
    then show ?thesis
      using run p pe
      by (auto simp: reject_claim_writes bindM_run refines_def lives_def settled.R_refl split: sum.splits)
  next
    case True
    then obtain a where a: "er = Inr (Inr a)" and ok: "queue_ok w" by blast
    have c: "claimable w k a" using pe a by simp
    from claimableE [OF ok c] obtain e where e: "a < length (heap w)" "heap w ! a = PDict e" and t: "tickets w ! a = ticket_of (PDict e)" by blast
    have run': "write_entry env a
        [(''status'', PStr ''rejected''), (''result'', PDict [(''error'', PStr ''Rejected by approver'')]),
         (''approved_by'', k), (''approver_role'', role)] (Inr a) w = (r, w')"
      using run p pe a by (simp add: reject_claim_writes bindM_run)
    have "refines k w w' \<and> tickets w' = (tickets w)[a := (tickets w ! a)\<lparr>tk_phase := Rejected, tk_signed := Some k\<rparr>]"
      using write_entry_refines [where k = k, OF ok e _ run' [unfolded write_entry_def]]
        life_step.reject [of "tickets w" a k] claimable_stands [OF ok c]
      by (simp add: t ticket_of_def phase_of_def)
    then show ?thesis using pending_settled [of w a] claimable_stands [OF ok c] by blast
  qed
qed

lemma reject_claim_refines: "keeps (refines k) (reject_claim env i k role)"
  unfolding keeps_def by (metis prod.collapse reject_claim_run)

lemma calm_held: "calm w w' \<Longrightarrow> held k a w \<Longrightarrow> held k a w'"
  and calm_queue_ok: "calm w w' \<Longrightarrow> queue_ok w \<Longrightarrow> queue_ok w'"
  by (auto simp: calm_def held_def tickets_def queue_ok_def)

text \<open>Behind a calm part the claimed entry is still held.\<close>

lemma refines_after_calm:
  assumes "keeps calm m" "queue_ok w" "held k a w"
    and "\<And>x w1. queue_ok w1 \<Longrightarrow> held k a w1 \<Longrightarrow> refines k w1 (snd (f x w1))"
  shows "refines k w (snd (bindM m f w))"
proof -
  obtain r w1 where m: "m w = (r, w1)" by (cases "m w")
  have c: "calm w w1" by (rule calm.keeps_run [OF assms(1) m])
  show ?thesis
  proof (cases r)
    case (Inl e)
    then show ?thesis using m c by (simp add: bindM_run calm_refines)
  next
    case (Inr x)
    then have "refines k w1 (snd (bindM m f w))"
      using m assms(4) [OF calm_queue_ok [OF c assms(2)] calm_held [OF c assms(3)]] by (simp add: bindM_run)
    then show ?thesis using calm_refines [OF c] by (rule ref.R_trans [rotated])
  qed
qed

lemma no_executable_run:
  assumes ok: "queue_ok w" and h: "held k (cl_entry c) w" and run: "approve_no_executable env c w = (r, w')"
  shows "refines k w w' \<and> tickets w' = (tickets w)[cl_entry c := (tickets w ! cl_entry c)\<lparr>tk_phase := Rejected\<rparr>]"
proof -
  from h obtain d where d: "cl_entry c < length (heap w)" "heap w ! cl_entry c = PDict d" by (rule heldE)
  have t: "tickets w ! cl_entry c = ticket_of (PDict d)" using d by (simp add: tickets_def)
  show ?thesis
    using write_entry_refines [where k = k, OF ok d _ run [unfolded no_executable_writes write_entry_def]]
      life_step.withdraw [of "tickets w" "cl_entry c" k] h
    by (simp add: held_def t ticket_of_def phase_of_def)
qed

lemma store_run:
  assumes ok: "queue_ok w" and h: "held k (cl_entry c) w" and run: "approve_store env c x w = (r, w')"
  shows "refines k w w' \<and> tickets w' = tickets w"
proof -
  from h obtain d where d: "cl_entry c < length (heap w)" "heap w ! cl_entry c = PDict d" by (rule heldE)
  have t: "ticket_of (PDict (AList.update ''result'' v d)) = tickets w ! cl_entry c" for v
    using d by (simp add: tickets_def ticket_of_def phase_of_def)
  show ?thesis
    using write_entry_refines [where k = k, OF ok d _ run [unfolded store_writes write_entry_def]] by (simp add: t)
qed

lemma approve_execute_calm: "keeps calm (approve_execute env c)"
  unfolding approve_execute_def by (rule execute_calm)

lemma approve_report_calm: "keeps calm (approve_report env i k role c r)"
  unfolding approve_report_def entry_field_def get_entry_def by (intro calm_parts)

lemma record_calm: "keeps calm (if b then cooldown_record env key else returnM ())"
  by (intro calm_parts)

lemma approve_run_refines:
  assumes "queue_ok w" "held k (cl_entry c) w"
  shows "refines k w (snd (approve_run env i k role c w))"
  unfolding approve_run_def
proof (rule refines_after_calm [OF approve_execute_calm assms])
  fix x and w1 :: "'a server_scheme"
  assume w1: "queue_ok w1" "held k (cl_entry c) w1"
  show "refines k w1 (snd ((case x of None \<Rightarrow> approve_no_executable env c
     | Some r \<Rightarrow>
         bindM (if cooldown_applies (cl_payload c) (cl_cooldown_seconds c) then cooldown_record env (cl_key c)
                else returnM ()) (\<lambda>_.
         bindM (approve_store env c r) (\<lambda>_. approve_report env i k role c r))) w1))"
  proof (cases x)
    case None
    obtain s w2 where "approve_no_executable env c w1 = (s, w2)" by (cases "approve_no_executable env c w1")
    then show ?thesis using no_executable_run [OF w1] by (simp add: None)
  next
    case (Some r)
    have "refines k w2 (snd (bindM (approve_store env c r) (\<lambda>_. approve_report env i k role c r) w2))"
      if w2: "queue_ok w2" "held k (cl_entry c) w2" for w2 :: "'a server_scheme"
    proof -
      obtain s w3 where s: "approve_store env c r w2 = (s, w3)" by (cases "approve_store env c r w2")
      obtain t w4 where rep: "approve_report env i k role c r w3 = (t, w4)" by (cases "approve_report env i k role c r w3")
      have "refines k w2 w3" using store_run [OF w2 s] ..
      moreover have "refines k w3 w4" by (rule ref.keeps_run [OF calm_keeps_refines [OF approve_report_calm] rep])
      ultimately have "refines k w2 w4" by (rule ref.R_trans)
      then show ?thesis using \<open>refines k w2 w3\<close> by (cases s) (simp_all add: bindM_run s rep)
    qed
    then show ?thesis unfolding Some option.case by (rule refines_after_calm [OF record_calm w1])
  qed
qed

section \<open>Every request refines the machine\<close>

lemma approve_refines: "keeps (refines k) (approve_approval env i k)"
proof -
  define m :: "pyval \<Rightarrow> ('a server_scheme, response) pym" where
    "m = (\<lambda>role. bindM (approve_claim env i k role) (\<lambda>claimed.
       case claimed of Inl refusal \<Rightarrow> returnM refusal | Inr c \<Rightarrow> approve_run env i k role c))"
  have m: "refines k w (snd (m role w))" for role w
  proof -
    obtain cr w1 where c: "approve_claim env i k role w = (cr, w1)" by (cases "approve_claim env i k role w")
    show ?thesis
    proof (cases "queue_ok w")
      case False
      then show ?thesis by (simp add: refines_def)
    next
      case True
      note cl = approve_claim_run [OF True c]
      show ?thesis
      proof (cases "\<exists>x. cr = Inr (Inr x)")
        case False
        then show ?thesis using c cl by (auto simp: m_def bindM_run split: sum.splits)
      next
        case True
        then obtain x where x: "cr = Inr (Inr x)" ..
        have ok: "queue_ok w1" using cl \<open>queue_ok w\<close> by (simp add: refines_def)
        have "held k (cl_entry x) w1" using cl x by (simp add: held_def stands_def)
        from approve_run_refines [OF ok this] cl x c show ?thesis
          by (auto simp: m_def bindM_run intro: ref.R_trans)
      qed
    qed
  qed
  then have m: "keeps (refines k) (m role)" for role by (simp add: keeps_def)
  show ?thesis
    unfolding approve_approval_def
    by (rule m [unfolded m_def] calm_keeps_refines [OF outer_calm [OF role_outer]]
        calm_keeps_refines [OF outer_calm [OF has_permission_outer]] ref.keeps_if ref.keeps_return ref.keeps_bind)+
qed

lemma reject_refines: "keeps (refines k) (reject_approval env i k)"
  unfolding reject_approval_def entry_field_def get_entry_def
  by (intro ref.keeps_rules keeps_cases reject_claim_refines calm_keeps_refines [OF write_audit_log_calm]
      calm_keeps_refines [OF outer_calm] role_outer has_permission_outer)

lemma webhook_refines: "keeps (refines k) (webhook env body k ip)"
  unfolding webhook_def Let_def
  by (intro keeps_cases ref.keeps_rules queue_for_approval_refines calm_keeps_refines [OF rate_gate_calm]
      calm_keeps_refines [OF authorize_calm] calm_keeps_refines [OF webhook_execute_calm]
      calm_keeps_refines [OF outer_calm] role_outer action_config_outer)

lemma reads_calm:
  "keeps calm (list_approvals env k)" "keeps calm (get_audit env k q)" "keeps calm (get_audit_verify env k)"
  "keeps calm (can_override_controller env k)"
  unfolding list_approvals_def get_audit_def get_audit_verify_def can_override_controller_def
  by (intro calm_parts)+

lemma handle_refines: "keeps (refines k) (handle env version req k)"
  by (cases req) (simp_all add: ref.keeps_return webhook_refines approve_refines reject_refines
      calm_keeps_refines [OF reads_calm(1)] calm_keeps_refines [OF reads_calm(2)]
      calm_keeps_refines [OF reads_calm(3)] calm_keeps_refines [OF reads_calm(4)])

lemma answer_keeps: "keeps (refines (opt_str api_key)) (answer env version req api_key)"
  unfolding answer_def serve_def dispatch_def
  by (intro ref.keeps_rules handle_refines calm_keeps_refines [OF outer_calm] valid_keys_outer)

lemma example_server_ok: "queue_ok example_server" "four_eyes (tickets example_server)"
  by (simp_all add: queue_ok_def four_eyes_def tickets_def example_server_simps example_approval_def ticket_of_def phase_of_def)

text \<open>
  C4. Whatever a request returns, and also when its handler raises, the entries of the approval queue
  change only by steps of the abstract machine, taken in the name of the caller's key: a caller
  submits requests of their own, approves or rejects pending requests of others, withdraws what they
  approved themselves, and does nothing else. The queue stays well-formed.
\<close>

theorem requests_refine_approvals:
  assumes "queue_ok w" and "answer env version req api_key w = (r, w')"
  shows "queue_ok w' \<and> lives (opt_str api_key) (tickets w) (tickets w')"
  using ref.keeps_run [OF answer_keeps assms(2)] assms(1) by (simp add: refines_def)

theorem requests_refine_approvals_witness:
  "let w' = snd (answer example_env None (ApproveApproval ''r1'') (Some ''bob'') example_server)
   in queue_ok w' \<and> lives (PStr ''bob'') (tickets example_server) (tickets w')"
proof -
  obtain r w' where run: "answer example_env None (ApproveApproval ''r1'') (Some ''bob'') example_server = (r, w')"
    by fastforce
  show ?thesis
    using requests_refine_approvals [OF example_server_ok(1) run] by (simp add: run opt_str_def)
qed

text \<open>A history of requests, answered one after the other.\<close>

fun answers :: "env \<Rightarrow> string option \<Rightarrow> (request \<times> string option) list \<Rightarrow> 's server_scheme \<Rightarrow> 's server_scheme" where
  "answers env version [] w = w"
| "answers env version ((req, api_key) # reqs) w = answers env version reqs (snd (answer env version req api_key w))"

lemma answer_step: "refines (opt_str key) w (snd (answer env version req key w))"
  using answer_keeps unfolding keeps_def by blast

text \<open>
  C5. Two keys for every execution of a queued request: if no entry is approved by its requester at the
  start, none ever is, whatever requests arrive with whatever keys; an entry keeps its requester, and
  once it was approved or rejected it never becomes pending again.
\<close>

theorem approvals_need_two_keys:
  assumes "queue_ok w" "four_eyes (tickets w)"
  shows "four_eyes (tickets (answers env version reqs w))
    \<and> (\<forall>a<length (heap w). let w' = answers env version reqs w in a < length (heap w')
        \<and> entry_get (heap w' ! a) ''requested_by'' = entry_get (heap w ! a) ''requested_by''
        \<and> later (phase_of (heap w ! a)) (phase_of (heap w' ! a)))"
proof -
  have "four_eyes (tickets w') \<and> (\<forall>a<length (tickets w). a < length (tickets w')
      \<and> tk_by (tickets w' ! a) = tk_by (tickets w ! a) \<and> later (tk_phase (tickets w ! a)) (tk_phase (tickets w' ! a)))"
    if "w' = answers env version reqs w" for w'
    using assms that
  proof (induction env version reqs w arbitrary: w' rule: answers.induct)
    case (1 env version w)
    then show ?case by (simp add: later_def)
  next
    case (2 env version req key reqs w)
    let ?w = "snd (answer env version req key w)"
    have step: "queue_ok ?w" "lives (opt_str key) (tickets w) (tickets ?w)"
      using answer_step [of key w env version req] 2(2) by (auto simp: refines_def)
    note ih = 2(1) [OF step(1) lives_four_eyes [OF step(2) 2(3)]]
    show ?case using ih [of w'] lives_monotone [OF step(2)] 2(4) by (auto intro: later_trans)
  qed
  from this [OF refl] show ?thesis
    by (simp add: Let_def) (auto simp: tickets_def ticket_of_def)
qed

theorem approvals_need_two_keys_witness:
  "let w' = answers example_env None [(ApproveApproval ''r1'', Some ''alice''), (ApproveApproval ''r1'', Some ''bob'')] example_server
   in four_eyes (tickets w') \<and> entry_get (heap w' ! 0) ''requested_by'' = Some (PStr ''alice'')"
  using approvals_need_two_keys [OF example_server_ok, of example_env None
      "[(ApproveApproval ''r1'', Some ''alice''), (ApproveApproval ''r1'', Some ''bob'')]"]
  by (simp add: Let_def example_server_simps example_approval_def)

section \<open>An example: a request of alice that bob approves\<close>

definition approval_env :: env where
  "approval_env = example_env\<lparr>
     env_auth_yaml := \<lambda>n. Inr (PDict
       [(''api_keys'', PDict [(''alice'', PStr ''operator''), (''bob'', PStr ''lead'')]),
        (''roles'', PDict
          [(''operator'', PDict [(''permissions'', PList [PStr ''execute_actions''])]),
           (''lead'', PDict [(''permissions'', PList [PStr ''approve_actions'', PStr ''audit_read''])])])]),
     env_controllers_yaml := \<lambda>n. Inr (PDict [(''controllers'', PDict [(''local'', PDict [(''type'', PStr ''local'')])])]),
     env_proc := \<lambda>n cmd. ProcDone 0 ''ok'' [],
     env_payload := \<lambda>d. Inr \<lparr>wp_event_type = ''restart'', wp_controller_override = None, wp_parameters = Some [],
       wp_dry_run = Some False, wp_approval_required = Some True\<rparr>\<rparr>"

definition approval_claim :: claim where
  "approval_claim =
     \<lparr>cl_entry = 0,
      cl_payload = \<lparr>wp_event_type = ''restart'', wp_controller_override = None, wp_parameters = Some [],
        wp_dry_run = Some False, wp_approval_required = Some True\<rparr>,
      cl_action_config = PDict [(''command'', PStr ''systemctl restart nginx''), (''default_controller'', PStr ''local''),
        (''cooldown_seconds'', PInt 300)],
      cl_controller_name = PStr ''local'', cl_controller_config = PDict [(''type'', PStr ''local'')], cl_params = [],
      cl_cooldown_seconds = PInt 300, cl_key = make_key ''restart'' ''local'' None\<rparr>"

lemma example_decide:
  "\<exists>w'. approve_decide approval_env ''r1'' (PStr ''bob'') (PStr ''lead'') (example_server\<lparr>tick := n\<rparr>) = (Inr (Grant approval_claim), w')"
  by (simp add: approve_decide_def pending_entry_def find_approval_entry_def bindM_run entry_field_def get_entry_def
      example_server_simps example_approval_def stored_payload_def approval_env_def get_action_config_def
      chosen_controller_def opt_true_def get_controller_config_def load_controllers_config_def requester_allowed_def
      has_permission_def load_auth_config_def permission_in_def is_action_allowed_for_key_def
      is_controller_allowed_for_key_def get_key_scope_def resolve_api_keys_def py_or_def py_is_dict_def Let_def
      normalize_key_entry_def scope_allows_def merged_params_def cooldown_key_for_def cooldown_applies_def opt_bool_def
      cooldown_remaining_def seconds_remaining_def approval_claim_def dget_def str_of_def)

lemma example_claimed_at:
  "\<exists>w'. approve_claim approval_env ''r1'' (PStr ''bob'') (PStr ''lead'') (example_server\<lparr>tick := n\<rparr>) = (Inr (Inr approval_claim), w')"
proof -
  obtain w1 where d: "approve_decide approval_env ''r1'' (PStr ''bob'') (PStr ''lead'') (example_server\<lparr>tick := n\<rparr>) = (Inr (Grant approval_claim), w1)"
    using example_decide by blast
  then have w1: "heap w1 = [example_approval]" "approval_queue w1 = [0]"
    using calm.keeps_run [OF approve_decide_calm d] by (auto simp: calm_def example_server_simps)
  obtain d0 where d0: "example_approval = PDict d0" by (simp add: example_approval_def)
  define xs where "xs = [(''status'', PStr ''approved''), (''approved_by'', PStr ''bob''), (''approver_role'', PStr ''lead'')]"
  have f: "set_fields 0 xs w1 = (Inr (), w1\<lparr>heap := [PDict (alist_merge d0 xs)]\<rparr>)"
    by (subst set_fields_run [where a = 0]) (simp_all add: w1 d0)
  have "map_of (alist_merge d0 xs) ''status'' = Some (PStr ''approved'')" by (simp add: xs_def)
  then have p: "prune_queue (heap (w1\<lparr>heap := [PDict (alist_merge d0 xs)]\<rparr>)) (approval_queue (w1\<lparr>heap := [PDict (alist_merge d0 xs)]\<rparr>)) = Inr [0]"
    by (simp add: w1 prune_queue_def processed_flags_def MAX_PROCESSED_APPROVALS_def)
  show ?thesis
    using d f save_run [OF p, of approval_env]
    unfolding approve_claim_writes xs_def by (simp add: bindM_run write_entry_def approval_claim_def)
qed

lemma example_claimed:
  "\<exists>w'. approve_claim approval_env ''r1'' (PStr ''bob'') (PStr ''lead'') example_server = (Inr (Inr approval_claim), w')"
proof -
  have "example_server\<lparr>tick := 0\<rparr> = example_server" using example_server_simps(4) by (cases example_server) simp
  then show ?thesis using example_claimed_at [of 0] by simp
qed

end
