(* ===== verification/Interleaving.thy ===== *)
theory Interleaving
  imports LifeCycle
begin

text \<open>
  Approvals under concurrency. FastAPI runs the approval handlers in a pool of threads; only the
  blocks under \<open>approval_lock\<close> exclude each other, and an approval executes between two of them. Here
  the system is the server, the approvals on their way (with the key of the approver and how far they
  are) and the list of executions so far; a step is one block of one handler, the end of a
  handler that raised, or anything another handler does that leaves the queue alone.
\<close>

section \<open>The system\<close>

datatype stage = Claimed | Ran "exec_result option"

type_synonym job = "pyval \<times> claim \<times> stage"
type_synonym 's system = "'s server_scheme \<times> job list \<times> (nat \<times> pyval) list"

inductive sys_step :: "env \<Rightarrow> 's system \<Rightarrow> 's system \<Rightarrow> bool" for env where
  other: "calm w w' \<Longrightarrow> sys_step env (w, js, rs) (w', js, rs)"
| submit: "queue_for_approval env raw key role cn w = (r, w') \<Longrightarrow> sys_step env (w, js, rs) (w', js, rs)"
| claimed: "approve_claim env i key role w = (Inr (Inr c), w') \<Longrightarrow>
    sys_step env (w, js, rs) (w', (key, c, Claimed) # js, rs)"
| refused: "approve_claim env i key role w = (r, w') \<Longrightarrow> (\<And>c. r \<noteq> Inr (Inr c)) \<Longrightarrow>
    sys_step env (w, js, rs) (w', js, rs)"
| rejected: "reject_claim env i key role w = (r, w') \<Longrightarrow> sys_step env (w, js, rs) (w', js, rs)"
| execute: "approve_execute env c w = (Inr x, w') \<Longrightarrow>
    sys_step env (w, js1 @ (key, c, Claimed) # js2, rs) (w', js1 @ (key, c, Ran x) # js2, rs @ [(cl_entry c, key)])"
| crash: "approve_execute env c w = (Inl e, w') \<Longrightarrow>
    sys_step env (w, js1 @ (key, c, Claimed) # js2, rs) (w', js1 @ js2, rs @ [(cl_entry c, key)])"
| withdraw: "approve_no_executable env c w = (r, w') \<Longrightarrow>
    sys_step env (w, js1 @ (key, c, Ran None) # js2, rs) (w', js1 @ js2, rs)"
| store: "approve_store env c x w = (r, w') \<Longrightarrow>
    sys_step env (w, js1 @ (key, c, Ran (Some x)) # js2, rs) (w', js1 @ js2, rs)"
| abandon: "sys_step env (w, js1 @ j # js2, rs) (w, js1 @ js2, rs)"

definition job_entry :: "job \<Rightarrow> nat" where
  "job_entry j = (case j of (_, c, _) \<Rightarrow> cl_entry c)"

lemma job_entry_simp [simp]: "job_entry (k, c, st) = cl_entry c"
  by (simp add: job_entry_def)

section \<open>The invariant\<close>

text \<open>Entry \<open>a\<close> was signed by \<open>k\<close>, who did not ask for it.\<close>

definition signed :: "pyval \<Rightarrow> nat \<Rightarrow> 's server_scheme \<Rightarrow> bool" where
  "signed k a w \<longleftrightarrow> a < length (tickets w) \<and> tk_phase (tickets w ! a) \<in> {Approved, Rejected}
     \<and> tk_signed (tickets w ! a) = Some k \<and> tk_by (tickets w ! a) \<noteq> Some k"

definition job_ok :: "'s server_scheme \<Rightarrow> (nat \<times> pyval) list \<Rightarrow> job \<Rightarrow> bool" where
  "job_ok w rs j \<longleftrightarrow> (case j of (k, c, st) \<Rightarrow>
     held k (cl_entry c) w \<and> signed k (cl_entry c) w \<and> (st = Claimed \<longrightarrow> cl_entry c \<notin> fst ` set rs))"

definition sys_ok :: "'s system \<Rightarrow> bool" where
  "sys_ok s \<longleftrightarrow> (case s of (w, js, rs) \<Rightarrow>
     queue_ok w \<and> distinct (map job_entry js) \<and> (\<forall>j\<in>set js. job_ok w rs j)
     \<and> distinct (map fst rs) \<and> (\<forall>(a, k)\<in>set rs. signed k a w))"

lemma settled_signed: "settled_same w w' \<Longrightarrow> signed k a w \<Longrightarrow> signed k a w'"
  unfolding settled_same_def signed_def by (metis insertE phase.distinct(1,3) singletonD)

lemma settled_held: "settled_same w w' \<Longrightarrow> held k a w \<Longrightarrow> held k a w'"
  unfolding settled_same_def held_def stands_def by (metis phase.distinct(1))

lemma job_ok_changes:
  "settled_same w w' \<Longrightarrow> job_ok w rs j \<Longrightarrow> job_ok w' rs j"
  "job_ok w rs j \<Longrightarrow> job_entry j \<noteq> a \<Longrightarrow> job_ok w (rs @ [(a, k)]) j"
  "job_ok w rs (k, c, Claimed) \<Longrightarrow> job_ok w rs' (k, c, Ran x)"
  by (cases j; auto simp: job_ok_def intro: settled_signed settled_held)+

lemma sys_ok_settled:
  "sys_ok (w, js, rs) \<Longrightarrow> settled_same w w' \<Longrightarrow> queue_ok w' \<Longrightarrow> sys_ok (w', js, rs)"
  by (fastforce simp: sys_ok_def intro: settled_signed job_ok_changes(1))

lemma sys_ok_calm: "sys_ok (w, js, rs) \<Longrightarrow> calm w w' \<Longrightarrow> sys_ok (w', js, rs)"
  by (rule sys_ok_settled) (auto simp: sys_ok_def intro: calm_settled calm_queue_ok)

lemma sys_ok_drop: "sys_ok (w, js1 @ j # js2, rs) \<Longrightarrow> sys_ok (w, js1 @ js2, rs)"
  by (auto simp: sys_ok_def)

lemma queue_settled: "keeps settled_same (queue_for_approval env raw key role cn)"
proof -
  have e: "settled_same w (enqueue_all vs w)" for vs and w :: "'s server_scheme"
    by (auto simp: settled_same_def enqueue_all_def tickets_def nth_append)
  have s: "keeps settled_same (save_approval_queue env)"
    unfolding keeps_def by (metis calm_settled prod.collapse save_effect settled_same_def tickets_def)
  show ?thesis
    unfolding queue_for_approval_def Let_def
    by (intro settled.keeps_bind settled.keeps_return s settled.keeps_modify e) (simp add: keeps_def settled_same_def tickets_def)
qed

lemma job_held: "sys_ok (w, js1 @ (k, c, st) # js2, rs) \<Longrightarrow>
    queue_ok w \<and> held k (cl_entry c) w \<and> signed k (cl_entry c) w"
  by (auto simp: sys_ok_def job_ok_def)

lemma sys_ok_execute:
  assumes "sys_ok (w, js1 @ (k, c, Claimed) # js2, rs)" "calm w w'"
  shows "sys_ok (w', js1 @ (k, c, Ran x) # js2, rs @ [(cl_entry c, k)])"
proof -
  have ok: "sys_ok (w', js1 @ (k, c, Claimed) # js2, rs)" by (rule sys_ok_calm [OF assms])
  then have c: "job_ok w' rs (k, c, Claimed)"
    and others: "\<And>j. j \<in> set (js1 @ js2) \<Longrightarrow> job_ok w' rs j \<and> job_entry j \<noteq> cl_entry c"
    by (auto simp: sys_ok_def image_iff)
  have "job_ok w' (rs @ [(cl_entry c, k)]) j" if "j \<in> set (js1 @ (k, c, Ran x) # js2)" for j
    using that others [of j] job_ok_changes(2) [of w' rs j "cl_entry c" k] job_ok_changes(3) [OF c]
    by auto
  moreover have "cl_entry c \<notin> fst ` set rs" "signed k (cl_entry c) w'" using c by (auto simp: job_ok_def)
  ultimately show ?thesis using ok by (simp add: sys_ok_def)
qed

lemma sys_step_ok: "sys_step env s s' \<Longrightarrow> sys_ok s \<Longrightarrow> sys_ok s'"
proof (induction rule: sys_step.induct)
  case (other w w' js rs)
  then show ?case by (auto intro: sys_ok_calm)
next
  case (submit raw key role cn w r w' js rs)
  have "settled_same w w'" by (rule settled.keeps_run [OF queue_settled submit(1)])
  moreover have "refines key w w'" by (rule ref.keeps_run [OF queue_for_approval_refines submit(1)])
  ultimately show ?case using submit(2) by (intro sys_ok_settled [OF submit(2)]) (auto simp: refines_def sys_ok_def)
next
  case (claimed i key role w c w' js rs)
  have ok: "queue_ok w" using claimed(2) by (simp add: sys_ok_def)
  note cl = approve_claim_run [OF ok claimed(1)]
  have old: "sys_ok (w', js, rs)" using cl ok by (intro sys_ok_settled [OF claimed(2)]) (auto simp: refines_def)
  have "cl_entry c \<notin> set (map job_entry js)"
    using claimed(2) cl by (auto simp: sys_ok_def job_ok_def held_def stands_def)
  moreover have "cl_entry c \<notin> fst ` set rs"
    using claimed(2) cl by (force simp: sys_ok_def signed_def stands_def)
  moreover have "held key (cl_entry c) w'" "signed key (cl_entry c) w'"
    using cl by (auto simp: held_def signed_def stands_def)
  ultimately show ?case using old by (auto simp: sys_ok_def job_ok_def)
next
  case (refused i key role w r w' js rs)
  have ok: "queue_ok w" using refused(3) by (simp add: sys_ok_def)
  show ?case
    using approve_claim_run [OF ok refused(1)] ok by (intro sys_ok_settled [OF refused(3)]) (auto simp: refines_def)
next
  case (rejected i key role w r w' js rs)
  have "queue_ok w" using rejected(2) by (simp add: sys_ok_def)
  then show ?case
    using reject_claim_run [OF rejected(1)] by (intro sys_ok_settled [OF rejected(2)]) (auto simp: refines_def)
next
  case (execute c w x w' js1 key js2 rs)
  show ?case by (rule sys_ok_execute [OF execute(2) calm.keeps_run [OF approve_execute_calm execute(1)]])
next
  case (crash c w e w' js1 key js2 rs)
  show ?case
    by (rule sys_ok_drop [OF sys_ok_execute [OF crash(2) calm.keeps_run [OF approve_execute_calm crash(1)]]])
next
  case (withdraw c w r w' js1 key js2 rs)
  note h = job_held [OF withdraw(2)]
  note ne = no_executable_run [OF _ _ withdraw(1), of key]
  have t: "tickets w' = (tickets w)[cl_entry c := (tickets w ! cl_entry c)\<lparr>tk_phase := Rejected\<rparr>]" "queue_ok w'"
    using ne h by (auto simp: refines_def)
  have sg: "signed k a w'" if "signed k a w" for k a
    using that h by (auto simp: signed_def t nth_list_update)
  have hd: "held k a w'" if "held k a w" "a \<noteq> cl_entry c" for k a
    using that by (simp add: held_def stands_def t nth_list_update)
  have "job_ok w rs j \<and> job_entry j \<noteq> cl_entry c" if "j \<in> set (js1 @ js2)" for j
    using withdraw(2) that by (auto simp: sys_ok_def image_iff)
  moreover have "job_ok w rs j \<and> job_entry j \<noteq> cl_entry c \<Longrightarrow> job_ok w' rs j" for j
    using sg hd by (cases j) (auto simp: job_ok_def)
  ultimately have jobs: "job_ok w' rs j" if "j \<in> set (js1 @ js2)" for j
    using that by blast
  have "\<forall>(a, k)\<in>set rs. signed k a w'"
    using withdraw(2) sg by (auto simp: sys_ok_def)
  then show ?case using sys_ok_drop [OF withdraw(2)] t(2) jobs by (simp add: sys_ok_def)
next
  case (store c x w r w' js1 key js2 rs)
  note h = job_held [OF store(2)]
  have "tickets w' = tickets w" "queue_ok w'"
    using store_run [OF _ _ store(1), of key] h by (auto simp: refines_def)
  then show ?case using sys_ok_drop [OF store(2)] by (simp add: sys_ok_def job_ok_def held_def signed_def)
next
  case (abandon w js1 j js2 rs)
  then show ?case by (rule sys_ok_drop)
qed

lemma sys_steps_ok: "(sys_step env)\<^sup>*\<^sup>* s s' \<Longrightarrow> sys_ok s \<Longrightarrow> sys_ok s'"
  by (induction rule: rtranclp_induct) (auto intro: sys_step_ok)

section \<open>The handlers are runs of the system\<close>

lemma sys_calm: "calm w w' \<Longrightarrow> (sys_step env)\<^sup>*\<^sup>* (w, js, rs) (w', js, rs)"
  by (rule r_into_rtranclp) (rule sys_step.other)

lemma sys_trans: "(sys_step env)\<^sup>*\<^sup>* s t \<Longrightarrow> (sys_step env)\<^sup>*\<^sup>* t u \<Longrightarrow> (sys_step env)\<^sup>*\<^sup>* s u"
  by (rule rtranclp_trans)

lemma run_blocks:
  "\<exists>rs'. (sys_step env)\<^sup>*\<^sup>* (w, (key, c, Claimed) # js, rs) (snd (approve_run env i key role c w), js, rs')"
proof -
  obtain x w1 where ex: "approve_execute env c w = (x, w1)" by (cases "approve_execute env c w")
  let ?rs = "rs @ [(cl_entry c, key)]"
  show ?thesis
  proof (cases x)
    case (Inl e)
    then have "sys_step env (w, (key, c, Claimed) # js, rs) (w1, js, ?rs)"
      using sys_step.crash [of env c w e w1 "[]" key js rs] ex by simp
    moreover have "snd (approve_run env i key role c w) = w1" by (simp add: approve_run_def bindM_run ex Inl)
    ultimately show ?thesis using r_into_rtranclp [of "sys_step env"] by (intro exI [of _ ?rs]) simp
  next
    case (Inr res)
    then have first: "sys_step env (w, (key, c, Claimed) # js, rs) (w1, (key, c, Ran res) # js, ?rs)"
      using sys_step.execute [of env c w res w1 "[]" key js rs] ex by simp
    show ?thesis
    proof (cases res)
      case None
      obtain r w2 where ne: "approve_no_executable env c w1 = (r, w2)" by (cases "approve_no_executable env c w1")
      have "sys_step env (w1, (key, c, Ran res) # js, ?rs) (w2, js, ?rs)"
        using sys_step.withdraw [OF ne, of "[]" key js ?rs] None by simp
      moreover have "snd (approve_run env i key role c w) = w2"
        by (simp add: approve_run_def bindM_run ex Inr None ne)
      ultimately show ?thesis
        using rtranclp.rtrancl_into_rtrancl [OF r_into_rtranclp [of "sys_step env", OF first]]
        by (intro exI [of _ ?rs]) simp
    next
      case (Some v)
      define m where "m = (if cooldown_applies (cl_payload c) (cl_cooldown_seconds c) then cooldown_record env (cl_key c)
        else returnM () :: ('a server_scheme, unit) pym)"
      obtain y w2 where rec: "m w1 = (y, w2)" by (cases "m w1")
      have c12: "calm w1 w2" by (rule calm.keeps_run [OF record_calm rec [unfolded m_def]])
      obtain z w3 where st: "approve_store env c v w2 = (z, w3)" by (cases "approve_store env c v w2")
      obtain t w4 where rep: "approve_report env i key role c v w3 = (t, w4)" by (cases "approve_report env i key role c v w3")
      have c34: "calm w3 w4" by (rule calm.keeps_run [OF approve_report_calm rep])
      have store: "sys_step env (w2, (key, c, Ran res) # js, ?rs) (w3, js, ?rs)"
        using sys_step.store [OF st, of "[]" key js ?rs] Some by simp
      have fin: "snd (approve_run env i key role c w) = (case y of Inl _ \<Rightarrow> w2 | Inr _ \<Rightarrow> (case z of Inl _ \<Rightarrow> w3 | Inr _ \<Rightarrow> w4))"
        unfolding approve_run_def m_def [symmetric] by (simp add: bindM_run ex Inr Some rec st rep split: sum.split)
      have pre: "(sys_step env)\<^sup>*\<^sup>* (w, (key, c, Claimed) # js, rs) (w2, (key, c, Ran res) # js, ?rs)"
        by (rule sys_trans [OF r_into_rtranclp [of "sys_step env", OF first] sys_calm [OF c12]])
      have gone: "(sys_step env)\<^sup>*\<^sup>* (w, (key, c, Claimed) # js, rs) (w2, js, ?rs)"
        using rtranclp.rtrancl_into_rtrancl [OF pre] sys_step.abandon [of env w2 "[]" "(key, c, Ran res)" js ?rs] by simp
      have stored: "(sys_step env)\<^sup>*\<^sup>* (w, (key, c, Claimed) # js, rs) (w3, js, ?rs)"
        by (rule rtranclp.rtrancl_into_rtrancl [OF pre store])
      have "(sys_step env)\<^sup>*\<^sup>* (w, (key, c, Claimed) # js, rs) (w4, js, ?rs)"
        by (rule sys_trans [OF stored sys_calm [OF c34]])
      then show ?thesis using gone stored unfolding fin by (intro exI [of _ ?rs]) (simp split: sum.split)
    qed
  qed
qed

text \<open>An approval from its first check to its answer, with the queue blocks as steps of the system.\<close>

lemma approve_blocks:
  "\<exists>rs'. (sys_step env)\<^sup>*\<^sup>* (w, js, rs) (snd (approve_approval env i key w), js, rs')"
proof -
  obtain r1 w1 where r: "get_role_from_api_key env key w = (r1, w1)" by (cases "get_role_from_api_key env key w")
  have c1: "calm w w1" by (rule calm.keeps_run [OF outer_calm [OF role_outer] r])
  show ?thesis
  proof (cases r1)
    case (Inl e)
    then show ?thesis using sys_calm [OF c1] by (auto simp: approve_approval_def bindM_run r)
  next
    case (Inr role)
    obtain r2 w2 where p: "has_permission env role ''approve_actions'' w1 = (r2, w2)"
      by (cases "has_permission env role ''approve_actions'' w1")
    have "calm w1 w2" by (rule calm.keeps_run [OF outer_calm [OF has_permission_outer] p])
    then have c2: "calm w w2" using c1 by (rule calm.R_trans [rotated])
    show ?thesis
    proof (cases "\<exists>v. r2 = Inr v \<and> py_truthy v")
      case False
      then have "snd (approve_approval env i key w) = w2"
        by (auto simp: approve_approval_def bindM_run r Inr p split: sum.split)
      then show ?thesis using sys_calm [OF c2] by auto
    next
      case True
      then obtain v where v: "r2 = Inr v" "py_truthy v" by blast
      obtain cr w3 where cl: "approve_claim env i key role w2 = (cr, w3)" by (cases "approve_claim env i key role w2")
      show ?thesis
      proof (cases "\<exists>c. cr = Inr (Inr c)")
        case False
        then have "snd (approve_approval env i key w) = w3"
          using v by (auto simp: approve_approval_def bindM_run r Inr p cl split: sum.split)
        moreover have "sys_step env (w2, js, rs) (w3, js, rs)"
          using False by (intro sys_step.refused [OF cl]) auto
        ultimately show ?thesis using sys_calm [OF c2] by (metis rtranclp.rtrancl_into_rtrancl)
      next
        case True
        then obtain c where c: "cr = Inr (Inr c)" ..
        have "sys_step env (w2, js, rs) (w3, (key, c, Claimed) # js, rs)"
          by (rule sys_step.claimed [OF cl [unfolded c]])
        then have "(sys_step env)\<^sup>*\<^sup>* (w, js, rs) (w3, (key, c, Claimed) # js, rs)"
          by (rule rtranclp.rtrancl_into_rtrancl [OF sys_calm [OF c2]])
        moreover have "snd (approve_approval env i key w) = snd (approve_run env i key role c w3)"
          using v by (simp add: approve_approval_def bindM_run r Inr p cl c)
        ultimately show ?thesis using run_blocks [of env w3 key c js rs i role] by (metis sys_trans)
      qed
    qed
  qed
qed

text \<open>
  C1. A queued request is executed at most once and only with a second key, however the handlers of
  concurrent requests interleave: in every run from a server without approvals on their way, no entry
  occurs twice among the executions, and every execution was started for the key that is recorded as
  \<open>approved_by\<close>, which is not the key that asked.
\<close>

theorem executed_at_most_once:
  assumes "(sys_step env)\<^sup>*\<^sup>* (w, [], []) (w', js, runs)" and "queue_ok w"
  shows "distinct (map fst runs)
    \<and> (\<forall>(a, k)\<in>set runs. a < length (heap w') \<and> entry_get (heap w' ! a) ''approved_by'' = Some k
        \<and> entry_get (heap w' ! a) ''requested_by'' \<noteq> Some k)"
proof -
  have "sys_ok (w', js, runs)"
    using sys_steps_ok [OF assms(1)] assms(2) by (simp add: sys_ok_def)
  then show ?thesis by (fastforce simp: sys_ok_def signed_def tickets_def ticket_of_def)
qed

theorem executed_at_most_once_witness:
  "\<exists>w' js. (sys_step approval_env)\<^sup>*\<^sup>* (example_server, [], []) (w', js, [(0, PStr ''bob'')])
     \<and> entry_get (heap w' ! 0) ''approved_by'' = Some (PStr ''bob'')
     \<and> entry_get (heap w' ! 0) ''requested_by'' \<noteq> Some (PStr ''bob'')"
proof -
  obtain w1 where c: "approve_claim approval_env ''r1'' (PStr ''bob'') (PStr ''lead'') example_server = (Inr (Inr approval_claim), w1)"
    using example_claimed by blast
  obtain x w2 where e: "approve_execute approval_env approval_claim w1 = (x, w2)"
    by (cases "approve_execute approval_env approval_claim w1")
  have a: "cl_entry approval_claim = 0" by (simp add: approval_claim_def)
  have s1: "sys_step approval_env (example_server, [], []) (w1, [(PStr ''bob'', approval_claim, Claimed)], [])"
    by (rule sys_step.claimed [OF c])
  have "\<exists>js. sys_step approval_env (w1, [(PStr ''bob'', approval_claim, Claimed)], []) (w2, js, [(0, PStr ''bob'')])"
  proof (cases x)
    case (Inl u)
    show ?thesis using sys_step.crash [OF e [unfolded Inl], of "[]" "PStr ''bob''" "[]" "[]"] by (auto simp: a)
  next
    case (Inr u)
    show ?thesis using sys_step.execute [OF e [unfolded Inr], of "[]" "PStr ''bob''" "[]" "[]"] by (auto simp: a)
  qed
  then obtain js where "sys_step approval_env (w1, [(PStr ''bob'', approval_claim, Claimed)], []) (w2, js, [(0, PStr ''bob'')])" ..
  with s1 have run: "(sys_step approval_env)\<^sup>*\<^sup>* (example_server, [], []) (w2, js, [(0, PStr ''bob'')])"
    by (meson converse_rtranclp_into_rtranclp r_into_rtranclp)
  then show ?thesis using executed_at_most_once [OF run example_server_ok(1)] by auto
qed

end
