(* ===== verification/Gates.thy ===== *)
theory Gates
  imports LifeCycle
begin

text \<open>
  Authorization of executions: a request that starts a process or calls a cluster has passed every
  check, for \<open>/webhook\<close> and for an approval, and no other endpoint does so.
\<close>

section \<open>Parts that start nothing\<close>

lemma auth_config_infra: "keeps_infra (load_auth_config env)"
  unfolding load_auth_config_def by (intro infra.keeps_rules infra_primitives)

lemma api_keys_infra: "keeps_infra (resolve_api_keys env c)"
  unfolding resolve_api_keys_def get_secret_val_def Let_def
  by (intro infra.keeps_rules keeps_cases exn_case_keeps secret_infra)

lemma key_scope_infra: "keeps_infra (get_key_scope env k)"
  unfolding get_key_scope_def by (intro infra.keeps_rules auth_config_infra api_keys_infra)

lemma guard_infra:
  "keeps_infra (get_role_from_api_key env k)" "keeps_infra (is_action_allowed_for_key env k a)"
  "keeps_infra (is_controller_allowed_for_key env k c)" "keeps_infra (has_permission env r p)"
  "keeps_infra (get_valid_api_keys env)" "keeps_infra (get_action_config env m a)"
  "keeps_infra (get_controller_config env c)"
  unfolding get_role_from_api_key_def is_action_allowed_for_key_def is_controller_allowed_for_key_def
    has_permission_def get_valid_api_keys_def get_action_config_def load_actions_config_def
    get_controller_config_def load_controllers_config_def
  by (intro infra.keeps_rules keeps_cases key_scope_infra auth_config_infra api_keys_infra infra_primitives)+

lemma rate_check_infra: "keeps_infra (rate_check env k l)"
proof -
  have "keeps_infra (\<lambda>w. case rl_check k l WINDOW_SECONDS now (limiter w) of (r, rl) \<Rightarrow> (r, w\<lparr>limiter := rl\<rparr>))" for now
    by (auto simp: keeps_def infra_def split: prod.split)
  then show ?thesis unfolding rate_check_def by (intro infra.keeps_rules infra_primitives)
qed

lemma cooldown_infra: "keeps_infra (cooldown_remaining env k s)" "keeps_infra (cooldown_record env k)"
proof -
  have "keeps_infra (\<lambda>w. case cd_record fr k now now2 fault (cooldowns w) (fs w) of
      (r, cd, disk) \<Rightarrow> (r, w\<lparr>cooldowns := cd, fs := disk\<rparr>))" for fr now now2 fault
    by (auto simp: keeps_def infra_def split: prod.split)
  then show "keeps_infra (cooldown_record env k)"
    unfolding cooldown_record_def by (intro infra.keeps_rules infra_primitives)
  show "keeps_infra (cooldown_remaining env k s)"
    unfolding cooldown_remaining_def by (intro infra.keeps_rules infra_primitives)
qed

lemma log_and_notify_infra: "keeps_infra (log_and_notify env e ev ac)"
  unfolding log_and_notify_def by (intro infra.keeps_rules write_audit_log_infra notify_infra)

lemma rate_gate_infra: "keeps_infra (rate_gate env k l p a r)"
  unfolding rate_gate_def by (intro infra.keeps_rules keeps_cases rate_check_infra write_audit_log_infra)

lemma save_infra: "keeps_infra (save_approval_queue env)"
  unfolding save_approval_queue_def Let_def
  by (intro infra.keeps_rules infra_primitives infra_more) (simp add: keeps_def infra_def)

lemma set_field_infra: "keeps_infra (set_field a k v)"
  unfolding set_field_def get_entry_def
  by (intro infra.keeps_rules keeps_cases) (simp add: keeps_def infra_def)

lemma queue_infra: "keeps_infra (queue_for_approval env raw k r cn)"
  unfolding queue_for_approval_def Let_def enqueue_all_def
  by (intro infra.keeps_rules infra_primitives save_infra) (simp add: keeps_def infra_def)

lemma pending_entry_infra: "keeps_infra (pending_entry env v i k)"
  unfolding keeps_def by (metis pending_entry_run prod.collapse)

lemmas infra_parts = infra.keeps_rules keeps_cases guard_infra rate_check_infra cooldown_infra rate_gate_infra
  write_audit_log_infra log_and_notify_infra save_infra set_field_infra queue_infra pending_entry_infra

lemma authorize_infra: "keeps_infra (webhook_authorize env p k r ac)"
  unfolding webhook_authorize_def Let_def by (intro infra_parts)

lemma approve_decide_infra: "keeps_infra (approve_decide env i k role)"
  unfolding approve_decide_def requester_allowed_def entry_field_def get_entry_def Let_def by (intro infra_parts)

lemma decision_keeps:
  "(\<And>x. keeps R (f x)) \<Longrightarrow> (\<And>x. keeps R (g x)) \<Longrightarrow> (\<And>x. keeps R (h x)) \<Longrightarrow>
     keeps R (case d of Refuse x \<Rightarrow> f x | Deny x \<Rightarrow> g x | Grant x \<Rightarrow> h x)"
  by (cases d) simp_all

lemma approve_claim_infra: "keeps_infra (approve_claim env i k role)"
  unfolding approve_claim_def by (intro decision_keeps infra_parts approve_decide_infra)

lemma approve_after_infra:
  "keeps_infra (approve_no_executable env c)" "keeps_infra (approve_store env c x)"
  "keeps_infra (approve_report env i k role c x)"
  unfolding approve_no_executable_def approve_store_def approve_report_def entry_field_def get_entry_def
  by (intro infra_parts)+

lemma quiet_handlers:
  "keeps_infra (reject_approval env i k)" "keeps_infra (list_approvals env k)" "keeps_infra (get_audit env k q)"
  "keeps_infra (get_audit_verify env k)" "keeps_infra (can_override_controller env k)"
  unfolding reject_approval_def reject_claim_def list_approvals_def get_audit_def get_audit_verify_def
    can_override_controller_def entry_field_def get_entry_def
  by (intro infra_parts)+

section \<open>What was answered before an execution\<close>

text \<open>
  \<open>w\<close> is a state of the same request before \<open>w'\<close>: nothing was started between them, and what the
  server read at its start and the approval queue are the same.
\<close>

definition before :: "'s server_scheme \<Rightarrow> 's server_scheme \<Rightarrow> bool" where
  "before w w' \<longleftrightarrow> tick w \<le> tick w' \<and> infra w' = infra w \<and> rl_config (limiter w') = rl_config (limiter w)
     \<and> merged_actions w' = merged_actions w \<and> heap w' = heap w \<and> approval_queue w' = approval_queue w"

interpretation before: state_preorder before
  by unfold_locales (auto simp: before_def)

text \<open>The question \<open>m\<close> was answered with \<open>x\<close> after \<open>w\<close> and before \<open>w'\<close>.\<close>

definition answered :: "('s server_scheme, 'a) pym \<Rightarrow> 'a \<Rightarrow> 's server_scheme \<Rightarrow> 's server_scheme \<Rightarrow> bool" where
  "answered m x w w' \<longleftrightarrow> (\<exists>v v'. before w v \<and> m v = (Inr x, v') \<and> before v v' \<and> before v' w')"

lemma answered_mono: "before u w \<Longrightarrow> answered m x w w' \<Longrightarrow> before w' v \<Longrightarrow> answered m x u v"
  unfolding answered_def by (meson before.R_trans)

lemma outer_before: "keeps outer_frame m \<Longrightarrow> keeps_infra m \<Longrightarrow> keeps before m"
proof -
  have "before w w'" if "outer_frame w w'" "infra w' = infra w" for w w' :: "'s server_scheme"
    using that by (cases w; cases w') (auto simp: outer_frame_def before_def)
  then show "keeps outer_frame m \<Longrightarrow> keeps_infra m \<Longrightarrow> keeps before m" unfolding keeps_def by blast
qed

lemma guard_before:
  "keeps before (get_role_from_api_key env k)" "keeps before (is_action_allowed_for_key env k a)"
  "keeps before (is_controller_allowed_for_key env k c)" "keeps before (has_permission env r p)"
  "keeps before (get_action_config env m a)" "keeps before (get_controller_config env c)"
  by (intro outer_before guard_infra guard_outer action_config_outer controller_config_outer)+

lemma rl_check_config: "rl_check k l win now rl = (r, rl') \<Longrightarrow> rl_config rl' = rl_config rl"
  by (auto simp: rl_check_def Let_def split: if_splits sum.splits)

lemma rate_check_before: "keeps before (rate_check env k l)"
  by (auto simp: keeps_def before_def rate_check_def bindM_run infra_def split: prod.split dest: rl_check_config)

lemma cooldown_before: "keeps before (cooldown_remaining env k s)"
  using cooldown_infra(1) [of env k s] by (auto simp: keeps_def before_def cooldown_remaining_def bindM_run)

lemma answeredI:
  "m v = (Inr x, v') \<Longrightarrow> before w v \<Longrightarrow> before v v' \<Longrightarrow> before v' w' \<Longrightarrow> answered m x w w'"
  unfolding answered_def by blast

text \<open>A run of \<open>m\<close> from \<open>w\<close> that returns, returns with \<open>Q\<close>.\<close>

definition gives :: "('a \<Rightarrow> 's \<Rightarrow> bool) \<Rightarrow> ('s, 'a) pym \<Rightarrow> 's \<Rightarrow> bool" where
  "gives Q m w \<longleftrightarrow> (\<forall>x w'. m w = (Inr x, w') \<longrightarrow> Q x w')"

lemma givesD: "gives Q m w \<Longrightarrow> m w = (Inr x, w') \<Longrightarrow> Q x w'"
  by (simp add: gives_def)

lemma gives_return: "Q x w \<Longrightarrow> gives Q (returnM x) w"
  by (simp add: gives_def)

lemma gives_bind:
  "keeps before m \<Longrightarrow> (\<And>y w1. m w = (Inr y, w1) \<Longrightarrow> before w w1 \<Longrightarrow> gives Q (f y) w1) \<Longrightarrow> gives Q (bindM m f) w"
  unfolding gives_def by (blast dest: bindM_run_Inr before.keeps_run)

lemma gives_lift: "(\<And>y. r = Inr y \<Longrightarrow> gives Q (f y) w) \<Longrightarrow> gives Q (bindM (liftM r) f) w"
  by (cases r) (simp_all add: gives_def)

lemma gives_if: "(b \<Longrightarrow> gives Q m w) \<Longrightarrow> (\<not> b \<Longrightarrow> gives Q n w) \<Longrightarrow> gives Q (if b then m else n) w"
  by simp

text \<open>A run of \<open>m\<close> from \<open>w\<close> that starts something ends with \<open>Q\<close>.\<close>

definition starts :: "('s server_scheme \<Rightarrow> bool) \<Rightarrow> ('s server_scheme, 'a) pym \<Rightarrow> 's server_scheme \<Rightarrow> bool" where
  "starts Q m w \<longleftrightarrow> (infra (snd (m w)) \<noteq> infra w \<longrightarrow> Q (snd (m w)))"

lemma starts_quiet: "keeps_infra m \<Longrightarrow> starts Q m w"
  by (simp add: starts_def keeps_def)

lemma starts_bind:
  assumes "keeps before m" "\<And>y w1. m w = (Inr y, w1) \<Longrightarrow> before w w1 \<Longrightarrow> starts Q (f y) w1"
  shows "starts Q (bindM m f) w"
proof -
  obtain z w1 where m: "m w = (z, w1)" by (cases "m w")
  have "before w w1" by (rule before.keeps_run [OF assms(1) m])
  then show ?thesis using assms(2) m by (cases z) (auto simp: starts_def bindM_run before_def)
qed

lemma starts_lift: "(\<And>y. r = Inr y \<Longrightarrow> starts Q (f y) w) \<Longrightarrow> starts Q (bindM (liftM r) f) w"
  by (cases r) (simp_all add: starts_def)

lemma starts_get: "starts Q (f (g w)) w \<Longrightarrow> starts Q (bindM (getM g) f) w"
  by (simp add: starts_def)

lemma starts_if: "(b \<Longrightarrow> starts Q m w) \<Longrightarrow> (\<not> b \<Longrightarrow> starts Q n w) \<Longrightarrow> starts Q (if b then m else n) w"
  by simp

lemma starts_option:
  "(p = None \<Longrightarrow> starts Q m w) \<Longrightarrow> (\<And>x. p = Some x \<Longrightarrow> starts Q (f x) w) \<Longrightarrow>
     starts Q (case p of None \<Rightarrow> m | Some x \<Rightarrow> f x) w"
  by (cases p) simp_all

lemma starts_sum:
  "(\<And>x. p = Inl x \<Longrightarrow> starts Q (f x) w) \<Longrightarrow> (\<And>x. p = Inr x \<Longrightarrow> starts Q (g x) w) \<Longrightarrow>
     starts Q (case p of Inl x \<Rightarrow> f x | Inr x \<Rightarrow> g x) w"
  by (cases p) simp_all

lemma starts_prod: "(\<And>x y. p = (x, y) \<Longrightarrow> starts Q (f x y) w) \<Longrightarrow> starts Q (case p of (x, y) \<Rightarrow> f x y) w"
  by (cases p) simp

text \<open>The part that starts something, with only quiet parts after it.\<close>

lemma starts_here:
  assumes "\<And>x. keeps_infra (f x)" "\<And>w'. infra w' = infra (snd (m w)) \<Longrightarrow> Q w'"
  shows "starts Q (bindM m f) w"
proof -
  obtain z w1 where m: "m w = (z, w1)" by (cases "m w")
  show ?thesis
    using assms m by (cases z) (simp_all add: starts_def bindM_run keeps_def)
qed

section \<open>The webhook\<close>

text \<open>The checks of role, key and controller, all answered favourably.\<close>

definition may_execute ::
  "env \<Rightarrow> webhook_payload \<Rightarrow> pyval \<Rightarrow> pyval \<Rightarrow> pyval \<Rightarrow> pyval \<Rightarrow> pyval \<Rightarrow> 's server_scheme \<Rightarrow> 's server_scheme \<Rightarrow> bool"
where
  "may_execute env payload key role ac cn cc w w' \<longleftrightarrow>
     (\<exists>v. answered (has_permission env role ''execute_actions'') v w w' \<and> py_truthy v)
     \<and> answered (is_action_allowed_for_key env key (PStr (wp_event_type payload))) True w w'
     \<and> chosen_controller payload ac = Inr cn
     \<and> (opt_true (wp_controller_override payload) \<longrightarrow>
          (\<exists>v. answered (has_permission env role ''controller_override'') v w w' \<and> py_truthy v))
     \<and> answered (get_controller_config env cn) cc w w' \<and> py_truthy cc
     \<and> answered (is_controller_allowed_for_key env key cn) True w w'"

lemma authorize_grants:
  assumes "webhook_authorize env payload key role ac w = (Inr (Inr (cn, cc)), w')"
  shows "may_execute env payload key role ac cn cc w w' \<and> before w w'"
proof -
  have "gives (\<lambda>r w'. \<forall>cn cc. r = Inr (cn, cc) \<longrightarrow> may_execute env payload key role ac cn cc w w' \<and> before w w')
      (webhook_authorize env payload key role ac) w"
    unfolding webhook_authorize_def Let_def
    apply (intro gives_lift gives_bind gives_if gives_return guard_before before.keeps_if before.keeps_return; simp)
    subgoal premises p for y w1 ya w2 cn ov w3 cc w4 yc w5
    proof -
      note b = p(2,5,9,12,15) [unfolded before_def]
      have "answered (has_permission env role ''execute_actions'') y w w5"
        by (rule answeredI [where v = w and v' = w1]) (use p(1) b in \<open>simp_all add: before_def\<close>)
      moreover have "answered (is_action_allowed_for_key env key (PStr (wp_event_type payload))) True w w5"
        by (rule answeredI [where v = w1 and v' = w2]) (use p(4) b in \<open>simp_all add: before_def\<close>)
      moreover have "answered (get_controller_config env cn) cc w w5"
        by (rule answeredI [where v = w3 and v' = w4]) (use p(11) b in \<open>simp_all add: before_def\<close>)
      moreover have "answered (is_controller_allowed_for_key env key cn) True w w5"
        by (rule answeredI [where v = w4 and v' = w5]) (use p(14) b in \<open>simp_all add: before_def\<close>)
      moreover have "answered (has_permission env role ''controller_override'') ov w w5" if "opt_true (wp_controller_override payload)"
        by (rule answeredI [where v = w2 and v' = w3]) (use p(8) that b in \<open>simp_all add: before_def\<close>)
      moreover have "before w w5" using b by (simp add: before_def)
      ultimately show ?thesis using p(3,7,10,13) unfolding may_execute_def by blast
    qed
    done
  from givesD [OF this assms] show ?thesis by simp
qed

text \<open>
  \<open>w'\<close> has the processes and cluster calls of one real execution, that of the checked action on the
  checked controller, and the cooldown allowed it.
\<close>

definition executed ::
  "env \<Rightarrow> webhook_payload \<Rightarrow> pyval \<Rightarrow> pyval \<Rightarrow> pyval \<Rightarrow> pydict \<Rightarrow> 's server_scheme \<Rightarrow> 's server_scheme \<Rightarrow> 's server_scheme \<Rightarrow> bool"
where
  "executed env payload ac cn cc ps w v w' \<longleftrightarrow>
     \<not> py_truthy (opt_bool (wp_dry_run payload))
     \<and> infra w' = infra (snd (execute_action env ac cc ps False v))
     \<and> (\<exists>seconds key. py_get_or ac ''cooldown_seconds'' (PInt 0) = Inr seconds
          \<and> cooldown_key_for env ac (wp_event_type payload) cn ps = Inr key
          \<and> (py_truthy seconds \<longrightarrow> answered (cooldown_remaining env key seconds) None w v))"

lemma dry_infra: "keeps_infra (execute_action env ac cc ps True)"
  by (simp add: keeps_def dry_execute [unfolded keeps_def, rule_format])

lemma gate_answered:
  assumes "(if cooldown_applies payload seconds then cooldown_remaining env key seconds else returnM None) w = (Inr None, v)"
    "before w v" "\<not> py_truthy (opt_bool (wp_dry_run payload))" "py_truthy seconds"
  shows "answered (cooldown_remaining env key seconds) None w v"
  by (rule answeredI [where v = w and v' = v])
    (use assms in \<open>auto simp: cooldown_applies_def before.R_refl\<close>)

lemma webhook_execute_starts:
  "starts (\<lambda>w'. \<exists>v. before w v \<and> executed env payload ac cn cc ps w v w')
     (webhook_execute env payload key role ip ac cn cc ps) w"
  unfolding webhook_execute_def Let_def
proof (intro starts_lift, rule starts_bind, goal_cases)
  case (1 seconds cd_key)
  show ?case by (intro before.keeps_if cooldown_before before.keeps_return)
next
  case (2 seconds cd_key remaining w1)
  let ?dry = "py_truthy (opt_bool (wp_dry_run payload))"
  show ?case
  proof (rule starts_option, goal_cases)
    case 1
    show ?case
    proof (cases ?dry)
      case True
      then have "?dry = True" by simp
      then show ?thesis by (simp only:) (intro starts_quiet infra_parts dry_infra)
    next
      case False
      have "?dry = False" using False by simp
      then show ?thesis
      proof (simp only:, intro starts_here)
        fix w' :: "'a server_scheme"
        assume "infra w' = infra (snd (execute_action env ac cc ps False w1))"
        moreover have "answered (cooldown_remaining env cd_key seconds) None w w1" if "py_truthy seconds"
          using 1 2 False that by (intro gate_answered) auto
        ultimately show "\<exists>v. before w v \<and> executed env payload ac cn cc ps w v w'"
          using 2 False by (intro exI [of _ w1]) (auto simp: executed_def)
      qed (intro infra_parts)
    qed
  next
    case (2 rest)
    show ?case by (intro starts_quiet infra_parts)
  qed
qed

lemma limit_config:
  "rl_config rl' = rl_config rl \<Longrightarrow> limit_for_role rl' = limit_for_role rl \<and> limit_for_action rl' = limit_for_action rl"
proof
  assume c: "rl_config rl' = rl_config rl"
  show "limit_for_role rl' = limit_for_role rl" by (intro ext) (simp only: limit_for_role_def c)
  show "limit_for_action rl' = limit_for_action rl" by (intro ext) (simp only: limit_for_action_def c)
qed

lemma starts_weaken: "starts P m w \<Longrightarrow> (\<And>w'. P w' \<Longrightarrow> Q w') \<Longrightarrow> starts Q m w"
  by (simp add: starts_def)

lemma authorize_before: "keeps before (webhook_authorize env payload key role ac)"
  unfolding webhook_authorize_def Let_def by (intro before.keeps_rules guard_before)

lemma starts_gate:
  assumes "\<And>l w1. limit = Inr l \<Longrightarrow> rate_check env key l w = (Inr None, w1) \<Longrightarrow> before w w1 \<Longrightarrow> starts Q (f None) w1"
    and "\<And>x. keeps_infra (f (Some x))"
  shows "starts Q (bindM (rate_gate env key limit p a r) f) w"
proof (cases limit)
  case (Inl e)
  then show ?thesis by (simp add: rate_gate_def starts_def)
next
  case (Inr l)
  obtain z w1 where c: "rate_check env key l w = (z, w1)" by (cases "rate_check env key l w")
  have b: "before w w1" by (rule before.keeps_run [OF rate_check_before c])
  show ?thesis
  proof (cases "z = Inr None")
    case True
    then have "bindM (rate_gate env key limit p a r) f w = f None w1"
      using c by (simp add: rate_gate_def bindM_run Inr)
    then show ?thesis using assms(1) [OF Inr c [unfolded True] b] b by (simp add: starts_def before_def)
  next
    case False
    have "infra (snd (bindM (rate_gate env key limit p a r) f w)) = infra w"
    proof -
      obtain g w2 where g: "rate_gate env key limit p a r w = (g, w2)" by (cases "rate_gate env key limit p a r w")
      have i: "infra w2 = infra w" by (rule infra.keeps_run [OF rate_gate_infra g])
      have "g \<noteq> Inr None"
        using g c False by (auto simp: rate_gate_def bindM_run Inr split: sum.splits option.splits prod.splits)
      then show ?thesis
        using g i assms(2) by (cases g) (auto simp: bindM_run keeps_def)
    qed
    then show ?thesis by (simp add: starts_def)
  qed
qed

text \<open>Everything a webhook call has passed before its action is executed in state \<open>v\<close>.\<close>

definition cleared ::
  "env \<Rightarrow> webhook_payload \<Rightarrow> pyval \<Rightarrow> pyval \<Rightarrow> pyval \<Rightarrow> pyval \<Rightarrow> pyval \<Rightarrow> 's server_scheme \<Rightarrow> 's server_scheme \<Rightarrow> bool"
where
  "cleared env payload key role ac cn cc w v \<longleftrightarrow>
     before w v \<and> answered (get_role_from_api_key env key) role w v
     \<and> (\<exists>l. limit_for_role (limiter w) role = Inr l
          \<and> answered (rate_check env (''caller:'' @ str_of env key) l) None w v)
     \<and> answered (get_action_config env (merged_actions w) (PStr (wp_event_type payload))) ac w v \<and> py_truthy ac
     \<and> (\<exists>l. limit_for_action (limiter w) (wp_event_type payload) = Inr l
          \<and> answered (rate_check env (''action:'' @ wp_event_type payload) l) None w v)
     \<and> may_execute env payload key role ac cn cc w v"

lemma may_execute_mono:
  "before u w \<Longrightarrow> may_execute env payload key role ac cn cc w w' \<Longrightarrow> before w' v \<Longrightarrow> may_execute env payload key role ac cn cc u v"
  unfolding may_execute_def by (blast intro: answered_mono)

lemma executed_mono:
  "before u w \<Longrightarrow> executed env payload ac cn cc ps w v w' \<Longrightarrow> executed env payload ac cn cc ps u v w'"
  unfolding executed_def by (blast intro: answered_mono before.R_refl)

lemma webhook_starts:
  assumes "parse_payload env body = Inr (raw, payload)"
  shows "starts (\<lambda>w'. \<not> py_truthy (opt_bool (wp_approval_required payload)) \<and>
     (\<exists>role ac cn cc ps v. merged_params ac (wp_parameters payload) = Inr ps
       \<and> cleared env payload key role ac cn cc w v \<and> executed env payload ac cn cc ps w v w'))
     (webhook env body key ip) w"
  unfolding webhook_def assms sum.case prod.case Let_def
  apply (rule starts_bind [OF guard_before(1)])
  apply (rule starts_get)
  apply (rule starts_gate)
   prefer 2
   apply (simp, intro infra_parts)
  apply (simp only: option.case)
  apply (rule starts_get)
  apply (rule starts_bind [OF guard_before(5)])
  apply (rule starts_if)
   apply (intro starts_quiet infra_parts)
  apply (rule starts_get)
  apply (rule starts_gate)
   prefer 2
   apply (simp, intro infra_parts)
  apply (simp only: option.case)
  apply (rule starts_bind [OF authorize_before])
  apply (rule starts_sum)
   apply (intro starts_quiet infra_parts)
  apply (rule starts_prod)
  apply (rule starts_lift)
  apply (rule starts_if)
   apply (intro starts_quiet infra_parts)
  apply (rule starts_weaken [OF webhook_execute_starts])
  subgoal premises p for role w1 l1 w2 ac w3 l2 w4 au w5 pr cn cc ps w'
  proof -
    from p(18) obtain v where v: "before w5 v" "executed env payload ac cn cc ps w5 v w'" by blast
    note b = p(2,5,7,11,13) [unfolded before_def] v(1) [unfolded before_def]
    have wv: "before w v" and w5: "before w w5" and w4: "before w w4" using b by (auto simp: before_def)
    have "may_execute env payload key role ac cn cc w4 w5"
      using authorize_grants [OF p(12) [unfolded p(14) p(15)]] ..
    then have "may_execute env payload key role ac cn cc w v" by (rule may_execute_mono [OF w4 _ v(1)])
    moreover have "answered (get_role_from_api_key env key) role w v"
      by (rule answeredI [where v = w and v' = w1]) (use p(1) b in \<open>auto simp: before_def\<close>)
    moreover have "answered (rate_check env (''caller:'' @ str_of env key) l1) None w v"
      by (rule answeredI [where v = w1 and v' = w2]) (use p(4) b in \<open>auto simp: before_def\<close>)
    moreover have "limit_for_role (limiter w) role = Inr l1"
      using p(3) limit_config [of "limiter w1" "limiter w"] b by simp
    moreover have "answered (get_action_config env (merged_actions w) (PStr (wp_event_type payload))) ac w v"
      by (rule answeredI [where v = w2 and v' = w3]) (use p(6) b in \<open>auto simp: before_def\<close>)
    moreover have "answered (rate_check env (''action:'' @ wp_event_type payload) l2) None w v"
      by (rule answeredI [where v = w3 and v' = w4]) (use p(10) b in \<open>auto simp: before_def\<close>)
    moreover have "limit_for_action (limiter w) (wp_event_type payload) = Inr l2"
      using p(9) limit_config [of "limiter w3" "limiter w"] b by simp
    ultimately have "cleared env payload key role ac cn cc w v"
      using p(8) wv unfolding cleared_def by blast
    then show ?thesis
      using p(16,17) executed_mono [OF w5 v(2)] by blast
  qed
  done

section \<open>The approval\<close>

text \<open>
  Everything an approval of the entry of \<open>c\<close> has passed in state \<open>u\<close>, under the lock: the entry is
  pending and was asked for with another key, and that key and the role it had are still allowed the
  action and the controller.
\<close>

definition granted :: "env \<Rightarrow> string \<Rightarrow> pyval \<Rightarrow> claim \<Rightarrow> 's server_scheme \<Rightarrow> 's server_scheme \<Rightarrow> bool" where
  "granted env i key c w u \<longleftrightarrow>
     (let entry = heap w ! cl_entry c; event = PStr (wp_event_type (cl_payload c)) in
     cl_entry c \<in> set (approval_queue w) \<and> entry_get entry ''id'' = Some (PStr i)
     \<and> entry_get entry ''status'' = Some (PStr ''pending'')
     \<and> (\<exists>raw. entry_get entry ''payload'' = Some raw \<and> stored_payload env raw = Inr (cl_payload c))
     \<and> (\<exists>requester role. entry_get entry ''requested_by'' = Some requester \<and> requester \<noteq> key
          \<and> entry_get entry ''role'' = Some role
          \<and> (\<exists>p. answered (has_permission env role ''execute_actions'') p w u \<and> py_truthy p)
          \<and> answered (is_action_allowed_for_key env requester event) True w u
          \<and> answered (is_controller_allowed_for_key env requester (cl_controller_name c)) True w u)
     \<and> answered (get_action_config env (merged_actions w) event) (cl_action_config c) w u
     \<and> chosen_controller (cl_payload c) (cl_action_config c) = Inr (cl_controller_name c)
     \<and> answered (get_controller_config env (cl_controller_name c)) (cl_controller_config c) w u
     \<and> merged_params (cl_action_config c) (wp_parameters (cl_payload c)) = Inr (cl_params c)
     \<and> (\<exists>seconds cd_key. py_get_or (cl_action_config c) ''cooldown_seconds'' (PInt 0) = Inr seconds
          \<and> cooldown_key_for env (cl_action_config c) (wp_event_type (cl_payload c)) (cl_controller_name c) (cl_params c) = Inr cd_key
          \<and> (cooldown_applies (cl_payload c) seconds \<longrightarrow> answered (cooldown_remaining env cd_key seconds) None w u)))"

text \<open>
  \<open>w'\<close> has the processes and cluster calls of one real execution of \<open>c\<close>, started in \<open>v\<close>, where the
  entry is already recorded as approved by \<open>key\<close>.
\<close>

definition ran_claim :: "env \<Rightarrow> pyval \<Rightarrow> claim \<Rightarrow> 's server_scheme \<Rightarrow> 's server_scheme \<Rightarrow> 's server_scheme \<Rightarrow> bool" where
  "ran_claim env key c w v w' \<longleftrightarrow>
     entry_get (heap v ! cl_entry c) ''status'' = Some (PStr ''approved'')
     \<and> entry_get (heap v ! cl_entry c) ''approved_by'' = Some key
     \<and> \<not> py_truthy (opt_bool (wp_dry_run (cl_payload c))) \<and> infra v = infra w
     \<and> infra w' = infra (snd (execute_action env (cl_action_config c) (cl_controller_config c) (cl_params c) False v))"

lemma starts_infra_bind:
  assumes "keeps_infra m" "\<And>y w1. m w = (Inr y, w1) \<Longrightarrow> infra w1 = infra w \<Longrightarrow> starts Q (f y) w1"
  shows "starts Q (bindM m f) w"
proof -
  obtain z w1 where m: "m w = (z, w1)" by (cases "m w")
  have "infra w1 = infra w" by (rule infra.keeps_run [OF assms(1) m])
  then show ?thesis using assms(2) m by (cases z) (auto simp: starts_def bindM_run)
qed

lemma gives_returns: "returns P m \<Longrightarrow> (\<And>x w'. P x \<Longrightarrow> Q x w') \<Longrightarrow> gives Q m w"
  by (auto simp: returns_def gives_def)

lemma gives_option:
  "(p = None \<Longrightarrow> gives Q m w) \<Longrightarrow> (\<And>x. p = Some x \<Longrightarrow> gives Q (f x) w) \<Longrightarrow>
     gives Q (case p of None \<Rightarrow> m | Some x \<Rightarrow> f x) w"
  by (cases p) simp_all

lemma gives_sum:
  "(\<And>x. p = Inl x \<Longrightarrow> gives Q (f x) w) \<Longrightarrow> (\<And>x. p = Inr x \<Longrightarrow> gives Q (g x) w) \<Longrightarrow>
     gives Q (case p of Inl x \<Rightarrow> f x | Inr x \<Rightarrow> g x) w"
  by (cases p) simp_all

lemma gives_field: "(\<And>v. entry_get (heap w ! a) k = Some v \<Longrightarrow> gives Q (f v) w) \<Longrightarrow> gives Q (bindM (entry_field a k) f) w"
proof (cases "py_item (heap w ! a) k")
  case (Inr v)
  then have "entry_get (heap w ! a) k = Some v" by (simp add: py_item_entry)
  then show "(\<And>v. entry_get (heap w ! a) k = Some v \<Longrightarrow> gives Q (f v) w) \<Longrightarrow> gives Q (bindM (entry_field a k) f) w"
    using Inr by (simp add: gives_def entry_field_def get_entry_def bindM_run)
qed (simp add: gives_def entry_field_def get_entry_def bindM_run)

lemma gives_tail:
  "keeps before m \<Longrightarrow> (\<And>x w'. m w = (Inr x, w') \<Longrightarrow> before w w' \<Longrightarrow> Q x w') \<Longrightarrow> gives Q m w"
  unfolding gives_def by (blast dest: before.keeps_run)

lemma gives_get: "gives Q (f (g w)) w \<Longrightarrow> gives Q (bindM (getM g) f) w"
  by (simp add: gives_def)

lemma requester_allowed_true:
  assumes "requester_allowed env q role event cn w = (Inr True, w')"
  shows "(\<exists>p. answered (has_permission env role ''execute_actions'') p w w' \<and> py_truthy p)
    \<and> answered (is_action_allowed_for_key env q (PStr event)) True w w'
    \<and> answered (is_controller_allowed_for_key env q cn) True w w'"
proof -
  have "gives (\<lambda>r w'. r \<longrightarrow> (\<exists>p. answered (has_permission env role ''execute_actions'') p w w' \<and> py_truthy p)
      \<and> answered (is_action_allowed_for_key env q (PStr event)) True w w'
      \<and> answered (is_controller_allowed_for_key env q cn) True w w')
    (requester_allowed env q role event cn) w"
    unfolding requester_allowed_def
    apply (rule gives_bind [OF guard_before(4)], rule gives_if, rule gives_return, simp)
    apply (rule gives_bind [OF guard_before(2)], rule gives_if, rule gives_return, simp)
    apply (rule gives_tail [OF guard_before(3)], rule impI)
    subgoal premises p for v w1 x w2 y w3
    proof -
      note b = p(2,5,8) [unfolded before_def]
      have "answered (has_permission env role ''execute_actions'') v w w3"
        by (rule answeredI [where v = w and v' = w1]) (use p(1) b in \<open>auto simp: before_def\<close>)
      moreover have "answered (is_action_allowed_for_key env q (PStr event)) True w w3"
        by (rule answeredI [where v = w1 and v' = w2]) (use p(4,6) b in \<open>auto simp: before_def\<close>)
      moreover have "answered (is_controller_allowed_for_key env q cn) True w w3"
        by (rule answeredI [where v = w2 and v' = w3]) (use p(7,9) b in \<open>auto simp: before_def\<close>)
      ultimately show ?thesis using p(3) by blast
    qed
    done
  from givesD [OF this assms] show ?thesis by simp
qed

lemma requester_allowed_before: "keeps before (requester_allowed env q r e c)"
  unfolding requester_allowed_def by (intro before.keeps_rules guard_before)

lemma decide_grants:
  assumes "approve_decide env i key role w = (Inr (Grant c), u)"
  shows "granted env i key c w u \<and> before w u"
proof -
  have "gives (\<lambda>d u. \<forall>c. d = Grant c \<longrightarrow> granted env i key c w u \<and> before w u) (approve_decide env i key role) w"
    unfolding approve_decide_def Let_def
    apply (rule gives_bind)
    subgoal unfolding keeps_def by (metis before.R_refl pending_entry_run prod.collapse)
    apply (rule gives_sum, rule gives_return, simp)
    apply (rule gives_field, rule gives_lift, rule gives_get)
    apply (rule gives_bind [OF guard_before(5)], rule gives_lift)
    apply (rule gives_bind [OF guard_before(6)], rule gives_field, rule gives_field)
    apply (rule gives_bind [OF requester_allowed_before], rule gives_if, rule gives_return, simp)
    apply (rule gives_lift, rule gives_lift, rule gives_lift)
    apply (rule gives_bind, intro before.keeps_if before.keeps_return cooldown_before)
    apply (rule gives_option)
     prefer 2
     apply (rule gives_returns [where P = "\<lambda>d. \<exists>x. d = Refuse x"], intro returns_rules, blast, blast)
    apply (rule gives_return, intro allI impI)
    subgoal premises p for y w1 a raw payload ac w2 cn cc w3 requester r ok w4 ps seconds cd_key rem w5 c
    proof -
      have w1: "w1 = w" and cl: "claimable w key a" and i: "entry_get (heap w ! a) ''id'' = Some (PStr i)"
        using pending_entry_run [OF p(1)] p(3) by (auto simp: py_item_entry)
      note b = p(7,10,14,20) [unfolded before_def w1]
      have c: "c = \<lparr>cl_entry = a, cl_payload = payload, cl_action_config = ac, cl_controller_name = cn,
          cl_controller_config = cc, cl_params = ps, cl_cooldown_seconds = seconds, cl_key = cd_key\<rparr>"
        using p(22) by simp
      have h: "heap w3 = heap w" using b by simp
      have w3: "before w w3" and w5: "before w w5" and w45: "before w4 w5" using b p(20) by (auto simp: before_def)
      have req: "(\<exists>p. answered (has_permission env r ''execute_actions'') p w w5 \<and> py_truthy p)
          \<and> answered (is_action_allowed_for_key env requester (PStr (wp_event_type payload))) True w w5
          \<and> answered (is_controller_allowed_for_key env requester cn) True w w5"
        using requester_allowed_true [OF p(13) [unfolded notnotD [OF p(15), THEN eqTrueI]]] w3 w45
        by (blast intro: answered_mono)
      have ac: "answered (get_action_config env (merged_actions w) (PStr (wp_event_type payload))) ac w w5"
        by (rule answeredI [where v = w and v' = w2]) (use p(6) b w1 in \<open>auto simp: before_def\<close>)
      have cc: "answered (get_controller_config env cn) cc w w5"
        by (rule answeredI [where v = w2 and v' = w3]) (use p(9) b in \<open>auto simp: before_def\<close>)
      have cd: "answered (cooldown_remaining env cd_key seconds) None w w5" if "cooldown_applies payload seconds"
        by (rule answeredI [where v = w4 and v' = w5]) (use p(19,21) that b in \<open>auto simp: before_def\<close>)
      have e: "entry_get (heap w ! a) ''status'' = Some (PStr ''pending'')"
        "entry_get (heap w ! a) ''requested_by'' \<noteq> Some key" "a \<in> set (approval_queue w)"
        using cl by (auto simp: claimable_def)
      have "granted env i key c w w5"
        unfolding granted_def Let_def c claim.simps
        using e i p(4,5,8,11,12,16,17,18) [unfolded w1 h] req ac cc cd by blast
      then show ?thesis using w5 by simp
    qed
    done
  from givesD [OF this assms] show ?thesis by simp
qed

lemma answered_earlier: "before u w \<Longrightarrow> answered m x w w' \<Longrightarrow> answered m x u w'"
  by (rule answered_mono [OF _ _ before.R_refl])

lemma granted_before:
  assumes "before w w1" "granted env i key c w1 u"
  shows "granted env i key c w u"
proof -
  have eqs: "heap w1 = heap w" "approval_queue w1 = approval_queue w" "merged_actions w1 = merged_actions w"
    using assms(1) by (simp_all add: before_def)
  show ?thesis
    using assms(2) unfolding granted_def Let_def eqs by (blast intro: answered_earlier [OF assms(1)])
qed

lemma write_entry_returns: "write_entry env a xs x w = (Inr y, w') \<Longrightarrow> y = x"
  unfolding write_entry_def by (auto dest!: bindM_run_Inr)

lemma approve_claim_granted:
  assumes "approve_claim env i key role w = (Inr (Inr c), w')"
  obtains u where "approve_decide env i key role w = (Inr (Grant c), u)"
proof -
  from bindM_run_Inr [OF assms [unfolded approve_claim_writes]] obtain d u where
    d: "approve_decide env i key role w = (Inr d, u)"
    and rest: "(case d of
       Refuse refusal \<Rightarrow> returnM (Inl refusal)
     | Deny a \<Rightarrow> write_entry env a
         [(''status'', PStr ''rejected''), (''result'', PDict [(''error'', PStr REASON_NOT_PERMITTED)])]
         (Inl (detail_response 403 REASON_NOT_PERMITTED))
     | Grant c \<Rightarrow> write_entry env (cl_entry c)
         [(''status'', PStr ''approved''), (''approved_by'', key), (''approver_role'', role)] (Inr c)) u = (Inr (Inr c), w')"
    by blast
  from rest have "d = Grant c" by (cases d) (auto dest!: write_entry_returns)
  with d show thesis by (auto intro: that)
qed

lemma approve_starts:
  assumes "queue_ok w"
  shows "starts (\<lambda>w'. \<exists>role p c u v. answered (get_role_from_api_key env key) role w u
      \<and> answered (has_permission env role ''approve_actions'') p w u \<and> py_truthy p
      \<and> granted env i key c w u \<and> before w u \<and> ran_claim env key c w v w')
    (approve_approval env i key) w"
  unfolding approve_approval_def
  apply (rule starts_bind [OF guard_before(1)])
  apply (rule starts_bind [OF guard_before(4)])
  apply (rule starts_if)
   apply (intro starts_quiet infra_parts)
  apply (rule starts_infra_bind [OF approve_claim_infra])
  apply (rule starts_sum)
   apply (intro starts_quiet infra_parts)
  subgoal premises p for role w1 pv w2 cr w3 c
  proof (cases "py_truthy (opt_bool (wp_dry_run (cl_payload c)))")
    case True
    then have "keeps_infra (approve_execute env c)" unfolding approve_execute_def by (simp add: dry_infra)
    then show ?thesis
      unfolding approve_run_def by (intro starts_quiet infra_parts approve_after_infra)
  next
    case False
    have w2: "before w w2" "queue_ok w2" using p(2,4) assms by (auto simp: before_def queue_ok_def)
    obtain u where u: "approve_decide env i key role w2 = (Inr (Grant c), u)"
      using p(6) unfolding p(8) by (rule approve_claim_granted)
    have "granted env i key c w2 u" "before w2 u" using decide_grants [OF u] by auto
    then have g: "granted env i key c w u" and wu: "before w u"
      using granted_before [OF w2(1)] before.R_trans [OF w2(1)] by auto
    have "held key (cl_entry c) w3"
      using approve_claim_run [OF w2(2) p(6) [unfolded p(8)]] by (auto simp: held_def stands_def)
    then have e: "entry_get (heap w3 ! cl_entry c) ''status'' = Some (PStr ''approved'')"
      "entry_get (heap w3 ! cl_entry c) ''approved_by'' = Some key"
      by (auto elim!: heldE)
    have b: "before w1 u" "before w2 u" using \<open>before w2 u\<close> p(4) before.R_trans by auto
    have r: "answered (get_role_from_api_key env key) role w u"
      by (rule answeredI [where v = w and v' = w1]) (use p(1,2) b before.R_refl in auto)
    have a: "answered (has_permission env role ''approve_actions'') pv w u"
      by (rule answeredI [where v = w1 and v' = w2]) (use p(2,3,4) b before.R_refl in auto)
    have i: "infra w3 = infra w" using p(7) w2 by (simp add: before_def)
    show ?thesis
      unfolding approve_run_def
    proof (rule starts_here)
      fix w' :: "'a server_scheme"
      assume "infra w' = infra (snd (approve_execute env c w3))"
      then have ran: "ran_claim env key c w w3 w'"
        using False e i by (simp add: ran_claim_def approve_execute_def)
      show "\<exists>role p c u v. answered (get_role_from_api_key env key) role w u
      \<and> answered (has_permission env role ''approve_actions'') p w u \<and> py_truthy p
      \<and> granted env i key c w u \<and> before w u \<and> ran_claim env key c w v w'"
        using r a notnotD [OF p(5)] g wu ran by blast
    qed (intro infra_parts approve_after_infra)
  qed
  done

section \<open>No execution without authorization\<close>

lemma startsD: "starts Q m w \<Longrightarrow> m w = (r, w') \<Longrightarrow> infra w' \<noteq> infra w \<Longrightarrow> Q w'"
  by (simp add: starts_def)

lemma other_handlers_quiet:
  assumes "handle env version req key w = (r, w')" "infra w' \<noteq> infra w"
  shows "(\<exists>body ip. req = Webhook body ip) \<or> (\<exists>i. req = ApproveApproval i)"
proof (rule ccontr)
  assume "\<not> ?thesis"
  then have "keeps_infra (handle env version req key :: ('a server_scheme, response) pym)"
    by (cases req) (auto intro: infra.keeps_return quiet_handlers)
  from infra.keeps_run [OF this assms(1)] assms(2) show False by simp
qed

lemma parse_failure_quiet: "parse_payload env body = Inl x \<Longrightarrow> keeps_infra (webhook env body key ip)"
  by (simp add: webhook_def infra.keeps_return)



section \<open>Examples\<close>

lemma example_execution:
  assumes e: "\<And>n cmd. env_proc env n cmd = ProcDone 0 ''ok'' []"
  shows "execute_action env (cl_action_config approval_claim) (cl_controller_config approval_claim) [] False w
    = (Inr (Some (proc_result 0 ''ok'' [])), w\<lparr>tick := Suc (tick w), trace := trace w @ [ProcEffect [''systemctl'', ''restart'', ''nginx'']]\<rparr>)"
proof -
  have f: "format_template env [] (PStr ''systemctl restart nginx'') = Inr ''systemctl restart nginx''"
    by (simp add: format_template_def)
  have s: "shlex_split ''systemctl restart nginx'' = Inr [''systemctl'', ''restart'', ''nginx'']"
    by code_simp
  show ?thesis
    by (simp add: execute_action_def approval_claim_def is_local_controller_def run_command_def f s e bindM_run
        subprocess_run_def as_argument_def local_result_def)
qed

lemma infra_of_bind: "(\<And>x. keeps_infra (f x)) \<Longrightarrow> infra (snd (bindM m f w)) = infra (snd (m w))"
  by (auto simp: bindM_run keeps_def split: prod.split sum.split)

lemma approve_run_infra: "infra (snd (approve_run env i key role c w)) = infra (snd (approve_execute env c w))"
  unfolding approve_run_def by (rule infra_of_bind) (intro infra_parts approve_after_infra)

lemma example_bob:
  "get_role_from_api_key approval_env (PStr ''bob'') w = (Inr (PStr ''lead''), w\<lparr>tick := Suc (tick w)\<rparr>)"
  "has_permission approval_env (PStr ''lead'') ''approve_actions'' w = (Inr (PBool True), w\<lparr>tick := Suc (tick w)\<rparr>)"
  by (simp_all add: get_role_from_api_key_def get_key_scope_def load_auth_config_def resolve_api_keys_def bindM_run
      approval_env_def py_or_def py_is_dict_def Let_def normalize_key_entry_def has_permission_def permission_in_def dget_def)

lemma example_approval_runs:
  "infra (snd (approve_approval approval_env ''r1'' (PStr ''bob'') example_server))
    = [ProcEffect [''systemctl'', ''restart'', ''nginx'']]"
proof -
  obtain w1 where c: "approve_claim approval_env ''r1'' (PStr ''bob'') (PStr ''lead'') (example_server\<lparr>tick := 2\<rparr>)
      = (Inr (Inr approval_claim), w1)" using example_claimed_at by blast
  have i: "infra w1 = []"
    using infra.keeps_run [OF approve_claim_infra c] by (simp add: infra_def example_server_simps)
  have "approve_approval approval_env ''r1'' (PStr ''bob'') example_server
      = approve_run approval_env ''r1'' (PStr ''bob'') (PStr ''lead'') approval_claim w1"
    using c by (simp add: approve_approval_def bindM_run example_bob example_server_simps numeral_2_eq_2)
  moreover have "infra (snd (approve_execute approval_env approval_claim w1)) = [ProcEffect [''systemctl'', ''restart'', ''nginx'']]"
    using i example_execution [of approval_env w1]
    by (simp add: approve_execute_def approval_env_def approval_claim_def opt_bool_def infra_def is_infra_def)
  ultimately show ?thesis by (simp add: approve_run_infra)
qed


text \<open>The same request of alice without approval, as a body of the form \<open>{}\<close> that validates.\<close>

definition webhook_env :: env where
  "webhook_env = approval_env\<lparr>env_payload := \<lambda>d. Inr \<lparr>wp_event_type = ''restart'', wp_controller_override = None,
     wp_parameters = Some [], wp_dry_run = Some False, wp_approval_required = Some False\<rparr>\<rparr>"

lemma webhook_execute_infra:
  assumes "py_get_or ac ''cooldown_seconds'' (PInt 0) = Inr seconds"
    and "cooldown_key_for env ac (wp_event_type payload) cn ps = Inr cd_key"
    and "(if cooldown_applies payload seconds then cooldown_remaining env cd_key seconds else returnM None) w = (Inr None, w1)"
  shows "infra (snd (webhook_execute env payload key role ip ac cn cc ps w))
    = infra (snd (execute_action env ac cc ps (py_truthy (opt_bool (wp_dry_run payload))) w1))"
  unfolding webhook_execute_def Let_def assms(1,2) bindM_liftM(1)
    bindM_Inr [where m = "if cooldown_applies payload seconds then cooldown_remaining env cd_key seconds else returnM None", OF assms(3)]
    option.case
  by (rule infra_of_bind) (intro infra_parts)

lemma example_alice:
  "get_role_from_api_key webhook_env (PStr ''alice'') w = (Inr (PStr ''operator''), w\<lparr>tick := Suc (tick w)\<rparr>)"
  "has_permission webhook_env (PStr ''operator'') ''execute_actions'' w = (Inr (PBool True), w\<lparr>tick := Suc (tick w)\<rparr>)"
  "is_action_allowed_for_key webhook_env (PStr ''alice'') a w = (Inr True, w\<lparr>tick := Suc (tick w)\<rparr>)"
  "is_controller_allowed_for_key webhook_env (PStr ''alice'') a w = (Inr True, w\<lparr>tick := Suc (tick w)\<rparr>)"
  "get_controller_config webhook_env (PStr ''local'') w = (Inr (PDict [(''type'', PStr ''local'')]), w\<lparr>tick := Suc (tick w)\<rparr>)"
  by (simp_all add: get_role_from_api_key_def get_key_scope_def load_auth_config_def resolve_api_keys_def bindM_run
      webhook_env_def approval_env_def py_or_def py_is_dict_def Let_def normalize_key_entry_def has_permission_def
      permission_in_def dget_def is_action_allowed_for_key_def is_controller_allowed_for_key_def scope_allows_def
      get_controller_config_def load_controllers_config_def)

lemma example_rate:
  assumes "rl_hits (limiter w) k = None" "rl_config (limiter w) = PDict []"
  shows "\<exists>rl. rate_gate webhook_env k (Inr (PInt 60)) p a r w = (Inr None, w\<lparr>tick := Suc (tick w), limiter := rl\<rparr>)
    \<and> rl_config rl = PDict [] \<and> (\<forall>k'. k' \<noteq> k \<longrightarrow> rl_hits rl k' = rl_hits (limiter w) k')"
  using assms
  by (auto simp: rate_gate_def rate_check_def bindM_run rl_check_def num_or_raise_def rl_stored_def Let_def)

definition example_payload :: webhook_payload where
  "example_payload = \<lparr>wp_event_type = ''restart'', wp_controller_override = None,
     wp_parameters = Some [], wp_dry_run = Some False, wp_approval_required = Some False\<rparr>"

text \<open>The call of alice passes the gates of every server with this catalogue and a fresh limiter.\<close>

lemma example_webhook_passes:
  fixes w :: "'s server_scheme"
  assumes m: "merged_actions w = Some (PDict [(''restart'', cl_action_config approval_claim)])"
    and "rl_config (limiter w) = PDict []" "rl_hits (limiter w) = Map.empty"
  shows "\<exists>rl. webhook webhook_env ''{}'' (PStr ''alice'') ip w
      = webhook_execute webhook_env example_payload (PStr ''alice'') (PStr ''operator'') ip (cl_action_config approval_claim)
          (PStr ''local'') (cl_controller_config approval_claim) [] (w\<lparr>tick := tick w + 7, limiter := rl\<rparr>)"
proof -
  let ?payload = example_payload
  have "json_loads (env_float_parse webhook_env) ''{}'' = Inr (PDict [])" by code_simp
  then have parse: "parse_payload webhook_env ''{}'' = Inr ([], ?payload)"
    by (simp add: parse_payload_def webhook_env_def example_payload_def)
  have l: "limit_for_role rl (PStr ''operator'') = Inr (PInt 60)" "limit_for_action rl ''restart'' = Inr PNone"
    if "rl_config rl = PDict []" for rl
    using that by (simp_all add: limit_for_role_def limit_for_action_def dget_def py_or_def py_in_val_def DEFAULT_REQUESTS_PER_MINUTE_def)
  let ?ac = "cl_action_config approval_claim" and ?cc = "cl_controller_config approval_claim"
  let ?w1 = "w\<lparr>tick := Suc (tick w)\<rparr>"
  obtain rl where g1: "rate_gate webhook_env (''caller:'' @ str_of webhook_env (PStr ''alice'')) (Inr (PInt 60)) ?payload (PStr ''alice'') (PStr ''operator'') ?w1
      = (Inr None, ?w1\<lparr>tick := tick w + 2, limiter := rl\<rparr>)" and rl: "rl_config rl = PDict []"
    using example_rate [of ?w1 "''caller:'' @ str_of webhook_env (PStr ''alice'')" ?payload "PStr ''alice''" "PStr ''operator''"] assms
    by (auto simp: numeral_2_eq_2)
  let ?w2 = "?w1\<lparr>tick := tick w + 2, limiter := rl\<rparr>" and ?w3 = "?w1\<lparr>tick := tick w + 3, limiter := rl\<rparr>"
  have g2: "rate_gate webhook_env (''action:'' @ ''restart'') (Inr PNone) ?payload (PStr ''alice'') (PStr ''operator'') ?w2 = (Inr None, ?w3)"
    by (simp add: rate_gate_def rate_check_def bindM_run rl_check_def)
  have ac: "get_action_config webhook_env (Some (PDict [(''restart'', ?ac)])) (PStr ''restart'') w = (Inr ?ac, w)" for w :: "'s server_scheme"
    by (simp add: get_action_config_def)
  have au: "webhook_authorize webhook_env ?payload (PStr ''alice'') (PStr ''operator'') ?ac ?w3
      = (Inr (Inr (PStr ''local'', ?cc)), ?w1\<lparr>tick := tick w + 7, limiter := rl\<rparr>)"
    by (simp add: webhook_authorize_def Let_def bindM_run example_alice example_payload_def chosen_controller_def opt_true_def
        approval_claim_def)
  have p: "merged_params ?ac (wp_parameters ?payload) = Inr []"
    by (simp add: merged_params_def example_payload_def approval_claim_def)
  have t: "py_truthy ?ac" by (simp add: approval_claim_def)
  have "webhook webhook_env ''{}'' (PStr ''alice'') ip w
      = webhook_execute webhook_env ?payload (PStr ''alice'') (PStr ''operator'') ip ?ac (PStr ''local'') ?cc []
          (?w1\<lparr>tick := tick w + 7, limiter := rl\<rparr>)"
    unfolding webhook_def parse sum.case prod.case Let_def
    using g1 g2 ac au m p t rl assms
    by (simp add: bindM_run example_alice l example_payload_def opt_bool_def)
  then show ?thesis by (intro exI [of _ rl]) simp
qed

text \<open>What the execution part finds for it.\<close>

lemma example_webhook_facts:
  "py_get_or (cl_action_config approval_claim) ''cooldown_seconds'' (PInt 0) = Inr (PInt 300)"
  "cooldown_key_for webhook_env (cl_action_config approval_claim) (wp_event_type example_payload) (PStr ''local'') []
     = Inr (cl_key approval_claim)"
  "py_truthy (opt_bool (wp_dry_run example_payload)) = False"
  "env_proc webhook_env n cmd = ProcDone 0 ''ok'' []"
  "cd_last_run (cooldowns w) = [] \<Longrightarrow>
    (if cooldown_applies example_payload (PInt 300) then cooldown_remaining webhook_env (cl_key approval_claim) (PInt 300) else returnM None) w
      = (Inr None, w\<lparr>tick := Suc (tick w)\<rparr>)"
  by (simp_all add: approval_claim_def cooldown_key_for_def dget_def example_payload_def str_of_def opt_bool_def
      webhook_env_def approval_env_def cooldown_applies_def cooldown_remaining_def bindM_run seconds_remaining_def)

lemma example_webhook_runs:
  "infra (snd (webhook webhook_env ''{}'' (PStr ''alice'') ip example_server))
    = [ProcEffect [''systemctl'', ''restart'', ''nginx'']]"
proof -
  obtain rl where run: "webhook webhook_env ''{}'' (PStr ''alice'') ip example_server
      = webhook_execute webhook_env example_payload (PStr ''alice'') (PStr ''operator'') ip (cl_action_config approval_claim)
          (PStr ''local'') (cl_controller_config approval_claim) [] (example_server\<lparr>tick := tick example_server + 7, limiter := rl\<rparr>)"
    using example_webhook_passes [of example_server ip] by (auto simp: example_server_simps approval_claim_def)
  have cd: "cd_last_run (cooldowns (example_server\<lparr>tick := tick example_server + 7, limiter := rl\<rparr>)) = []"
    by (simp add: example_server_simps)
  show ?thesis
    unfolding run webhook_execute_infra [OF example_webhook_facts(1,2) example_webhook_facts(5) [OF cd]]
      example_webhook_facts(3) example_execution [OF example_webhook_facts(4)]
    by (simp add: infra_def is_infra_def example_server_simps)
qed


end
