(* ===== verification/Recorded.thy ===== *)
theory Recorded
  imports Gates AuditRotation
begin

text \<open>
  Accountability: an answer that reports an execution is backed by the last line of the audit log.
\<close>

section \<open>Behind a successful append\<close>

text \<open>The last line of the log is an entry with a hash of its own content and property \<open>P\<close>.\<close>

definition logged :: "env \<Rightarrow> (pydict \<Rightarrow> bool) \<Rightarrow> 's server_scheme \<Rightarrow> bool" where
  "logged env P w \<longleftrightarrow> (\<exists>s d. fs w (ac_path (chain w)) = Some (s @ entry_line env (AList.update ''entry_hash'' (PStr (hash_entry env d)) d))
     \<and> P d)"

definition same_log :: "'s server_scheme \<Rightarrow> 's server_scheme \<Rightarrow> bool" where
  "same_log w w' \<longleftrightarrow> fs w' = fs w \<and> chain w' = chain w"

interpretation same_log: state_preorder same_log
  by unfold_locales (auto simp: same_log_def)

lemma same_log_logged: "same_log w w' \<Longrightarrow> logged env P w \<Longrightarrow> logged env P w'"
  by (auto simp: same_log_def logged_def)

lemma ship_same_log: "keeps same_log (ship env e)"
proof -
  have "same_log w w'" if "ship_frame w w'" for w w' :: "'s server_scheme"
    using that by (cases w; cases w') (auto simp: ship_frame_def same_log_def)
  then show ?thesis using ship_keeps unfolding keeps_def by blast
qed

lemma notify_same_log: "keeps same_log (notify env ev sev key)"
proof -
  have i: "same_log w w'" if "inner_frame w w'" for w w' :: "'s server_scheme"
    using that by (cases w; cases w') (auto simp: inner_frame_def same_log_def)
  then have f: "keeps same_log (fan_out env s ev sv cs results)" for s sv cs results
    using fan_out_inner unfolding keeps_def by blast
  have d: "keeps same_log (is_duplicate env k)" for k
    unfolding is_duplicate_def
    by (auto simp: keeps_def bindM_run same_log_def split: prod.split)
  show ?thesis unfolding notify_def by (intro same_log.keeps_rules f d)
qed

lemma write_locked_inv:
  assumes "write_locked env ac e w = (Inr d, w')"
  shows "d = chained_entry env (fs w (ac_path ac)) e \<and> (\<exists>s. fs w' (ac_path ac) = Some (s @ entry_line env d))
    \<and> disk.more w' = disk.more w"
  using assms by (auto simp: write_locked_def append_file_def bindM_run split: option.splits)

lemma chained_entry_fields:
  assumes "distinct (map fst e)"
  obtains d where "chained_entry env c e = AList.update ''entry_hash'' (PStr (hash_entry env d)) d"
    "\<And>k. k \<noteq> ''sequence'' \<Longrightarrow> k \<noteq> ''prev_hash'' \<Longrightarrow> dget d k = dget e k"
proof -
  obtain i h where s: "current_state env c = (i, h)" by (cases "current_state env c")
  show thesis
    by (rule that [of "alist_merge (alist_merge [] e) [(''sequence'', PInt (i + 1)), (''prev_hash'', PStr h)]"])
      (simp_all add: chained_entry_def s Let_def alist_merge_empty [OF assms])
qed

text \<open>What \<open>write_audit_log\<close> leaves behind when it returns.\<close>

lemma write_audit_log_logged:
  assumes "write_audit_log env e w = (Inr (), w')" "distinct (map fst e)"
  shows "logged env (\<lambda>d. dget d ''execution'' = py_or (dget e ''execution'') (PDict [])
    \<and> (\<forall>k. k \<notin> {''timestamp'', ''client_ip'', ''execution'', ''status'', ''error'', ''sequence'', ''prev_hash''} \<longrightarrow> dget d k = dget e k)) w'"
proof -
  define w1 where "w1 = w\<lparr>tick := Suc (tick w)\<rparr>"
  define t where "t = env_iso_time env (env_clock env (tick w))"
  obtain ae where ae: "audit_entry_of t e = Inr ae"
    using assms(1) by (cases "audit_entry_of t e") (simp_all add: write_audit_log_def bindM_run t_def)
  then have m: "bindM (append_entry env (chain w1) ae) (\<lambda>fin. ship env fin) w1 = (Inr (), w')"
    using assms(1) by (simp add: write_audit_log_def bindM_run [of "time_time env"] t_def w1_def)
  from bindM_run_Inr [OF m] obtain fin w2 where a: "append_entry env (chain w1) ae w1 = (Inr fin, w2)"
    and sh: "ship env fin w2 = (Inr (), w')" by auto
  have f: "disk.more w2 = disk.more w1" using logf.keeps_run [OF append_entry_frame a] by (simp add: log_frame_def)
  have c: "chain w2 = chain w1" using f by (cases w1; cases w2) auto
  from a obtain w3 where wl: "write_locked env (chain w1) ae w3 = (Inr fin, w2)"
    using bindM_run_Inr [OF a [unfolded append_entry_def]] by auto
  have fields: "distinct (map fst ae) \<and> dget ae ''execution'' = py_or (dget e ''execution'') (PDict [])
      \<and> (\<forall>k. k \<notin> {''timestamp'', ''client_ip'', ''execution'', ''status'', ''error''} \<longrightarrow> dget ae k = dget e k)"
  proof -
    from ae obtain u v where "ae = AList.update ''error'' v (AList.update ''status'' u
        (AList.update ''execution'' (py_or (dget e ''execution'') (PDict []))
          (if has_key (AList.update ''timestamp'' (PStr t) e) ''client_ip'' then AList.update ''timestamp'' (PStr t) e
           else AList.update ''client_ip'' PNone (AList.update ''timestamp'' (PStr t) e))))"
      by (auto simp: audit_entry_of_def Let_def rbind_eq_Inr)
    then show ?thesis using assms(2) by simp
  qed
  obtain d where d: "chained_entry env (fs w3 (ac_path (chain w1))) ae = AList.update ''entry_hash'' (PStr (hash_entry env d)) d"
    "\<And>k. k \<noteq> ''sequence'' \<Longrightarrow> k \<noteq> ''prev_hash'' \<Longrightarrow> dget d k = dget ae k"
    by (rule chained_entry_fields [of ae env "fs w3 (ac_path (chain w1))"]) (use fields in auto)
  obtain s where "fs w2 (ac_path (chain w2)) = Some (s @ entry_line env (AList.update ''entry_hash'' (PStr (hash_entry env d)) d))"
    using write_locked_inv [OF wl] d(1) c by auto
  then have "logged env (\<lambda>d. dget d ''execution'' = py_or (dget e ''execution'') (PDict [])
    \<and> (\<forall>k. k \<notin> {''timestamp'', ''client_ip'', ''execution'', ''status'', ''error'', ''sequence'', ''prev_hash''} \<longrightarrow> dget d k = dget e k)) w2"
    unfolding logged_def using d(2) fields by (intro exI [of _ s] exI [of _ d]) simp
  then show ?thesis by (rule same_log_logged [OF same_log.keeps_run [OF ship_same_log sh]])
qed

lemma log_and_notify_logged:
  assumes "log_and_notify env e ev ac w = (Inr (), w')" "distinct (map fst e)"
  shows "logged env (\<lambda>d. dget d ''execution'' = py_or (dget e ''execution'') (PDict [])
    \<and> (\<forall>k. k \<notin> {''timestamp'', ''client_ip'', ''execution'', ''status'', ''error'', ''sequence'', ''prev_hash''} \<longrightarrow> dget d k = dget e k)) w'"
proof -
  from bindM_run_Inr [OF assms(1) [unfolded log_and_notify_def]] obtain w1 where
    l: "write_audit_log env e w = (Inr (), w1)"
    and r: "bindM (liftM (py_get ac ''severity'')) (\<lambda>severity. bindM (notify env ev severity None) (\<lambda>_. returnM ())) w1 = (Inr (), w')"
    by auto
  from bindM_run_Inr [OF r] obtain sev where "bindM (notify env ev sev None) (\<lambda>_. returnM ()) w1 = (Inr (), w')" by auto
  from bindM_run_Inr [OF this] obtain x where n: "notify env ev sev None w1 = (Inr x, w')" by auto
  show ?thesis
    by (rule same_log_logged [OF same_log.keeps_run [OF notify_same_log n] write_audit_log_logged [OF l assms(2)]])
qed

section \<open>Answers that report an execution\<close>

text \<open>The execution an answer reports: of a webhook call, and of an approval.\<close>

definition reported :: "request \<Rightarrow> response \<Rightarrow> pyval option" where
  "reported req resp = (case rs_content resp of
     PDict content \<Rightarrow>
       (case req of
          Webhook _ _ \<Rightarrow> map_of content ''execution''
        | ApproveApproval _ \<Rightarrow> map_of content ''result''
        | _ \<Rightarrow> None)
   | _ \<Rightarrow> None)"

text \<open>Who the log says it was.\<close>

definition accountable :: "request \<Rightarrow> pyval \<Rightarrow> pydict \<Rightarrow> bool" where
  "accountable req key d \<longleftrightarrow> (case req of
     Webhook _ _ \<Rightarrow> dget d ''user'' = key
   | ApproveApproval i \<Rightarrow> dget d ''approved_by'' = key \<and> dget d ''approval_id'' = PStr i
   | _ \<Rightarrow> True)"

definition backed :: "env \<Rightarrow> request \<Rightarrow> pyval \<Rightarrow> response \<Rightarrow> 's server_scheme \<Rightarrow> bool" where
  "backed env req key resp w \<longleftrightarrow>
     (\<forall>x. reported req resp = Some x \<longrightarrow> logged env (\<lambda>d. dget d ''execution'' = x \<and> accountable req key d) w)"

text \<open>\<open>m\<close> returns only with \<open>Q\<close>, wherever it starts.\<close>

definition yields :: "('a \<Rightarrow> 's \<Rightarrow> bool) \<Rightarrow> ('s, 'a) pym \<Rightarrow> bool" where
  "yields Q m \<longleftrightarrow> (\<forall>w x w'. m w = (Inr x, w') \<longrightarrow> Q x w')"

lemma yields_return: "(\<And>w. Q x w) \<Longrightarrow> yields Q (returnM x)"
  by (simp add: yields_def)

lemma yields_bind: "(\<And>y. yields Q (f y)) \<Longrightarrow> yields Q (bindM m f)"
  unfolding yields_def by (metis bindM_run_Inr)

lemma yields_if: "yields Q m \<Longrightarrow> yields Q n \<Longrightarrow> yields Q (if b then m else n)"
  by simp

lemma yields_option: "yields Q m \<Longrightarrow> (\<And>x. yields Q (f x)) \<Longrightarrow> yields Q (case p of None \<Rightarrow> m | Some x \<Rightarrow> f x)"
  by (cases p) simp_all

lemma yields_sum:
  "(\<And>x. yields Q (f x)) \<Longrightarrow> (\<And>x. yields Q (g x)) \<Longrightarrow> yields Q (case p of Inl x \<Rightarrow> f x | Inr x \<Rightarrow> g x)"
  by (cases p) simp_all

lemma yields_prod: "(\<And>x y. yields Q (f x y)) \<Longrightarrow> yields Q (case p of (x, y) \<Rightarrow> f x y)"
  by (cases p) simp

lemma logged_mono: "logged env P w \<Longrightarrow> (\<And>d. P d \<Longrightarrow> Q d) \<Longrightarrow> logged env Q w"
  by (auto simp: logged_def)

lemma yields_log:
  assumes "distinct (map fst e)"
    and "\<And>w'. logged env (\<lambda>d. dget d ''execution'' = py_or (dget e ''execution'') (PDict [])
      \<and> dget d ''user'' = dget e ''user'' \<and> dget d ''approved_by'' = dget e ''approved_by''
      \<and> dget d ''approval_id'' = dget e ''approval_id'') w' \<Longrightarrow> Q x w'"
  shows "yields Q (bindM (log_and_notify env e ev ac) (\<lambda>_. returnM x))"
  unfolding yields_def
proof (intro allI impI)
  fix w w' :: "'a server_scheme" and y
  assume "bindM (log_and_notify env e ev ac) (\<lambda>_. returnM x) w = (Inr y, w')"
  from bindM_run_Inr [OF this] have l: "log_and_notify env e ev ac w = (Inr (), w')" and y: "y = x" by auto
  show "Q y w'"
    unfolding y by (rule assms(2), rule logged_mono [OF log_and_notify_logged [OF l assms(1)]]) simp
qed

lemma backed_none: "reported req resp = None \<Longrightarrow> backed env req key resp w"
  by (simp add: backed_def)

lemma yields_write: "(\<And>w. Q x w) \<Longrightarrow> yields Q (bindM m (\<lambda>_. returnM x))"
  by (intro yields_bind yields_return)

lemma webhook_execute_backed:
  "yields (backed env (Webhook body ip) key) (webhook_execute env payload key role ip' ac cn cc ps)"
  unfolding webhook_execute_def Let_def
proof (intro yields_bind, rule yields_option, rule yields_bind, rule yields_option, goal_cases)
  case 1
  show ?case by (intro yields_return backed_none) (simp add: reported_def detail_response_def json_response_def)
next
  case (2 seconds cd_key remaining exec r)
  show ?case
  proof (rule yields_bind, rule yields_bind, rule yields_log, goal_cases)
    case 1
    show ?case by simp
  next
    case (2 u t w')
    show ?case
      unfolding backed_def
      by (intro allI impI, rule logged_mono [OF 2])
        (auto simp: reported_def ok_response_def accountable_def py_or_def as_dict_def dget_def [of "_ # _"])
  qed
next
  case 3
  show ?case by (intro yields_write backed_none) (simp add: reported_def cooldown_block_response_def json_response_def)
qed

lemma detail_backed: "backed env req key (detail_response code t) w"
  by (cases req; rule backed_none; simp add: reported_def detail_response_def json_response_def)

lemma rate_gate_unreported: "returns (\<lambda>r. \<forall>resp. r = Some resp \<longrightarrow> reported req resp = None) (rate_gate env key l p a r)"
  unfolding rate_gate_def
  by (intro returns_rules) (auto simp: reported_def rate_limit_block_response_def split: request.split)

lemma authorize_unreported:
  "returns (\<lambda>r. \<forall>resp. r = Inl resp \<longrightarrow> reported req resp = None) (webhook_authorize env p k role ac)"
  unfolding webhook_authorize_def Let_def
  by (intro returns_rules) (auto simp: reported_def detail_response_def json_response_def split: request.split)

lemma yields_gate:
  assumes "\<And>resp. p = Some resp \<Longrightarrow> reported req resp = None" "yields (backed env req key) m"
  shows "yields (backed env req key) (case p of Some resp \<Rightarrow> returnM resp | None \<Rightarrow> m)"
  using assms by (cases p) (auto intro: yields_return backed_none)

lemma yields_after:
  assumes "returns P m" "\<And>y. P y \<Longrightarrow> yields Q (f y)"
  shows "yields Q (bindM m f)"
  using assms unfolding yields_def returns_def by (metis bindM_run_Inr)

lemma parse_unreported: "parse_payload env body = Inl resp \<Longrightarrow> reported req resp = None"
  by (cases req) (auto simp: parse_payload_def reported_def detail_response_def json_response_def
      split: sum.splits pyval.splits)

lemma queue_backed: "yields (backed env (Webhook body ip) key) (queue_for_approval env raw k role cn)"
  unfolding queue_for_approval_def Let_def
  by (intro yields_bind yields_return backed_none) (simp add: reported_def ok_response_def)

lemma webhook_backed: "yields (backed env (Webhook body ip) key) (webhook env body key ip)"
proof (cases "parse_payload env body")
  case (Inl resp)
  then show ?thesis by (simp add: webhook_def yields_return backed_none parse_unreported)
next
  case (Inr rp)
  obtain raw payload where rp: "rp = (raw, payload)" by (cases rp)
  show ?thesis
    unfolding webhook_def Inr rp sum.case prod.case Let_def
    apply (rule yields_bind, rule yields_bind, rule yields_after [OF rate_gate_unreported [where req = "Webhook body ip"]])
    apply (rule yields_gate, blast)
    apply (rule yields_bind, rule yields_bind, rule yields_if, rule yields_return, rule detail_backed)
    apply (rule yields_bind, rule yields_after [OF rate_gate_unreported [where req = "Webhook body ip"]])
    apply (rule yields_gate, blast)
    apply (rule yields_after [OF authorize_unreported [where req = "Webhook body ip"]])
    subgoal for role rl g m ac rl2 g2 au
      by (cases au) (auto intro!: yields_return yields_bind yields_if queue_backed webhook_execute_backed intro: backed_none)
    done
qed

lemma returns_bind: "returns P m \<Longrightarrow> (\<And>y. P y \<Longrightarrow> returns Q (f y)) \<Longrightarrow> returns Q (bindM m f)"
  unfolding returns_def by (metis bindM_run_Inr)

lemma decide_refuses_unreported:
  "returns (\<lambda>d. \<forall>resp. d = Refuse resp \<longrightarrow> reported req resp = None) (approve_decide env i k role)"
proof -
  have p: "returns (\<lambda>e. \<forall>resp. e = Inl resp \<longrightarrow> reported req resp = None) (pending_entry env v i k)" for v
    unfolding pending_entry_def
    by (intro returns_rules) (auto simp: reported_def detail_response_def json_response_def split: request.split)
  show ?thesis
    unfolding approve_decide_def Let_def
  proof (rule returns_bind [OF p], goal_cases)
    case (1 e)
    show ?case
    proof (cases e)
      case (Inl resp)
      then show ?thesis using 1 by (auto intro: returns_rules)
    next
      case (Inr a)
      show ?thesis
        unfolding Inr sum.case
        by (intro returns_rules) (auto simp: reported_def cooldown_block_response_def json_response_def split: request.split)
    qed
  qed
qed

lemma approve_claim_unreported:
  "returns (\<lambda>r. \<forall>resp. r = Inl resp \<longrightarrow> reported req resp = None) (approve_claim env i k role)"
  unfolding approve_claim_def
proof (rule returns_bind [OF decide_refuses_unreported [where req = req]], goal_cases)
  case (1 d)
  then show ?case
    by (cases d) (auto intro!: returns_rules simp: reported_def detail_response_def json_response_def split: request.split)
qed

lemma approve_run_backed: "yields (backed env (ApproveApproval i) key) (approve_run env i key role c)"
  unfolding approve_run_def
proof (rule yields_bind, rule yields_option, goal_cases)
  case 1
  show ?case
    unfolding approve_no_executable_def by (intro yields_bind yields_return detail_backed)
next
  case (2 exec r)
  show ?case
    unfolding approve_report_def
  proof (rule yields_bind, rule yields_bind, rule yields_bind, rule yields_bind, rule yields_bind, rule yields_log, goal_cases)
    case 1
    show ?case by simp
  next
    case (2 u1 u2 by_key role2 t w')
    show ?case
      unfolding backed_def
      by (intro allI impI, rule logged_mono [OF 2])
        (auto simp: reported_def ok_response_def accountable_def py_or_def as_dict_def dget_def [of "_ # _"])
  qed
qed

lemma approve_backed: "yields (backed env (ApproveApproval i) key) (approve_approval env i key)"
  unfolding approve_approval_def
proof (rule yields_bind, rule yields_bind, rule yields_if, goal_cases)
  case 1
  show ?case by (intro yields_return detail_backed)
next
  case (2 role v)
  show ?case
  proof (rule yields_after [OF approve_claim_unreported [where req = "ApproveApproval i"]], goal_cases)
    case (1 r)
    then show ?case by (cases r) (auto intro: yields_return backed_none approve_run_backed)
  qed
qed


section \<open>An example\<close>

lemma log_and_notify_returns:
  assumes "\<And>n. env_save_fault env n = None" "\<forall>n p m. env_smtp env n p \<noteq> SmtpRaised m"
    and "ac_retention (chain w) = PDict []" "as_config (shipper w) = PDict []" "sane_sender (sender w)"
    and "dget e ''execution'' = PDict x" "x \<noteq> []" "py_get ac ''severity'' = Inr sev" "py_hashable sev"
  shows "\<exists>w'. log_and_notify env e ev ac w = (Inr (), w')"
proof -
  obtain ae where ae: "audit_entry_of (env_iso_time env (env_clock env (tick w))) e = Inr ae"
    using assms(6,7) by (simp add: audit_entry_of_def Let_def py_or_def)
  let ?w1 = "w\<lparr>tick := Suc (tick w)\<rparr>"
  obtain fin w2 where a: "append_entry env (chain w) ae ?w1 = (Inr fin, w2)"
    and w2: "shipper w2 = shipper w" "sender w2 = sender w"
    using write_locked_run [of env "chain w" ae ?w1] assms(1)
    by (auto simp: dget_def Let_def append_no_rotation [OF assms(3)])
  have s: "ship env fin w2 = (Inr (), w2)"
    using w2 assms(4) by (simp add: ship_def py_or_def dget_def Let_def)
  have l: "write_audit_log env e w = (Inr (), w2)"
    using ae a s by (simp add: write_audit_log_def bindM_run)
  obtain results w3 where "notify env ev sev None w2 = (Inr results, w3)"
    using notify_total [of w2 sev env ev None] assms(2,5,9) w2 by auto
  then show ?thesis using l assms(8) by (simp add: log_and_notify_def bindM_run)
qed

definition quiet_server :: server where
  "quiet_server = example_server\<lparr>shipper := \<lparr>as_config = PDict [], as_handler = None\<rparr>\<rparr>"

lemma example_answer:
  "\<exists>resp w'. webhook webhook_env ''{}'' (PStr ''alice'') PNone quiet_server = (Inr resp, w')
     \<and> reported (Webhook ''{}'' PNone) resp = Some (PDict (as_dict (proc_result 0 ''ok'' []))) \<and> chain w' = chain quiet_server"
proof -
  obtain rl where run: "webhook webhook_env ''{}'' (PStr ''alice'') PNone quiet_server
      = webhook_execute webhook_env example_payload (PStr ''alice'') (PStr ''operator'') PNone (cl_action_config approval_claim)
          (PStr ''local'') (cl_controller_config approval_claim) [] (quiet_server\<lparr>tick := tick quiet_server + 7, limiter := rl\<rparr>)"
    using example_webhook_passes [of quiet_server PNone] by (auto simp: example_server_simps approval_claim_def quiet_server_def)
  let ?w = "quiet_server\<lparr>tick := tick quiet_server + 7, limiter := rl\<rparr>"
  have cd: "cd_last_run (cooldowns ?w) = []" by (simp add: example_server_simps quiet_server_def)
  let ?w2 = "?w\<lparr>tick := Suc (Suc (tick ?w)), trace := trace ?w @ [ProcEffect [''systemctl'', ''restart'', ''nginx'']]\<rparr>"
  have ex: "execute_action webhook_env (cl_action_config approval_claim) (cl_controller_config approval_claim) [] False (?w\<lparr>tick := Suc (tick ?w)\<rparr>)
      = (Inr (Some (proc_result 0 ''ok'' [])), ?w2)"
    using example_execution [OF example_webhook_facts(4), of "?w\<lparr>tick := Suc (tick ?w)\<rparr>"] by simp
  obtain w3 where rec: "cooldown_record webhook_env (cl_key approval_claim) ?w2 = (Inr (), w3)"
    and w3: "chain w3 = chain quiet_server" "shipper w3 = shipper quiet_server" "sender w3 = sender quiet_server"
    by (simp add: cooldown_record_def bindM_run cd_record_def cd_save_def cd_prune_def num_or_raise_def quiet_server_def
        example_server_simps Let_def)
  have "\<exists>w4. log_and_notify webhook_env
      [(''user'', PStr ''alice''), (''role'', PStr ''operator''), (''action'', PStr (wp_event_type example_payload)),
       (''controller'', PStr ''local''), (''controller_type'', PStr ''local''), (''parameters'', PDict []),
       (''execution'', PDict (as_dict (proc_result 0 ''ok'' []))), (''client_ip'', PNone), (''dry_run'', opt_bool (wp_dry_run example_payload))]
      (result_event (wp_event_type example_payload) (PStr ''local'') (PStr ''alice'') (proc_result 0 ''ok'' []))
      (cl_action_config approval_claim) w3 = (Inr (), w4)"
  proof (rule log_and_notify_returns [where x = "as_dict (proc_result 0 ''ok'' [])"])
    show "sane_sender (sender w3)" using sane_example by (simp add: w3 quiet_server_def example_server_simps)
    show "ac_retention (chain w3) = PDict []" "as_config (shipper w3) = PDict []"
      by (simp_all add: w3 quiet_server_def example_server_simps)
    show "py_get (cl_action_config approval_claim) ''severity'' = Inr PNone" by (simp add: approval_claim_def dget_def)
  qed (simp_all add: webhook_env_def approval_env_def example_env_def dget_def as_dict_def py_hashable_def)
  then have "\<exists>resp w'. webhook webhook_env ''{}'' (PStr ''alice'') PNone quiet_server = (Inr resp, w')
     \<and> reported (Webhook ''{}'' PNone) resp = Some (PDict (as_dict (proc_result 0 ''ok'' [])))"
    unfolding run webhook_execute_def Let_def example_webhook_facts(1,2) bindM_liftM(1)
      bindM_Inr [where m = "if cooldown_applies example_payload (PInt 300) then cooldown_remaining webhook_env (cl_key approval_claim) (PInt 300) else returnM None", OF example_webhook_facts(5) [OF cd]]
      option.case example_webhook_facts(3)
    using ex rec
    by (auto simp: bindM_run cooldown_applies_def example_payload_def opt_bool_def approval_claim_def dget_def
        reported_def ok_response_def)
  then obtain resp w' where r: "webhook webhook_env ''{}'' (PStr ''alice'') PNone quiet_server = (Inr resp, w')"
    and rep: "reported (Webhook ''{}'' PNone) resp = Some (PDict (as_dict (proc_result 0 ''ok'' [])))" by blast
  have "calm ?w w'" by (rule calm.keeps_run [OF webhook_execute_calm r [unfolded run]])
  then show ?thesis using r rep by (auto simp: calm_def)
qed


end
