(* ===== verification/AuditQuery.thy ===== *)
theory AuditQuery
  imports Gates AuditRotation
begin

text \<open>
  The audit query as a selection: which entries \<open>/audit\<close> returns from a log the chain wrote, in which
  order, and how many.
\<close>

section \<open>The scan is a filter\<close>

text \<open>The entry of a line that parses and passes the filter.\<close>

definition match :: "env \<Rightarrow> audit_query \<Rightarrow> string \<Rightarrow> pyval option" where
  "match env q line = (case json_loads (env_float_parse env) line of
     Inr entry \<Rightarrow> (if filter_audit_entry entry q = Inr True then Some entry else None)
   | Inl _ \<Rightarrow> None)"

lemma audit_scan_step:
  "audit_scan env q (line # lines) results = (case match env q line of
     None \<Rightarrow> audit_scan env q lines results
   | Some entry \<Rightarrow> if aq_limit q \<le> int (length results) + 1 then results @ [entry]
       else audit_scan env q lines (results @ [entry]))"
proof (cases "json_loads (env_float_parse env) line")
  case (Inr entry)
  then show ?thesis by (cases "filter_audit_entry entry q") (simp_all add: match_def)
qed (simp add: match_def)

lemma audit_scan_filter:
  "int (length results) < aq_limit q \<or> results = [] \<Longrightarrow>
     audit_scan env q lines results
       = results @ take (nat (max 1 (aq_limit q)) - length results) (List.map_filter (match env q) lines)"
proof (induction lines arbitrary: results)
  case (Cons line lines)
  show ?case
  proof (cases "match env q line")
    case None
    then show ?thesis
      using Cons by (simp add: audit_scan_step List.map_filter_simps del: audit_scan.simps)
  next
    case (Some entry)
    show ?thesis
    proof (cases "aq_limit q \<le> int (length results) + 1")
      case True
      then have "nat (max 1 (aq_limit q)) - length results = 1" using Cons.prems by auto
      then show ?thesis
        using Some True by (simp add: audit_scan_step List.map_filter_simps del: audit_scan.simps)
    next
      case False
      then have "nat (max 1 (aq_limit q)) - length results = Suc (nat (max 1 (aq_limit q)) - length (results @ [entry]))"
        by auto
      then show ?thesis
        using Some False Cons.IH [of "results @ [entry]"]
        by (simp add: audit_scan_step List.map_filter_simps del: audit_scan.simps)
    qed
  qed
qed simp

section \<open>What the filter selects\<close>

text \<open>The meaning of the query parameters on an entry; an absent or empty parameter selects everything.\<close>

definition selected :: "audit_query \<Rightarrow> pydict \<Rightarrow> bool" where
  "selected q d \<longleftrightarrow>
     (\<forall>t. dget d ''timestamp'' = PStr t \<and> t \<noteq> [] \<longrightarrow>
        (\<forall>b. aq_start q = Some b \<and> b \<noteq> [] \<longrightarrow> \<not> str_less t b) \<and> (\<forall>b. aq_end q = Some b \<and> b \<noteq> [] \<longrightarrow> \<not> str_less b t))
     \<and> (\<forall>(k, wanted)\<in>{(''action'', aq_action q), (''user'', aq_user q), (''role'', aq_role q), (''controller'', aq_controller q)}.
          \<forall>v. wanted = Some v \<and> v \<noteq> [] \<longrightarrow> dget d k = PStr v)"

lemma opt_true_iff: "opt_true s \<longleftrightarrow> (\<exists>v. s = Some v \<and> v \<noteq> [])"
  by (cases s) (auto simp: opt_true_def)

lemma field_differs_run:
  "field_differs (PDict d) k wanted = Inr (opt_true wanted \<and> dget d k \<noteq> opt_str wanted)"
  by (simp add: field_differs_def del: py_get_or.simps)

lemma outside_dates_run:
  assumes "dget d ''timestamp'' = PStr t"
  shows "outside_dates (PDict d) q = Inr (t \<noteq> []
    \<and> (opt_true (aq_start q) \<and> str_less t (the (aq_start q)) \<or> opt_true (aq_end q) \<and> str_less (the (aq_end q)) t))"
  using assms by (auto simp: outside_dates_def text_of_def simp del: py_get_or.simps)

lemma selected_parts:
  assumes "dget d ''timestamp'' = PStr t"
  shows "selected q d \<longleftrightarrow>
    \<not> (t \<noteq> [] \<and> (opt_true (aq_start q) \<and> str_less t (the (aq_start q)) \<or> opt_true (aq_end q) \<and> str_less (the (aq_end q)) t))
    \<and> \<not> (opt_true (aq_action q) \<and> dget d ''action'' \<noteq> opt_str (aq_action q))
    \<and> \<not> (opt_true (aq_user q) \<and> dget d ''user'' \<noteq> opt_str (aq_user q))
    \<and> \<not> (opt_true (aq_role q) \<and> dget d ''role'' \<noteq> opt_str (aq_role q))
    \<and> \<not> (opt_true (aq_controller q) \<and> dget d ''controller'' \<noteq> opt_str (aq_controller q))"
proof -
  have f: "(\<forall>v. wanted = Some v \<and> v \<noteq> [] \<longrightarrow> x = PStr v) \<longleftrightarrow> \<not> (opt_true wanted \<and> x \<noteq> opt_str wanted)" for wanted x
    by (cases wanted) (auto simp: opt_true_def opt_str_def)
  have g: "(\<forall>b. wanted = Some b \<and> b \<noteq> [] \<longrightarrow> \<not> P b) \<longleftrightarrow> \<not> (opt_true wanted \<and> P (the wanted))" for wanted P
    by (cases wanted) (auto simp: opt_true_def)
  show ?thesis unfolding selected_def by (simp add: f g assms) blast
qed

lemma filter_selected:
  assumes "dget d ''timestamp'' = PStr t"
  shows "filter_audit_entry (PDict d) q = Inr (selected q d)"
  unfolding filter_audit_entry_def outside_dates_run [OF assms] field_differs_run selected_parts [OF assms]
  by simp blast

section \<open>The endpoint on a log of the chain\<close>

text \<open>The entries as the log has them, with text time stamps as \<open>write_audit_log\<close> writes them.\<close>

definition stamped :: "pydict \<Rightarrow> bool" where
  "stamped d \<longleftrightarrow> (\<exists>t. dget d ''timestamp'' = PStr t)"

lemma matches_of_log:
  assumes "list_all (entry_ok env) rs" "list_all stamped rs"
  shows "List.map_filter (match env q) (rev (text_lines (log_text env rs))) = map PDict (filter (selected q) (rev rs))"
proof -
  have lines: "text_lines (log_text env rs) = map (\<lambda>d. json_dumps (env_float_repr env) (PDict d)) rs"
    using log_lines [OF assms(1), of "[]"] by simp
  have "match env q (json_dumps (env_float_repr env) (PDict d)) = (if selected q d then Some (PDict d) else None)"
    if "d \<in> set rs" for d
  proof -
    have "entry_ok env d" "stamped d" using assms that by (auto simp: list_all_iff)
    then show ?thesis
      using jl.loads_dumps [of "env_float_repr env" "env_float_parse env" "PDict d"]
      by (auto simp: match_def stamped_def entry_ok_def filter_selected)
  qed
  then have "List.map_filter (match env q) (map (\<lambda>d. json_dumps (env_float_repr env) (PDict d)) xs) = map PDict (filter (selected q) xs)"
    if "set xs \<subseteq> set rs" for xs
    using that by (induction xs) (auto simp: List.map_filter_simps)
  then show ?thesis by (simp add: lines rev_map)
qed

text \<open>
  C17. \<open>/audit\<close> is the reference query: for a caller who may read the audit log, on a log of stamped
  entries, the answer is the list of the entries that satisfy every given parameter, newest first, cut
  at the limit (a limit below one counts as one); nothing is changed. A caller without the permission
  gets 403 and no entry.
\<close>

theorem audit_query_correct:
  assumes "get_role_from_api_key env key w = (Inr role, w1)" "has_permission env role ''audit_read'' w1 = (Inr allowed, w2)"
    and log: "fs w (ac_path (chain w)) = Some (log_text env rs)" "list_all (entry_ok env) rs" "list_all stamped rs"
  shows "get_audit env key q w = (Inr
      (if py_truthy allowed
       then ok_response (PList (take (nat (max 1 (aq_limit q))) (map PDict (filter (selected q) (rev rs)))))
       else detail_response 403 ''Forbidden''), w2)"
proof -
  have "outer_frame w w1" by (rule outer.keeps_run [OF role_outer assms(1)])
  moreover have "outer_frame w1 w2" by (rule outer.keeps_run [OF has_permission_outer assms(2)])
  ultimately have "world.more w2 = world.more w" by (simp add: outer_frame_def)
  then have "fs w2 (ac_path (chain w2)) = Some (log_text env rs)"
    using log(1) by (cases w; cases w2) auto
  then show ?thesis
    using assms(1,2) by (simp add: get_audit_def bindM_run audit_scan_filter matches_of_log [OF log(2,3)])
qed

definition example_records :: "pydict list" where
  "example_records =
     [[(''user'', PStr ''alice''), (''action'', PStr ''restart''), (''timestamp'', PStr ''2026-01-01T00:00:00Z'')],
      [(''user'', PStr ''bob''), (''action'', PStr ''drain''), (''timestamp'', PStr ''2026-01-02T00:00:00Z'')],
      [(''user'', PStr ''alice''), (''action'', PStr ''drain''), (''timestamp'', PStr ''2026-01-03T00:00:00Z'')]]"

theorem audit_query_correct_witness:
  "let q = \<lparr>aq_start = Some ''2026-01-02'', aq_end = None, aq_action = Some ''drain'', aq_user = None, aq_role = None,
         aq_controller = None, aq_limit = 1\<rparr>;
       w = example_server\<lparr>fs := [''logs/audit.log'' \<mapsto> log_text approval_env example_records]\<rparr>
   in fst (get_audit approval_env (PStr ''bob'') q w) = Inr (ok_response (PList [PDict (example_records ! 2)]))"
proof -
  let ?q = "\<lparr>aq_start = Some ''2026-01-02'', aq_end = None, aq_action = Some ''drain'', aq_user = None, aq_role = None,
         aq_controller = None, aq_limit = 1\<rparr>"
  define w where "w = example_server\<lparr>fs := [''logs/audit.log'' \<mapsto> log_text approval_env example_records]\<rparr>"
  have p: "has_permission approval_env (PStr ''lead'') ''audit_read'' v = (Inr (PBool True), v\<lparr>tick := Suc (tick v)\<rparr>)" for v :: server
    by (simp add: has_permission_def load_auth_config_def bindM_run approval_env_def permission_in_def)
  have l: "fs w (ac_path (chain w)) = Some (log_text approval_env example_records)"
    by (simp add: w_def example_server_simps)
  have ok: "list_all (entry_ok approval_env) example_records" "list_all stamped example_records"
    by (simp_all add: example_records_def entry_ok_def stamped_def dget_def)
  have s: "filter (selected ?q) (rev example_records) = [example_records ! 2, example_records ! 1]"
    by (simp add: example_records_def selected_def dget_def)
  show ?thesis
    using audit_query_correct [OF example_bob(1) p l ok, of ?q] unfolding Let_def w_def [symmetric] by (simp add: s)
qed

end
