(* ===== verification/EntryTypes.thy ===== *)
theory EntryTypes
  imports LifeCycle
begin

text \<open>
  The shape of an approval entry as an invariant of every request, and what it buys: in a server
  whose entries have it, the queue can always be listed, searched and saved.
\<close>

section \<open>The shape\<close>

definition statuses :: "pyval list" where
  "statuses = [PStr ''pending'', PStr ''approved'', PStr ''rejected'']"

definition shaped :: "pyval \<Rightarrow> bool" where
  "shaped e \<longleftrightarrow> (case e of
     PDict d \<Rightarrow> (\<exists>i. map_of d ''id'' = Some (PStr i)) \<and> (\<exists>p. map_of d ''payload'' = Some (PDict p))
       \<and> (\<exists>s\<in>set statuses. map_of d ''status'' = Some s) \<and> map_of d ''requested_by'' \<noteq> None
       \<and> map_of d ''role'' \<noteq> None \<and> map_of d ''controller'' \<noteq> None
   | _ \<Rightarrow> False)"

definition entries_ok :: "'s server_scheme \<Rightarrow> bool" where
  "entries_ok w \<longleftrightarrow> (\<forall>e\<in>set (heap w). shaped e)"

definition keeps_ok :: "'s server_scheme \<Rightarrow> 's server_scheme \<Rightarrow> bool" where
  "keeps_ok w w' \<longleftrightarrow> (entries_ok w \<longrightarrow> entries_ok w')"

interpretation typed: state_preorder keeps_ok
  by unfold_locales (auto simp: keeps_ok_def)

lemma calm_typed: "keeps calm m \<Longrightarrow> keeps keeps_ok m"
  by (auto simp: keeps_def calm_def keeps_ok_def entries_ok_def)

text \<open>The fields the handlers write.\<close>

definition writable :: "string \<Rightarrow> pyval \<Rightarrow> bool" where
  "writable k v \<longleftrightarrow> (if k = ''status'' then v \<in> set statuses else k \<in> {''result'', ''approved_by'', ''approver_role''})"

lemma shaped_update: "shaped (PDict d) \<Longrightarrow> writable k v \<Longrightarrow> shaped (PDict (AList.update k v d))"
  by (auto simp: shaped_def writable_def split: if_splits)

lemma set_field_typed: "writable k v \<Longrightarrow> keeps keeps_ok (set_field a k v)"
proof -
  assume k: "writable k v"
  have "entries_ok (w\<lparr>heap := (heap w)[a := PDict (AList.update k v d)]\<rparr>)"
    if "entries_ok w" "heap w ! a = PDict d" for w :: "'s server_scheme" and d
  proof (cases "a < length (heap w)")
    case True
    then have "shaped (PDict (AList.update k v d))"
      using that k nth_mem [OF True] by (intro shaped_update) (auto simp: entries_ok_def)
    then show ?thesis using that(1) set_update_subset_insert [of "heap w" a] by (auto simp: entries_ok_def)
  qed (use that in \<open>simp add: entries_ok_def list_update_beyond\<close>)
  then show ?thesis
    by (auto simp: keeps_def keeps_ok_def set_field_def get_entry_def split: pyval.split)
qed

lemma save_typed: "keeps keeps_ok (save_approval_queue env)"
  unfolding keeps_def keeps_ok_def entries_ok_def by (metis prod.collapse save_effect)

lemma queue_typed: "keeps keeps_ok (queue_for_approval env raw k r cn)"
proof -
  have m: "keeps keeps_ok (modifyM (enqueue_all [e]))" if "shaped e" for e
    using that by (auto simp: keeps_def keeps_ok_def entries_ok_def enqueue_all_def)
  show ?thesis
    unfolding queue_for_approval_def Let_def
    by (intro typed.keeps_bind typed.keeps_return save_typed calm_typed [OF outer_calm [OF outer_primitives(5)]] m)
      (simp add: shaped_def statuses_def)
qed

lemma pending_typed: "keeps keeps_ok (pending_entry env v i k)"
  by (rule calm_typed [OF pending_entry_calm])

lemma decision_case:
  "(\<And>x. keeps R (f x)) \<Longrightarrow> (\<And>x. keeps R (g x)) \<Longrightarrow> (\<And>x. keeps R (h x)) \<Longrightarrow>
     keeps R (case d of Refuse x \<Rightarrow> f x | Deny x \<Rightarrow> g x | Grant x \<Rightarrow> h x)"
  by (cases d) simp_all

lemmas typed_parts = typed.keeps_rules keeps_cases set_field_typed save_typed queue_typed pending_typed
  calm_typed [OF approve_decide_calm] calm_typed [OF approve_execute_calm] calm_typed [OF approve_report_calm]
  calm_typed [OF record_calm] calm_typed [OF outer_calm [OF role_outer]]
  calm_typed [OF outer_calm [OF has_permission_outer]] calm_typed [OF outer_calm [OF action_config_outer]]
  calm_typed [OF rate_gate_calm] calm_typed [OF authorize_calm] calm_typed [OF webhook_execute_calm]
  calm_typed [OF write_audit_log_calm]

lemma writable_simps:
  "writable ''status'' (PStr ''approved'')" "writable ''status'' (PStr ''rejected'')" "writable ''result'' v"
  "writable ''approved_by'' v" "writable ''approver_role'' v"
  by (simp_all add: writable_def statuses_def)

lemma approve_claim_typed: "keeps keeps_ok (approve_claim env i k role)"
  unfolding approve_claim_def by (intro typed_parts decision_case writable_simps)

lemma approve_run_typed: "keeps keeps_ok (approve_run env i k role c)"
  unfolding approve_run_def approve_no_executable_def approve_store_def
  by (intro typed_parts writable_simps)

lemma handle_typed: "keeps keeps_ok (handle env version req k)"
proof -
  have a: "keeps keeps_ok (approve_approval env i k)" for i
    unfolding approve_approval_def by (intro typed_parts approve_claim_typed approve_run_typed)
  have r: "keeps keeps_ok (reject_approval env i k)" for i
    unfolding reject_approval_def reject_claim_def entry_field_def get_entry_def
    by (intro typed_parts writable_simps)
  have w: "keeps keeps_ok (webhook env body k ip)" for body ip
    unfolding webhook_def Let_def by (intro typed_parts)
  show ?thesis
    by (cases req) (simp_all add: typed.keeps_return a r w calm_typed [OF reads_calm(1)]
      calm_typed [OF reads_calm(2)] calm_typed [OF reads_calm(3)] calm_typed [OF reads_calm(4)])
qed

lemma answer_typed: "keeps keeps_ok (answer env version req key)"
  unfolding answer_def serve_def dispatch_def
  by (intro typed.keeps_rules handle_typed calm_typed [OF outer_calm [OF valid_keys_outer]])

section \<open>What well-shaped entries buy\<close>

lemma shaped_items:
  assumes "shaped e"
  shows "\<exists>s. py_item e ''status'' = Inr s" "\<exists>i. py_item e ''id'' = Inr (PStr i)" "\<exists>v. entry_view e = Inr v"
  using assms by (auto simp: shaped_def entry_view_def split: pyval.splits)

lemma queue_entries_ok: "entries_ok w \<Longrightarrow> queue_ok w \<Longrightarrow> a \<in> set (approval_queue w) \<Longrightarrow> shaped (heap w ! a)"
  by (auto simp: entries_ok_def queue_ok_def)

lemma rmap_ok: "(\<And>x. x \<in> set xs \<Longrightarrow> \<exists>y. f x = Inr y) \<Longrightarrow> \<exists>ys. rmap f xs = Inr ys \<and> length ys = length xs"
  by (induction xs) fastforce+

lemma find_entry_total:
  "(\<And>a. a \<in> set q \<Longrightarrow> shaped (h ! a)) \<Longrightarrow> \<exists>r. find_entry h i q = Inr r"
proof (induction q)
  case (Cons a q)
  from shaped_items(2) [of "h ! a"] Cons.prems obtain j where "py_item (h ! a) ''id'' = Inr (PStr j)" by auto
  then show ?case using Cons by auto
qed simp

lemma prune_total:
  assumes "\<And>a. a \<in> set q \<Longrightarrow> shaped (h ! a)"
  shows "\<exists>q'. prune_queue h q = Inr q'"
proof -
  have "\<exists>ys. processed_flags h q = Inr ys \<and> length ys = length q"
    unfolding processed_flags_def
  proof (rule rmap_ok)
    fix a
    assume "a \<in> set q"
    then obtain s where "py_item (h ! a) ''status'' = Inr s" using assms shaped_items(1) by blast
    then show "\<exists>y. rbind (py_item (h ! a) ''status'') (\<lambda>st. Inr (a, st \<noteq> PStr ''pending'')) = Inr y" by simp
  qed
  then show ?thesis by (auto simp: prune_queue_def)
qed

text \<open>
  C14. Every request keeps the approval entries well-shaped, also one whose handler raises: a dictionary
  with a text as id, a dictionary as payload, one of the three statuses, and requester, role and
  controller present. In such a state listing, searching and saving the queue cannot fail with a
  missing field.
\<close>

theorem requests_keep_entries_typed:
  assumes "entries_ok w" "queue_ok w" "answer env version req api_key w = (r, w')"
  shows "entries_ok w' \<and> (\<exists>views. rmap entry_view (queue_values w') = Inr views \<and> length views = length (approval_queue w'))
    \<and> (\<forall>i. \<exists>found. find_entry (heap w') i (approval_queue w') = Inr found)
    \<and> (\<exists>w''. save_approval_queue env w' = (Inr (), w''))"
proof -
  have ok: "entries_ok w'" using typed.keeps_run [OF answer_typed assms(3)] assms(1) by (simp add: keeps_ok_def)
  have q: "queue_ok w'" using ref.keeps_run [OF answer_keeps assms(3)] assms(2) by (simp add: refines_def)
  note e = queue_entries_ok [OF ok q]
  have "\<exists>views. rmap entry_view (queue_values w') = Inr views \<and> length views = length (queue_values w')"
    by (rule rmap_ok) (auto simp: queue_values_def intro: shaped_items(3) e)
  moreover obtain q' where "prune_queue (heap w') (approval_queue w') = Inr q'" using prune_total e by blast
  ultimately show ?thesis
    using ok find_entry_total [of "approval_queue w'" "heap w'"] e save_run [of w' q' env] by (auto simp: queue_values_def)
qed

theorem requests_keep_entries_typed_witness:
  "let w' = snd (answer approval_env None (ApproveApproval ''r1'') (Some ''bob'') example_server)
   in entries_ok w' \<and> (\<exists>w''. save_approval_queue approval_env w' = (Inr (), w''))"
proof -
  have "entries_ok example_server"
    by (simp add: entries_ok_def example_server_simps example_approval_def shaped_def statuses_def)
  moreover obtain r w' where run: "answer approval_env None (ApproveApproval ''r1'') (Some ''bob'') example_server = (r, w')"
    by fastforce
  ultimately show ?thesis
    using requests_keep_entries_typed [OF _ example_server_ok(1) run] by (simp add: run)
qed

end
