(* ===== verification/Progress.thy ===== *)
theory Progress
  imports Gates EntryTypes
begin

text \<open>
  What becomes of a granted approval: it is executed, and nothing the queue contains can prevent it;
  and the one configuration change under which it is lost.
\<close>

section \<open>A granted approval is claimed\<close>

lemma write_entry_total:
  assumes ok: "entries_ok w" "queue_ok w" and e: "a < length (heap w)" "heap w ! a = PDict d"
    and f: "\<forall>(k, v)\<in>set xs. writable k v"
  shows "\<exists>w'. write_entry env a xs x w = (Inr x, w') \<and> heap w' = (heap w)[a := PDict (alist_merge d xs)]"
proof -
  let ?w = "w\<lparr>heap := (heap w)[a := PDict (alist_merge d xs)]\<rparr>"
  have "shaped (PDict d)" using ok(1) e nth_mem [OF e(1)] by (auto simp: entries_ok_def)
  then have "shaped (PDict (alist_merge d xs))"
    using f by (induction xs arbitrary: d) (auto simp: shaped_update)
  then have "entries_ok ?w"
    using ok(1) set_update_subset_insert [of "heap w" a "PDict (alist_merge d xs)"] by (auto simp: entries_ok_def)
  moreover have "queue_ok ?w" using ok(2) by (simp add: queue_ok_def)
  ultimately obtain q where q: "prune_queue (heap ?w) (approval_queue ?w) = Inr q"
    using prune_total queue_entries_ok by blast
  show ?thesis
    using save_run [OF q, of env] by (simp add: write_entry_def bindM_run set_fields_run [OF e])
qed

lemma claim_total:
  assumes ok: "entries_ok w" "queue_ok w" and d: "approve_decide env i key role w = (Inr (Grant c), u)"
  shows "\<exists>w'. approve_claim env i key role w = (Inr (Inr c), w')"
proof -
  have calm: "calm w u" by (rule calm.keeps_run [OF approve_decide_calm d])
  have ok': "entries_ok u" "queue_ok u" using ok calm by (auto simp: calm_def entries_ok_def queue_ok_def)
  have "claimable w key (cl_entry c)" using approve_decide_run [OF d] by simp
  then have "claimable u key (cl_entry c)" using calm by (simp add: calm_def claimable_def)
  from claimableE [OF ok'(2) this] obtain e where e: "cl_entry c < length (heap u)" "heap u ! cl_entry c = PDict e" by blast
  from write_entry_total [OF ok' e, of "[(''status'', PStr ''approved''), (''approved_by'', key), (''approver_role'', role)]" env "Inr c"]
  show ?thesis using d by (auto simp: approve_claim_writes bindM_run writable_simps)
qed

lemma granted_claimed:
  assumes "entries_ok w" "queue_ok w"
    and "get_role_from_api_key env key w = (Inr role, w1)"
    and "has_permission env role ''approve_actions'' w1 = (Inr p, w2)" "py_truthy p"
    and d: "approve_decide env i key role w2 = (Inr (Grant c), u)"
  obtains v where "approve_claim env i key role w2 = (Inr (Inr c), v)"
    "entry_get (heap v ! cl_entry c) ''status'' = Some (PStr ''approved'')" "infra v = infra w"
    "approve_approval env i key w = approve_run env i key role c v"
proof -
  have b: "before w w2"
    using before.keeps_run [OF guard_before(1) assms(3)] before.keeps_run [OF guard_before(4) assms(4)] by (rule before.R_trans)
  have ok: "entries_ok w2" "queue_ok w2" using assms(1,2) b by (auto simp: before_def entries_ok_def queue_ok_def)
  obtain v where v: "approve_claim env i key role w2 = (Inr (Inr c), v)" using claim_total [OF ok d] by blast
  have "held key (cl_entry c) v"
    using approve_claim_run [OF ok(2) v] by (auto simp: held_def stands_def)
  then have "entry_get (heap v ! cl_entry c) ''status'' = Some (PStr ''approved'')" by (auto elim!: heldE)
  moreover have "infra v = infra w"
    using infra.keeps_run [OF approve_claim_infra v] b by (simp add: before_def)
  moreover have "approve_approval env i key w = approve_run env i key role c v"
    using assms(3-5) v by (simp add: approve_approval_def bindM_run)
  ultimately show thesis using v by (intro that)
qed


lemma example_entries_ok: "entries_ok example_server"
  by (simp add: entries_ok_def example_server_simps example_approval_def shaped_def statuses_def)


section \<open>An approval that is lost\<close>

text \<open>
  C20. An approval whose controller has been removed from the configuration since the request was made is
  lost: it passes every check under the lock, is recorded as approved, and then fails with an
  \<open>AttributeError\<close> before anything is started and before anything is logged; the entry stays approved
  without a result, so neither a retry nor a rejection is possible.
\<close>

theorem approval_without_controller_is_lost:
  assumes "entries_ok w" "queue_ok w"
    and "get_role_from_api_key env key w = (Inr role, w1)"
    and "has_permission env role ''approve_actions'' w1 = (Inr p, w2)" "py_truthy p"
    and d: "approve_decide env i key role w2 = (Inr (Grant c), u)" "cl_controller_config c = PNone"
  shows "\<exists>m v. approve_claim env i key role w2 = (Inr (Inr c), v)
    \<and> approve_approval env i key w = (Inl (AttributeError m), v)
    \<and> entry_get (heap v ! cl_entry c) ''status'' = Some (PStr ''approved'') \<and> infra v = infra w"
proof -
  from assms(1-6) obtain v where v: "approve_claim env i key role w2 = (Inr (Inr c), v)"
    "entry_get (heap v ! cl_entry c) ''status'' = Some (PStr ''approved'')" "infra v = infra w"
    and run: "approve_approval env i key w = approve_run env i key role c v" by (rule granted_claimed)
  obtain m where "attr_error PNone ''get'' = AttributeError m" by (simp add: attr_error_def)
  then have "approve_run env i key role c v = (Inl (AttributeError m), v)"
    by (simp add: approve_run_def bindM_run approve_execute_def execute_action_def d(2))
  then show ?thesis using v run by auto
qed

text \<open>The example with the controller removed.\<close>

definition bare_env :: env where
  "bare_env = approval_env\<lparr>env_controllers_yaml := \<lambda>n. Inr (PDict [(''controllers'', PDict [])])\<rparr>"

lemma example_lost_decide:
  "\<exists>u. approve_decide bare_env ''r1'' (PStr ''bob'') (PStr ''lead'') (example_server\<lparr>tick := 2\<rparr>)
     = (Inr (Grant (approval_claim\<lparr>cl_controller_config := PNone\<rparr>)), u)"
  by (simp add: approve_decide_def pending_entry_def find_approval_entry_def bindM_run entry_field_def get_entry_def
      example_server_simps example_approval_def stored_payload_def bare_env_def approval_env_def get_action_config_def
      chosen_controller_def opt_true_def get_controller_config_def load_controllers_config_def requester_allowed_def
      has_permission_def load_auth_config_def permission_in_def is_action_allowed_for_key_def
      is_controller_allowed_for_key_def get_key_scope_def resolve_api_keys_def py_or_def py_is_dict_def Let_def
      normalize_key_entry_def scope_allows_def merged_params_def cooldown_key_for_def cooldown_applies_def opt_bool_def
      cooldown_remaining_def seconds_remaining_def approval_claim_def dget_def str_of_def)

theorem approval_without_controller_is_lost_witness:
  "\<exists>m v. approve_approval bare_env ''r1'' (PStr ''bob'') example_server = (Inl (AttributeError m), v)
     \<and> entry_get (heap v ! 0) ''status'' = Some (PStr ''approved'')"
proof -
  obtain u where u: "approve_decide bare_env ''r1'' (PStr ''bob'') (PStr ''lead'') (example_server\<lparr>tick := 2\<rparr>)
     = (Inr (Grant (approval_claim\<lparr>cl_controller_config := PNone\<rparr>)), u)"
    using example_lost_decide by blast
  have r: "get_role_from_api_key bare_env (PStr ''bob'') v = (Inr (PStr ''lead''), v\<lparr>tick := Suc (tick v)\<rparr>)"
    "has_permission bare_env (PStr ''lead'') ''approve_actions'' v = (Inr (PBool True), v\<lparr>tick := Suc (tick v)\<rparr>)" for v :: server
    by (simp_all add: get_role_from_api_key_def get_key_scope_def load_auth_config_def resolve_api_keys_def bindM_run
        bare_env_def approval_env_def py_or_def py_is_dict_def Let_def normalize_key_entry_def has_permission_def
        permission_in_def dget_def)
  have t: "Suc (tick example_server) = 1" by (simp add: example_server_simps)
  show ?thesis
    using approval_without_controller_is_lost [OF example_entries_ok example_server_ok(1) r(1) r(2), of "''r1''" _ u] u t
    by (auto simp: approval_claim_def numeral_2_eq_2)
qed

end
