(* ===== verification/Spec2Isabelle.thy ===== *)
theory Spec2Isabelle
  imports RateLimit ExecProps AuditRotation ShipProps Interleaving Recorded AuditQuery Progress
begin

text \<open>
  The auto-heal server (\<open>src/*.py\<close>): an HTTP service that receives alerts from monitoring systems
  and runs remediation actions (playbooks, scripts, commands over \<open>ssh\<close>, Kubernetes calls), if need
  be after the approval of a second person.

  A call of \<open>/webhook\<close> goes through all of it. The middleware of \<open>auth.py\<close> resolves the API key to a
  role; \<open>ratelimit.py\<close> limits the key and, separately, the action; the role and the scope of the key
  must admit the action and the controller it runs on (\<open>actions.py\<close> finds both in the
  configuration); \<open>cooldown.py\<close> refuses a run too soon after the last one. Then the request is
  either queued for approval (\<open>main.py\<close>) or executed (\<open>executor.py\<close>, with the secrets \<open>vault.py\<close>
  fetches), appended to the hash-chained log of \<open>audit.py\<close>, mirrored to an external log platform,
  and reported through \<open>notifications.py\<close>. The approval endpoints decide a queued request and
  execute it; the audit endpoints query and verify the log.

  \<^bold>\<open>Model.\<close> A Python value is a \<open>pyval\<close> (\<open>PyVal\<close>), a dictionary an association list in insertion
  order, a float its rational value, a string a list of characters. A stateful function is a
  function from a state to a result (a value or a \<open>py_exn\<close>) and the new state, in the monad of
  \<open>World\<close>; \<open>raise\<close>, \<open>try\<close> and \<open>finally\<close> are its combinators, and every exception the source can raise
  at a modelled operation is a branch. The state is extended by the components that keep one:
  \<open>world\<close> (questions asked, requests sent, temporary files, the Vault client's cache), \<open>disk\<close> (the
  audit log and its archives), \<open>ship_disk\<close> and \<open>notify_disk\<close> (the shipper, the notification sender),
  \<open>server\<close> (the approval queue with the heap its entries live in, the cooldown tracker, the limiter,
  the chain, the action catalogue).

  What the program asks the outside is answered by the record \<open>env\<close>: clock, HTTP, child processes,
  Kubernetes client, SMTP, syslog, configuration files (read again at every call, as in the code),
  directory listings, faults of writes and removals. An answer may depend on the number of questions
  asked before, so nothing is assumed of two successive ones. Library functions whose code is not in
  the repository are fields of \<open>env\<close> or arguments: YAML parsing, SHA-256, the printed form of a float
  and its parser, ISO time stamps, pydantic's validation, the format specifications of
  \<open>str.format\<close>. The standard library the source depends on for its own guarantees is modelled: JSON
  printing and parsing (\<open>Json\<close>), \<open>str.format\<close>, \<open>shlex.quote\<close>, \<open>shlex.split\<close> (\<open>Shell\<close>).

  \<^bold>\<open>Theories.\<close>
  \<^item> \<open>Prelude\<close>, \<open>PyVal\<close>, \<open>Json\<close>, \<open>JsonLaws\<close>, \<open>Files\<close>, \<open>World\<close>: exceptions and results, values, JSON and its
    round trip, loading and saving files by rename, the environment and the monad. The interfaces
    \<open>atomic_save\<close> (\<open>Files\<close>) and \<open>state_preorder\<close> (\<open>World\<close>: a relation every operation of a program
    keeps) are locales, interpreted wherever they are used.
  \<^item> \<open>RateLimit\<close> (\<open>ratelimit.py\<close>), \<open>Cooldown\<close> (\<open>cooldown.py\<close>), \<open>Vault\<close> (\<open>vault.py\<close>), \<open>Auth\<close> (\<open>auth.py\<close>),
    \<open>Actions\<close> (\<open>actions.py\<close> and the start-up merge of \<open>main.py\<close>): operations and their properties.
    The locales \<open>window_limiter\<close> and \<open>cooldown_store\<close> are what the callers rely on; the second is
    interpreted on the cooldown tracker and on the deduplication of the notifications.
  \<^item> \<open>Shell\<close>, \<open>Executor\<close>, \<open>Kube\<close> (\<open>executor.py\<close>, \<open>execute_action\<close> of \<open>main.py\<close>) with \<open>ExecProps\<close>: dry runs,
    temporary files, exceptions, quoting, success, draining a node.
  \<^item> \<open>AuditLog\<close> (the chain, rotation, verifier of \<open>audit.py\<close>) with \<open>AuditChain\<close> and \<open>AuditRotation\<close>: the
    invariant of the log, evidence of tampering, the backwards read, archives, torn writes.
    \<open>Ship\<close> (the mirror of \<open>audit.py\<close>) with \<open>ShipProps\<close>; \<open>Notify\<close> (\<open>notifications.py\<close>) with \<open>NotifyProps\<close>.
  \<^item> \<open>Approvals\<close> (the queue of \<open>main.py\<close>) with \<open>ApprovalProps\<close>; \<open>Server\<close> (the handlers of \<open>main.py\<close>, with
    the dispatch of a request to its handler).
  \<^item> Over whole requests: \<open>Frames\<close> (what a part of a request leaves alone), \<open>LifeCycle\<close> (an abstract
    machine of tickets, which every request refines, and the invariant of the second key),
    \<open>EntryTypes\<close> (entries stay well-shaped), \<open>Gates\<close> (what has been checked when something starts),
    \<open>Recorded\<close> (what an answer reports is in the log), \<open>AuditQuery\<close> (the query is a selection),
    \<open>Progress\<close> (a granted approval is executed, and when it is lost), \<open>Interleaving\<close> (requests
    that overlap).

  \<^bold>\<open>Concurrency.\<close> What the code does under \<open>approval_lock\<close>, or under the lock of the limiter, of the
  cooldown tracker or of the chain, is one definition and atomic. The handlers that only touch the
  approval queue under its lock are split there: \<open>Interleaving\<close> takes each such block as one step of
  an inductive relation and proves at-most-once execution for every order of the steps, with any
  other effect on the rest of the state between them. All other properties of requests are about
  one request running by itself, or a history of such requests.

  \<^bold>\<open>Loops.\<close> Loops over lists are structural recursion. The backwards read of the log and the search
  for a free archive name may not end for every argument: they are \<open>partial_function (option)\<close>,
  and \<open>read_last_line_correct\<close> and \<open>archive_name_found\<close> prove that they end.

  \<^bold>\<open>Not modelled.\<close> The format of the service's own text log (\<open>JsonFormatter\<close>, the set-up of the
  handlers) and every logger call: they only configure and feed the logging library. Decoding of
  bytes: files are texts of characters below 256. The MIME encoding of a mail beyond its two headers
  and the body. The file permissions set on secrets. The body of an HTTP request before it is parsed.
  Container, Helm and Kubernetes files, playbooks and shell scripts are content, not code of the
  server.
\<close>

end
